theory Spec2Isabelle
  imports Complex_Main "HOL-Library.AList" "HOL-Library.Sublist"
begin

section \<open>The GitHub contribution analyzer: scoring, collection, aggregation\<close>

text \<open>
  A shallow embedding of the report pipeline of the contribution analyzer
  (the controller whose functions are \<^verbatim>\<open>generateContributionReport\<close>,
  \<^verbatim>\<open>fetchCommitsForRepo\<close>, \<^verbatim>\<open>fetchCommitsForBranch\<close>, \<^verbatim>\<open>getPullRequests\<close>,
  \<^verbatim>\<open>getIssues\<close>, \<^verbatim>\<open>parseRepositories\<close>, \<^verbatim>\<open>generateAndPostReport\<close> and the two
  grading functions). JavaScript numbers that only ever hold counts are \<open>nat\<close> or \<open>int\<close>,
  strings are \<open>string\<close>, objects used as dictionaries are association lists in insertion
  order, thrown errors are values of \<open>js_error\<close>.
\<close>

subsection \<open>Scoring engine\<close>

text \<open>
  \<^verbatim>\<open>
  function calculateEffortGrade(linesModified, activityScore) {
    if (linesModified > 1000 || activityScore > 50) return 'A+';
    if (linesModified > 750 || activityScore > 40) return 'A';
    if (linesModified > 500 || activityScore > 30) return 'A-';
    if (linesModified > 300 || activityScore > 20) return 'B+';
    if (linesModified > 200 || activityScore > 15) return 'B';
    if (linesModified > 100 || activityScore > 10) return 'B-';
    if (linesModified > 50 || activityScore > 5) return 'C+';
    if (linesModified > 25 || activityScore > 3) return 'C';
    if (linesModified > 10 || activityScore > 1) return 'C-';
    return 'D';
  }
  \<close>
  Both arguments are sums of counts in the pipeline; they are integers here.
\<close>

definition calculateEffortGrade :: "int \<Rightarrow> int \<Rightarrow> string" where
  "calculateEffortGrade linesModified activityScore =
     (if linesModified > 1000 \<or> activityScore > 50 then ''A+''
      else if linesModified > 750 \<or> activityScore > 40 then ''A''
      else if linesModified > 500 \<or> activityScore > 30 then ''A-''
      else if linesModified > 300 \<or> activityScore > 20 then ''B+''
      else if linesModified > 200 \<or> activityScore > 15 then ''B''
      else if linesModified > 100 \<or> activityScore > 10 then ''B-''
      else if linesModified > 50 \<or> activityScore > 5 then ''C+''
      else if linesModified > 25 \<or> activityScore > 3 then ''C''
      else if linesModified > 10 \<or> activityScore > 1 then ''C-''
      else ''D'')"

text \<open>
  The score handed to \<^verbatim>\<open>convertScoreToGrade\<close> is a JavaScript number; every cutoff
  is a multiple of one half, so comparing the exact rational is what the doubles do.
  \<open>None\<close> is \<^verbatim>\<open>NaN\<close>, for which every comparison is false.
\<close>

definition convertScoreToGrade :: "rat option \<Rightarrow> string" where
  "convertScoreToGrade score =
     (case score of
        None \<Rightarrow> ''F''
      | Some s \<Rightarrow>
         (if s \<ge> 19 / 2 then ''A+''
          else if s \<ge> 9 then ''A''
          else if s \<ge> 17 / 2 then ''A-''
          else if s \<ge> 8 then ''B+''
          else if s \<ge> 15 / 2 then ''B''
          else if s \<ge> 7 then ''B-''
          else if s \<ge> 13 / 2 then ''C+''
          else if s \<ge> 6 then ''C''
          else if s \<ge> 11 / 2 then ''C-''
          else if s \<ge> 5 then ''D+''
          else if s \<ge> 4 then ''D''
          else ''F''))"

text \<open>
  The boundary table of \<^verbatim>\<open>calculateEffortGrade\<close> as data, highest band first:
  lines-modified threshold, activity-score threshold, grade. This second definition
  follows the words of the specification (bands checked highest first, a band is
  entered when either threshold is exceeded, first match wins) and is compared with
  the function above.
\<close>

definition effortBands :: "(int \<times> int \<times> string) list" where
  "effortBands =
     [(1000, 50, ''A+''), (750, 40, ''A''), (500, 30, ''A-''),
      (300, 20, ''B+''), (200, 15, ''B''), (100, 10, ''B-''),
      (50, 5, ''C+''), (25, 3, ''C''), (10, 1, ''C-'')]"

fun firstBand :: "(int \<times> int \<times> string) list \<Rightarrow> int \<Rightarrow> int \<Rightarrow> string" where
  "firstBand [] l a = ''D''"
| "firstBand ((lth, ath, g) # bands) l a =
     (if l > lth \<or> a > ath then g else firstBand bands l a)"

definition effortGrades :: "string list" where
  "effortGrades =
     [''A+'', ''A'', ''A-'', ''B+'', ''B'', ''B-'', ''C+'', ''C'', ''C-'', ''D'']"

text \<open>The position of a grade in the list above: 0 is the best grade.\<close>

fun gradeIndex :: "string list \<Rightarrow> string \<Rightarrow> nat" where
  "gradeIndex [] g = 0"
| "gradeIndex (x # xs) g = (if x = g then 0 else Suc (gradeIndex xs g))"

definition effortRank :: "string \<Rightarrow> nat" where
  "effortRank g = gradeIndex effortGrades g"

definition effortGradeRange :: "string set" where
  "effortGradeRange = {g. \<exists>l a. calculateEffortGrade l a = g}"

text \<open>The number of the band a pair falls into, counted from the best band.\<close>

definition effortBandIndex :: "int \<Rightarrow> int \<Rightarrow> nat" where
  "effortBandIndex l a =
     (if l > 1000 \<or> a > 50 then 0
      else if l > 750 \<or> a > 40 then 1
      else if l > 500 \<or> a > 30 then 2
      else if l > 300 \<or> a > 20 then 3
      else if l > 200 \<or> a > 15 then 4
      else if l > 100 \<or> a > 10 then 5
      else if l > 50 \<or> a > 5 then 6
      else if l > 25 \<or> a > 3 then 7
      else if l > 10 \<or> a > 1 then 8
      else 9)"

subsection \<open>JavaScript values and errors\<close>

text \<open>
  A thrown error is a value. Only the kinds the modelled functions can meet are listed.
\<close>

datatype js_error = ReferenceError string | TypeError string | SyntaxError string

text \<open>
  A \<^verbatim>\<open>try { body } catch (e) { handler }\<close>: the handler runs when the body throws.
\<close>

definition try_catch :: "js_error + 'a \<Rightarrow> (js_error \<Rightarrow> js_error + 'a) \<Rightarrow> js_error + 'a" where
  "try_catch body handler = (case body of Inl e \<Rightarrow> handler e | Inr v \<Rightarrow> Inr v)"

text \<open>
  The values \<^verbatim>\<open>JSON.parse\<close> produces. An object is its list of members in
  insertion order, each key once.
\<close>

datatype json =
    JNull
  | JBool bool
  | JNum rat
  | JStr string
  | JArr "json list"
  | JObj "(string \<times> json) list"

text \<open>Truthiness of a value; \<open>None\<close> is \<^verbatim>\<open>undefined\<close>.\<close>

fun truthy :: "json option \<Rightarrow> bool" where
  "truthy None = False"
| "truthy (Some JNull) = False"
| "truthy (Some (JBool b)) = b"
| "truthy (Some (JNum n)) = (n \<noteq> 0)"
| "truthy (Some (JStr s)) = (s \<noteq> [])"
| "truthy (Some (JArr xs)) = True"
| "truthy (Some (JObj kvs)) = True"

text \<open>
  Reading a named member \<^verbatim>\<open>v.name\<close>: \<^verbatim>\<open>null.name\<close> throws a TypeError, an object
  gives the member or \<^verbatim>\<open>undefined\<close>, every other value gives \<^verbatim>\<open>undefined\<close>
  (the names read in this program, \<^verbatim>\<open>owner\<close>, \<^verbatim>\<open>repo\<close>, \<^verbatim>\<open>contributors\<close> and
  \<^verbatim>\<open>codeQualityScore\<close>, are no built-in member of a string, number, boolean or array).
\<close>

fun get_member :: "json \<Rightarrow> string \<Rightarrow> js_error + json option" where
  "get_member JNull name = Inl (TypeError name)"
| "get_member (JObj kvs) name = Inr (map_of kvs name)"
| "get_member v name = Inr None"

text \<open>\<^verbatim>\<open>String.prototype.includes\<close>: the second string occurs in the first.\<close>

fun js_includes :: "string \<Rightarrow> string \<Rightarrow> bool" where
  "js_includes [] sub = (sub = [])"
| "js_includes (c # cs) sub = (prefix sub (c # cs) \<or> js_includes cs sub)"

text \<open>\<^verbatim>\<open>Array.prototype.findIndex\<close>; \<open>None\<close> is the result \<^verbatim>\<open>-1\<close>.\<close>

fun findIndex :: "('a \<Rightarrow> bool) \<Rightarrow> 'a list \<Rightarrow> nat option" where
  "findIndex p [] = None"
| "findIndex p (x # xs) =
     (if p x then Some 0 else (case findIndex p xs of None \<Rightarrow> None | Some i \<Rightarrow> Some (Suc i)))"

text \<open>
  \<^verbatim>\<open>Array.prototype.sort(compare)\<close> is stable; for a comparator that orders by a key it
  gives the stable sorted arrangement, which insertion from the right computes.
\<close>

fun insert_by :: "('a \<Rightarrow> 'a \<Rightarrow> int) \<Rightarrow> 'a \<Rightarrow> 'a list \<Rightarrow> 'a list" where
  "insert_by cmp x [] = [x]"
| "insert_by cmp x (y # ys) = (if cmp x y \<le> 0 then x # y # ys else y # insert_by cmp x ys)"

definition js_sort :: "('a \<Rightarrow> 'a \<Rightarrow> int) \<Rightarrow> 'a list \<Rightarrow> 'a list" where
  "js_sort cmp xs = foldr (insert_by cmp) xs []"

text \<open>
  \<^verbatim>\<open>array.slice(0, end)\<close>; \<open>None\<close> is \<^verbatim>\<open>NaN\<close> (read as 0), a negative end counts
  from the end of the array.
\<close>

definition slice_to :: "'a list \<Rightarrow> int option \<Rightarrow> 'a list" where
  "slice_to xs e =
     (case e of
        None \<Rightarrow> []
      | Some k \<Rightarrow> if k < 0 then take (nat (int (length xs) + k)) xs else take (nat k) xs)"

text \<open>
  \<^verbatim>\<open>parseInt(text, 10)\<close>: leading white space is skipped, a sign is read, then the
  longest run of decimal digits; \<open>None\<close> is \<^verbatim>\<open>NaN\<close>.
\<close>

definition is_space :: "char \<Rightarrow> bool" where
  "is_space c = (c \<in> set [CHR '' '', CHR 0x09, CHR 0x0A, CHR 0x0B, CHR 0x0C, CHR 0x0D])"

definition is_digit :: "char \<Rightarrow> bool" where
  "is_digit c = (48 \<le> (of_char c :: nat) \<and> (of_char c :: nat) \<le> 57)"

definition digits_to_nat :: "string \<Rightarrow> nat" where
  "digits_to_nat ds = foldl (\<lambda>n c. 10 * n + (of_char c - 48)) 0 ds"

definition parseInt10 :: "string \<Rightarrow> int option" where
  "parseInt10 text =
     (let s1 = dropWhile is_space text;
          negative = (case s1 of c # _ \<Rightarrow> c = CHR ''-'' | [] \<Rightarrow> False);
          s2 = (case s1 of c # r \<Rightarrow> if c = CHR ''-'' \<or> c = CHR ''+'' then r else s1 | [] \<Rightarrow> s1);
          ds = takeWhile is_digit s2
      in if ds = [] then None
         else Some (if negative then - int (digits_to_nat ds) else int (digits_to_nat ds)))"

text \<open>The process environment \<^verbatim>\<open>process.env\<close>: a variable is unset or holds a string.\<close>

type_synonym environ = "string \<rightharpoonup> string"

subsection \<open>The configured repositories\<close>

text \<open>
  \<^verbatim>\<open>
  function parseRepositories() {
    try {
      const reposEnv = process.env.GITHUB_REPOS;
      if (reposEnv) {
        try {
          const repos = JSON.parse(reposEnv);
          if (Array.isArray(repos) && repos.every(repo => repo.owner && repo.repo)) {
            return repos;
          } else { /* log; fall back to defaults */ }
        } catch (parseError) { /* log; fall back to defaults */ }
      }
      return [ four defaults ];
    } catch (error) {
      return [ four defaults ];
    }
  }
  \<close>
  \<^verbatim>\<open>JSON.parse\<close> belongs to the runtime and is a parameter of the model: it maps a text
  to the value it denotes, \<open>None\<close> when it throws a SyntaxError.
\<close>

definition defaultRepositories :: "json list" where
  "defaultRepositories =
     [JObj [(''owner'', JStr ''arch-network''), (''repo'', JStr ''arch-network'')],
      JObj [(''owner'', JStr ''arch-network''), (''repo'', JStr ''book'')],
      JObj [(''owner'', JStr ''arch-network''), (''repo'', JStr ''arch-infrastructure'')],
      JObj [(''owner'', JStr ''arch-network''), (''repo'', JStr ''arch-k8s'')]]"

text \<open>The callback \<^verbatim>\<open>repo => repo.owner && repo.repo\<close>, read for its truthiness.\<close>

definition hasOwnerAndRepo :: "json \<Rightarrow> js_error + bool" where
  "hasOwnerAndRepo repo =
     (case get_member repo ''owner'' of
        Inl e \<Rightarrow> Inl e
      | Inr ownerField \<Rightarrow>
          if \<not> truthy ownerField then Inr False
          else (case get_member repo ''repo'' of
                  Inl e \<Rightarrow> Inl e
                | Inr repoField \<Rightarrow> Inr (truthy repoField)))"

text \<open>\<^verbatim>\<open>Array.prototype.every\<close>: stops at the first element that fails or throws.\<close>

fun js_every :: "('a \<Rightarrow> js_error + bool) \<Rightarrow> 'a list \<Rightarrow> js_error + bool" where
  "js_every p [] = Inr True"
| "js_every p (x # xs) =
     (case p x of
        Inl e \<Rightarrow> Inl e
      | Inr ok \<Rightarrow> if ok then js_every p xs else Inr False)"

text \<open>
  The inner \<^verbatim>\<open>try\<close> block: \<open>Inr (Some repos)\<close> when it returns the parsed array,
  \<open>Inr None\<close> when it falls through to the defaults.
\<close>

definition parseAndValidate :: "(string \<Rightarrow> json option) \<Rightarrow> string \<Rightarrow> js_error + json list option" where
  "parseAndValidate JSON_parse reposEnv =
     (case JSON_parse reposEnv of
        None \<Rightarrow> Inl (SyntaxError reposEnv)
      | Some repos \<Rightarrow>
         (case repos of
            JArr rs \<Rightarrow>
              (case js_every hasOwnerAndRepo rs of
                 Inl e \<Rightarrow> Inl e
               | Inr ok \<Rightarrow> if ok then Inr (Some rs) else Inr None)
          | _ \<Rightarrow> Inr None))"

definition parseRepositories :: "(string \<Rightarrow> json option) \<Rightarrow> environ \<Rightarrow> js_error + json list" where
  "parseRepositories JSON_parse env =
     try_catch
       (case env ''GITHUB_REPOS'' of
          None \<Rightarrow> Inr defaultRepositories
        | Some reposEnv \<Rightarrow>
            if reposEnv = [] then Inr defaultRepositories
            else (case try_catch (parseAndValidate JSON_parse reposEnv) (\<lambda>parseError. Inr None) of
                    Inl e \<Rightarrow> Inl e
                  | Inr (Some repos) \<Rightarrow> Inr repos
                  | Inr None \<Rightarrow> Inr defaultRepositories))
       (\<lambda>error. Inr defaultRepositories)"

text \<open>
  What the claim calls an invalid or absent input: the variable is unset (or empty),
  its text is no JSON, the value is no array, or an entry of the array lacks an owner
  or a repo.
\<close>

definition invalidReposInput :: "(string \<Rightarrow> json option) \<Rightarrow> environ \<Rightarrow> bool" where
  "invalidReposInput JSON_parse env =
     (case env ''GITHUB_REPOS'' of
        None \<Rightarrow> True
      | Some reposEnv \<Rightarrow>
          reposEnv = [] \<or>
          (case JSON_parse reposEnv of
             None \<Rightarrow> True
           | Some (JArr rs) \<Rightarrow> list_ex (\<lambda>r. hasOwnerAndRepo r \<noteq> Inr True) rs
           | Some _ \<Rightarrow> True))"

text \<open>
  A sample of \<^verbatim>\<open>JSON.parse\<close> for concrete runs: it knows the two texts below and
  rejects every other text.
\<close>

definition sampleParse :: "string \<Rightarrow> json option" where
  "sampleParse text =
     (if text = ''[]'' then Some (JArr [])
      else if text = ''[{\"owner\":\"o\",\"repo\":\"r\"}]''
        then Some (JArr [JObj [(''owner'', JStr ''o''), (''repo'', JStr ''r'')]])
      else None)"

subsection \<open>Running a report from the chat command\<close>

text \<open>
  \<^verbatim>\<open>
  async function generateAndPostReport(client, channelId, respond) {
    try {
      const originalSkipDetailedContent = process.env.SKIP_DETAILED_CONTENT;
      const originalSkipAIAnalysis = process.env.SKIP_AI_ANALYSIS;
      process.env.SKIP_DETAILED_CONTENT = 'true';
      process.env.SKIP_AI_ANALYSIS = 'true';
      const report = await generateContributionReport();
      const savedReport = await saveReport(report);
      await postReportToChannel(client, channelId, report, savedReport._id);
      try { await respond(...) } catch (respondError) { ... }
    } catch (error) {
      try { await respond(...) } catch (respondError) { ... }
    } finally {
      // Restore original environment variables
      if (originalSkipDetailedContent) {
        process.env.SKIP_DETAILED_CONTENT = originalSkipDetailedContent;
      } else { delete process.env.SKIP_DETAILED_CONTENT; }
      if (originalSkipAIAnalysis) {
        process.env.SKIP_AI_ANALYSIS = originalSkipAIAnalysis;
      } else { delete process.env.SKIP_AI_ANALYSIS; }
    }
  }
  \<close>
  The two constants are declared with \<^verbatim>\<open>const\<close> inside the block of the \<^verbatim>\<open>try\<close>, so
  they are bound in that block only. The model keeps the bindings of each block: a
  scope maps a name to its value (a string, or \<open>None\<close> for \<^verbatim>\<open>undefined\<close> and for
  the three parameters, whose values are never read here); reading a name that the
  scope does not bind throws a ReferenceError.
\<close>

type_synonym scope = "string \<rightharpoonup> string option"

definition read_name :: "scope \<Rightarrow> string \<Rightarrow> js_error + string option" where
  "read_name sc name = (case sc name of None \<Rightarrow> Inl (ReferenceError name) | Some v \<Rightarrow> Inr v)"

text \<open>One \<^verbatim>\<open>if (original) env[key] = original; else delete env[key];\<close> of the \<^verbatim>\<open>finally\<close> block.\<close>

definition restoreFlag :: "scope \<Rightarrow> string \<Rightarrow> string \<Rightarrow> environ \<Rightarrow> js_error + environ" where
  "restoreFlag sc name key env =
     (case read_name sc name of
        Inl e \<Rightarrow> Inl e
      | Inr original \<Rightarrow>
         (case original of
            None \<Rightarrow> Inr (env(key := None))
          | Some s \<Rightarrow> if s \<noteq> [] then Inr (env(key \<mapsto> s)) else Inr (env(key := None))))"

text \<open>
  The \<^verbatim>\<open>finally\<close> block, run in the scope \<open>sc\<close>: the outcome (an error thrown, or
  normal completion) and the environment it leaves.
\<close>

definition restoreFlags :: "scope \<Rightarrow> environ \<Rightarrow> (js_error + unit) \<times> environ" where
  "restoreFlags sc env =
     (case restoreFlag sc ''originalSkipDetailedContent'' ''SKIP_DETAILED_CONTENT'' env of
        Inl e \<Rightarrow> (Inl e, env)
      | Inr env1 \<Rightarrow>
         (case restoreFlag sc ''originalSkipAIAnalysis'' ''SKIP_AI_ANALYSIS'' env1 of
            Inl e \<Rightarrow> (Inl e, env1)
          | Inr env2 \<Rightarrow> (Inr (), env2)))"

text \<open>The bindings of the function body: its three parameters.\<close>

definition functionScope :: scope where
  "functionScope = [''client'' \<mapsto> None, ''channelId'' \<mapsto> None, ''respond'' \<mapsto> None]"

text \<open>The bindings inside the block of the \<^verbatim>\<open>try\<close>, after its two declarations.\<close>

definition tryBlockScope :: "environ \<Rightarrow> scope" where
  "tryBlockScope env =
     functionScope(''originalSkipDetailedContent'' \<mapsto> env ''SKIP_DETAILED_CONTENT'',
                   ''originalSkipAIAnalysis'' \<mapsto> env ''SKIP_AI_ANALYSIS'')"

record 'r post_result =
  outcome :: "js_error + unit"
  env_after :: environ
  posted :: "'r option"

text \<open>
  \<open>generate\<close> is \<^verbatim>\<open>generateContributionReport\<close> run under the environment it is
  given: the report, or the error it throws. \<^verbatim>\<open>saveReport\<close> and \<^verbatim>\<open>postReportToChannel\<close>
  catch their own errors, and both \<^verbatim>\<open>respond\<close> calls sit in a \<^verbatim>\<open>try\<close> of their own,
  so the \<^verbatim>\<open>catch\<close> block completes normally and the \<^verbatim>\<open>finally\<close> block decides the
  outcome. The \<^verbatim>\<open>finally\<close> block is not inside the block of the \<^verbatim>\<open>try\<close>: it reads
  its names in the scope of the function body.
\<close>

definition generateAndPostReport :: "(environ \<Rightarrow> js_error + 'r) \<Rightarrow> environ \<Rightarrow> 'r post_result" where
  "generateAndPostReport generate env =
     (let env1 = env(''SKIP_DETAILED_CONTENT'' \<mapsto> ''true'', ''SKIP_AI_ANALYSIS'' \<mapsto> ''true'');
          report = (case generate env1 of Inl error \<Rightarrow> None | Inr r \<Rightarrow> Some r);
          (final, env2) = restoreFlags functionScope env1
      in \<lparr>outcome = final, env_after = env2, posted = report\<rparr>)"

subsection \<open>Chunking\<close>

text \<open>
  \<^verbatim>\<open>
  function chunkArray(array, chunkSize) {
    if (!array || !Array.isArray(array)) return [];
    const chunks = [];
    for (let i = 0; i < array.length; i += chunkSize) {
      chunks.push(array.slice(i, i + chunkSize));
    }
    return chunks;
  }
  \<close>
  With a chunk size of 0 and a non-empty array the loop never advances: the call does
  not return, which is the value \<open>None\<close>. Every caller passes 2 or 5.
\<close>

function chunksFrom :: "'a list \<Rightarrow> nat \<Rightarrow> nat \<Rightarrow> 'a list list" where
  "chunksFrom array chunkSize i =
     (if i < length array \<and> 0 < chunkSize
      then take chunkSize (drop i array) # chunksFrom array chunkSize (i + chunkSize)
      else [])"
  by pat_completeness auto
termination
  by (relation "measure (\<lambda>(array, chunkSize, i). length array - i)") auto

declare chunksFrom.simps [simp del]

definition chunkArray :: "'a list \<Rightarrow> nat \<Rightarrow> 'a list list option" where
  "chunkArray array chunkSize =
     (if chunkSize = 0 \<and> array \<noteq> [] then None else Some (chunksFrom array chunkSize 0))"

subsection \<open>The branch-aware commit collector\<close>

text \<open>
  A commit as the provider lists it: its sha, the login of the linked account
  (\<^verbatim>\<open>commit.author?.login\<close>) and the author name recorded in the commit
  (\<^verbatim>\<open>commit.commit?.author?.name\<close>), either of which may be missing.
\<close>

record commit =
  sha :: string
  author_login :: "string option"
  commit_author_name :: "string option"

definition priorityBranches :: "string list" where
  "priorityBranches = [''main'', ''master'', ''develop'', ''dev'', ''staging'', ''production'']"

definition priorityIndex :: "string \<Rightarrow> nat option" where
  "priorityIndex branch = findIndex (\<lambda>name. js_includes branch name) priorityBranches"

text \<open>
  \<^verbatim>\<open>
  allBranches.sort((a, b) => {
    const aIndex = priorityBranches.findIndex(name => a.includes(name));
    const bIndex = priorityBranches.findIndex(name => b.includes(name));
    if (aIndex !== -1 && bIndex !== -1) return aIndex - bIndex;
    if (aIndex !== -1) return -1;
    if (bIndex !== -1) return 1;
    return 0;
  });
  \<close>
\<close>

definition compareBranches :: "string \<Rightarrow> string \<Rightarrow> int" where
  "compareBranches a b =
     (case (priorityIndex a, priorityIndex b) of
        (Some aIndex, Some bIndex) \<Rightarrow> int aIndex - int bIndex
      | (Some aIndex, None) \<Rightarrow> - 1
      | (None, Some bIndex) \<Rightarrow> 1
      | (None, None) \<Rightarrow> 0)"

text \<open>
  One round of the merge:
  \<^verbatim>\<open>
  const uniqueIds = new Set(allCommits.map(commit => commit.sha));
  const newCommits = branchCommits.filter(commit => !uniqueIds.has(commit.sha));
  allCommits = [...allCommits, ...newCommits];
  \<close>
\<close>

definition mergeBranch :: "commit list \<Rightarrow> commit list \<Rightarrow> commit list" where
  "mergeBranch allCommits branchCommits =
     (let uniqueIds = set (map sha allCommits);
          newCommits = filter (\<lambda>c. sha c \<notin> uniqueIds) branchCommits
      in allCommits @ newCommits)"

text \<open>
  The loop over the chunks of branches. \<open>fetchBranch\<close> gives, for a branch, the list
  that its \<^verbatim>\<open>fetchCommitsForBranch\<close> call resolves to; the calls of one chunk run
  concurrently and \<^verbatim>\<open>Promise.all\<close> hands their results over in the order of the chunk.
\<close>

definition mergeChunks :: "(string \<Rightarrow> commit list) \<Rightarrow> string list list \<Rightarrow> commit list" where
  "mergeChunks fetchBranch branchChunks =
     foldl (\<lambda>allCommits branchChunk. foldl mergeBranch allCommits (map fetchBranch branchChunk))
       [] branchChunks"

definition collectBranches :: "nat \<Rightarrow> (string \<Rightarrow> commit list) \<Rightarrow> string list \<Rightarrow> commit list option" where
  "collectBranches concurrencyLimit fetchBranch allBranches =
     (case chunkArray allBranches concurrencyLimit of
        None \<Rightarrow> None
      | Some branchChunks \<Rightarrow> Some (mergeChunks fetchBranch branchChunks))"

text \<open>
  The branches the collector visits, in the order it visits them: the cached list of
  branch names when \<^verbatim>\<open>apiCache.get\<close> has one (\<open>cachedBranches\<close>, \<open>None\<close> for a miss),
  else the names the \<^verbatim>\<open>listBranches\<close> request returns, else (the request failed) the
  single branch \<^verbatim>\<open>''\<close>, the default branch; more than three branches are put in
  priority order, and all of them stay in the list.
\<close>

definition visitedBranches :: "string list option \<Rightarrow> js_error + string list \<Rightarrow> string list" where
  "visitedBranches cachedBranches listBranches =
     (let allBranches =
            (case cachedBranches of
               Some branches \<Rightarrow> branches
             | None \<Rightarrow> (case listBranches of Inr names \<Rightarrow> names | Inl branchError \<Rightarrow> [[]]))
      in if length allBranches > 3 then js_sort compareBranches allBranches else allBranches)"

text \<open>
  \<^verbatim>\<open>fetchCommitsForRepo(repo, since, until)\<close>. \<open>cachedCommits\<close> is what
  \<^verbatim>\<open>apiCache.get('commits', cacheKey)\<close> returns for the repository and window (\<open>None\<close>
  for a miss); a cached array is returned as it is, also when it is empty (an array is
  truthy). The only entry ever stored under that key is an earlier result of this
  function. The result is \<open>None\<close> when the call does not return. Nothing in the body
  throws in the model, so the outer \<^verbatim>\<open>catch\<close>, which returns \<^verbatim>\<open>[]\<close>, has no case.
\<close>

definition fetchCommitsForRepo ::
  "commit list option \<Rightarrow> string list option \<Rightarrow> js_error + string list
     \<Rightarrow> (string \<Rightarrow> commit list) \<Rightarrow> commit list option" where
  "fetchCommitsForRepo cachedCommits cachedBranches listBranches fetchBranch =
     (case cachedCommits of
        Some commits \<Rightarrow> Some commits
      | None \<Rightarrow> collectBranches 5 fetchBranch (visitedBranches cachedBranches listBranches))"

text \<open>How many commits of a list carry a given sha.\<close>

definition shaCount :: "string \<Rightarrow> commit list \<Rightarrow> nat" where
  "shaCount s commits = length (filter (\<lambda>c. sha c = s) commits)"

text \<open>
  Sample data: two branches that share the commit \<open>s2\<close>.
\<close>

definition sampleCommit :: "string \<Rightarrow> commit" where
  "sampleCommit s = \<lparr>sha = s, author_login = Some ''alice'', commit_author_name = None\<rparr>"

definition sampleFetchBranch :: "string \<Rightarrow> commit list" where
  "sampleFetchBranch branch =
     (if branch = ''main'' then [sampleCommit ''s1'', sampleCommit ''s2'']
      else if branch = ''dev'' then [sampleCommit ''s2'', sampleCommit ''s3'']
      else [])"

subsection \<open>The rate-aware fetch layer\<close>

text \<open>
  An error thrown by a request to the provider: the HTTP status (when there is one),
  the message, and the two rate-limit headers of the response, \<^verbatim>\<open>x-ratelimit-remaining\<close>
  (a string) and \<^verbatim>\<open>x-ratelimit-reset\<close> (seconds since the epoch), each possibly absent.
\<close>

record api_error =
  status :: "nat option"
  message :: string
  ratelimit_remaining :: "string option"
  ratelimit_reset :: "nat option"

text \<open>What one request comes back with: a page of items, or an error.\<close>

datatype 'a reply = Data "'a list" | Failure api_error

text \<open>
  The clock \<^verbatim>\<open>Date.now()\<close> in milliseconds and the log of the times at which requests
  were issued, oldest first. A fetch is run against a script: the replies its successive
  requests will get, each with the time the request takes. A fetch whose script runs out
  before it finishes has the result \<open>None\<close>; its log is kept.
\<close>

record world =
  now :: int
  issued :: "int list"

definition request :: "nat \<Rightarrow> world \<Rightarrow> world" where
  "request latency w = w\<lparr>issued := issued w @ [now w], now := now w + int latency\<rparr>"

text \<open>
  \<^verbatim>\<open>await new Promise(resolve => setTimeout(resolve, waitTime))\<close>: the fetch resumes
  when the timer fires. The timer takes a delay between 1 and 2147483647 milliseconds
  as it is; a larger delay, a delay below 1 and a \<^verbatim>\<open>NaN\<close> delay (\<open>None\<close>) are set to
  1 millisecond.
\<close>

definition TIMEOUT_MAX :: int where
  "TIMEOUT_MAX = 2147483647"

definition timerDelay :: "int option \<Rightarrow> int" where
  "timerDelay waitTime =
     (case waitTime of
        None \<Rightarrow> 1
      | Some d \<Rightarrow> if d > TIMEOUT_MAX \<or> d < 1 then 1 else d)"

definition sleep :: "int option \<Rightarrow> world \<Rightarrow> world" where
  "sleep waitTime w = w\<lparr>now := now w + timerDelay waitTime\<rparr>"

text \<open>
  \<^verbatim>\<open>Math.max(resetTime * 1000 - Date.now(), 0) + 1000\<close>; without the reset header the
  product is \<^verbatim>\<open>NaN\<close> and so is the wait.
\<close>

definition rateLimitWait :: "nat option \<Rightarrow> int \<Rightarrow> int option" where
  "rateLimitWait resetTime dateNow =
     (case resetTime of None \<Rightarrow> None | Some t \<Rightarrow> Some (max (int t * 1000 - dateNow) 0 + 1000))"

text \<open>A wait that the timer takes as it is.\<close>

definition fitsTimer :: "int option \<Rightarrow> bool" where
  "fitsTimer waitTime = (case waitTime of None \<Rightarrow> False | Some d \<Rightarrow> 1 \<le> d \<and> d \<le> TIMEOUT_MAX)"

text \<open>\<^verbatim>\<open>Math.pow(2, attempts) * 1000\<close>\<close>

definition backoff :: "nat \<Rightarrow> int option" where
  "backoff attempts = Some (2 ^ attempts * 1000)"

text \<open>
  The variables of a pagination loop. \<open>collected\<close> is \<^verbatim>\<open>allBranchCommits\<close>, \<^verbatim>\<open>allPRs\<close>
  or \<^verbatim>\<open>allIssues\<close>; \<open>hasMore\<close> is \<^verbatim>\<open>hasMoreCommits\<close> or \<^verbatim>\<open>hasMorePages\<close>; \<open>tries\<close> is
  \<^verbatim>\<open>retries\<close> or \<^verbatim>\<open>attempts\<close>.
\<close>

record 'a paging =
  collected :: "'a list"
  page :: nat
  hasMore :: bool
  tries :: nat
  success :: bool

definition firstPage :: "'a paging" where
  "firstPage = \<lparr>collected = [], page = 1, hasMore = True, tries = 0, success = False\<rparr>"

subsubsection \<open>The response cache\<close>

text \<open>
  \<^verbatim>\<open>
  get(cacheType, key) {
    const item = cache.get(key);
    if (!item) return null;
    if (Date.now() > item.expiresAt) { cache.delete(key); return null; }
    return item.data;
  },
  set(cacheType, key, data) {
    const expiresAt = Date.now() + this.CACHE_TTL;
    cache.set(key, { data, expiresAt });
  }
  \<close>
\<close>

type_synonym 'a cache = "string \<rightharpoonup> ('a \<times> int)"

definition CACHE_TTL :: int where
  "CACHE_TTL = 30 * 60 * 1000"

definition cache_get :: "int \<Rightarrow> 'a cache \<Rightarrow> string \<Rightarrow> 'a option \<times> 'a cache" where
  "cache_get dateNow c key =
     (case c key of
        None \<Rightarrow> (None, c)
      | Some (item, expiresAt) \<Rightarrow>
          if dateNow > expiresAt then (None, c(key := None)) else (Some item, c))"

definition cache_set :: "int \<Rightarrow> 'a cache \<Rightarrow> string \<Rightarrow> 'a \<Rightarrow> 'a cache" where
  "cache_set dateNow c key item = c(key \<mapsto> (item, dateNow + CACHE_TTL))"

subsubsection \<open>Commits of one branch\<close>

text \<open>
  \<^verbatim>\<open>parseInt(text)\<close> without a radix: as with radix 10, but a text that starts with
  \<^verbatim>\<open>0x\<close> or \<^verbatim>\<open>0X\<close> after the sign is read as hexadecimal.
\<close>

definition hex_digit :: "char \<Rightarrow> nat option" where
  "hex_digit c =
     (let n = (of_char c :: nat)
      in if 48 \<le> n \<and> n \<le> 57 then Some (n - 48)
         else if 65 \<le> n \<and> n \<le> 70 then Some (n - 55)
         else if 97 \<le> n \<and> n \<le> 102 then Some (n - 87)
         else None)"

definition hex_to_nat :: "string \<Rightarrow> nat" where
  "hex_to_nat ds = foldl (\<lambda>n c. 16 * n + (case hex_digit c of Some d \<Rightarrow> d | None \<Rightarrow> 0)) 0 ds"

definition parseInt :: "string \<Rightarrow> int option" where
  "parseInt text =
     (let s1 = dropWhile is_space text;
          negative = (case s1 of c # _ \<Rightarrow> c = CHR ''-'' | [] \<Rightarrow> False);
          s2 = (case s1 of c # r \<Rightarrow> if c = CHR ''-'' \<or> c = CHR ''+'' then r else s1 | [] \<Rightarrow> s1)
      in if prefix ''0x'' s2 \<or> prefix ''0X'' s2
         then (let hs = takeWhile (\<lambda>c. hex_digit c \<noteq> None) (drop 2 s2)
               in if hs = [] then None
                  else Some (if negative then - int (hex_to_nat hs) else int (hex_to_nat hs)))
         else (let ds = takeWhile is_digit s2
               in if ds = [] then None
                  else Some (if negative then - int (digits_to_nat ds) else int (digits_to_nat ds))))"

text \<open>
  \<^verbatim>\<open>
  const isMemoryOptimized = process.env.MEMORY_OPTIMIZED === 'true';
  const pageSize = isMemoryOptimized ? 100 : 250;
  const maxPages = isMemoryOptimized ? 2 :
                   process.env.MAX_BRANCH_PAGES ? parseInt(process.env.MAX_BRANCH_PAGES) : 10;
  \<close>
\<close>

record branch_config =
  pageSize :: nat
  maxPages :: "int option"
  maxRetries :: nat

definition isMemoryOptimized :: "environ \<Rightarrow> bool" where
  "isMemoryOptimized env = (env ''MEMORY_OPTIMIZED'' = Some ''true'')"

definition branchConfig :: "environ \<Rightarrow> nat \<Rightarrow> branch_config" where
  "branchConfig env retriesAllowed =
     \<lparr>pageSize = (if isMemoryOptimized env then 100 else 250),
      maxPages =
        (if isMemoryOptimized env then Some 2
         else (case env ''MAX_BRANCH_PAGES'' of
                 None \<Rightarrow> Some 10
               | Some text \<Rightarrow> if text = [] then Some 10 else parseInt text)),
      maxRetries = retriesAllowed\<rparr>"

text \<open>\<^verbatim>\<open>page <= maxPages\<close>, false when \<^verbatim>\<open>maxPages\<close> is \<^verbatim>\<open>NaN\<close>.\<close>

definition pageAllowed :: "nat \<Rightarrow> int option \<Rightarrow> bool" where
  "pageAllowed p limit = (case limit of None \<Rightarrow> False | Some m \<Rightarrow> int p \<le> m)"

text \<open>
  The body of the inner \<^verbatim>\<open>try\<close> after a page has arrived:
  \<^verbatim>\<open>
  if (response.data.length === 0) { hasMoreCommits = false; }
  else {
    allBranchCommits = [...allBranchCommits, ...response.data];
    if (response.data.length < pageSize) { hasMoreCommits = false; }
    page++;
  }
  success = true;
  \<close>
\<close>

definition commitsPageOk :: "nat \<Rightarrow> 'a list \<Rightarrow> 'a paging \<Rightarrow> 'a paging" where
  "commitsPageOk size_of_page d st =
     (if d = [] then st\<lparr>hasMore := False, success := True\<rparr>
      else st\<lparr>collected := collected st @ d,
              hasMore := (if length d < size_of_page then False else hasMore st),
              page := Suc (page st),
              success := True\<rparr>)"

text \<open>
  The \<^verbatim>\<open>catch\<close> of the inner \<^verbatim>\<open>try\<close>:
  \<^verbatim>\<open>
  retries++;
  if (error.status === 403 && error.response?.headers?.['x-ratelimit-remaining'] === '0') {
    const resetTime = error.response.headers['x-ratelimit-reset'];
    const waitTime = Math.max(resetTime * 1000 - Date.now(), 0) + 1000;
    await new Promise(resolve => setTimeout(resolve, waitTime));
  } else if (retries < maxRetries) {
    const waitTime = Math.pow(2, retries) * 1000;
    await new Promise(resolve => setTimeout(resolve, waitTime));
  } else {
    hasMoreCommits = false;
  }
  \<close>
\<close>

definition commitsPageFailed :: "branch_config \<Rightarrow> api_error \<Rightarrow> 'a paging \<Rightarrow> world \<Rightarrow> 'a paging \<times> world" where
  "commitsPageFailed cfg e st w =
     (let retries = Suc (tries st)
      in if status e = Some 403 \<and> ratelimit_remaining e = Some ''0''
         then (st\<lparr>tries := retries\<rparr>, sleep (rateLimitWait (ratelimit_reset e) (now w)) w)
         else if retries < maxRetries cfg
         then (st\<lparr>tries := retries\<rparr>, sleep (backoff retries) w)
         else (st\<lparr>tries := retries, hasMore := False\<rparr>, w))"

text \<open>
  The two nested loops of \<^verbatim>\<open>fetchCommitsForBranch\<close>:
  \<^verbatim>\<open>
  while (hasMoreCommits && page <= maxPages) {
    let retries = 0;
    let success = false;
    while (!success && retries < maxRetries) {
      try { const response = await octokit.rest.repos.listCommits({...}); ... }
      catch (error) { ... }
    }
  }
  \<close>
  \<open>commitsOuter\<close> stands at the head of the outer loop, \<open>commitsInner\<close> at the head of
  the inner one. With \<^verbatim>\<open>maxRetries\<close> 0 the inner loop does nothing and the outer loop
  never ends; the caller passes 3.
\<close>

function commitsOuter ::
    "branch_config \<Rightarrow> 'a paging \<Rightarrow> world \<Rightarrow> (nat \<times> 'a reply) list \<Rightarrow> 'a list option \<times> world"
  and commitsInner ::
    "branch_config \<Rightarrow> 'a paging \<Rightarrow> world \<Rightarrow> (nat \<times> 'a reply) list \<Rightarrow> 'a list option \<times> world"
  where
  "commitsOuter cfg st w script =
     (if hasMore st \<and> pageAllowed (page st) (maxPages cfg)
      then (if maxRetries cfg = 0 then (None, w)
            else commitsInner cfg (st\<lparr>tries := 0, success := False\<rparr>) w script)
      else (Some (collected st), w))"
| "commitsInner cfg st w script =
     (if \<not> success st \<and> tries st < maxRetries cfg
      then (case script of
              [] \<Rightarrow> (None, w)
            | (latency, reply) # rest \<Rightarrow>
               (case reply of
                  Data d \<Rightarrow>
                    commitsInner cfg (commitsPageOk (pageSize cfg) d st) (request latency w) rest
                | Failure e \<Rightarrow>
                    commitsInner cfg (fst (commitsPageFailed cfg e st (request latency w)))
                      (snd (commitsPageFailed cfg e st (request latency w))) rest))
      else commitsOuter cfg st w script)"
  by pat_completeness auto
termination
  by (relation "measures
        [\<lambda>x. case x of Inl (cfg, st, w, script) \<Rightarrow> length script
                      | Inr (cfg, st, w, script) \<Rightarrow> length script,
         \<lambda>x. case x of Inl (cfg, st, w, script) \<Rightarrow> 1
                      | Inr (cfg, st, w, script) \<Rightarrow>
                          if \<not> success st \<and> tries st < maxRetries cfg then 0 else 2]")
    auto

declare commitsOuter.simps [simp del] commitsInner.simps [simp del]

text \<open>
  \<^verbatim>\<open>fetchCommitsForBranch(repo, branch, since, until, maxRetries)\<close>: the cache is read
  first; then one request with \<^verbatim>\<open>per_page: 1\<close> probes the branch, and an empty page or
  any error ends the fetch with \<^verbatim>\<open>[]\<close>; then the pages are fetched. Every result
  that is returned after a request is stored in the cache.
\<close>

definition branchCacheKey :: "string \<Rightarrow> string \<Rightarrow> string \<Rightarrow> string \<Rightarrow> string \<Rightarrow> string" where
  "branchCacheKey owner name branch since until =
     owner @ ''/'' @ name @ '':'' @ branch @ '':'' @ since @ '':'' @ until"

definition fetchCommitsForBranch ::
  "branch_config \<Rightarrow> string \<Rightarrow> world \<Rightarrow> 'a list cache \<Rightarrow> (nat \<times> 'a reply) list
     \<Rightarrow> 'a list option \<times> world \<times> 'a list cache" where
  "fetchCommitsForBranch cfg cacheKey w c script =
     (case cache_get (now w) c cacheKey of
        (Some cachedCommits, c1) \<Rightarrow> (Some cachedCommits, w, c1)
      | (None, c1) \<Rightarrow>
         (case script of
            [] \<Rightarrow> (None, w, c1)
          | (latency, checkResponse) # rest \<Rightarrow>
             (let w1 = request latency w
              in case checkResponse of
                   Failure e \<Rightarrow> (Some [], w1, cache_set (now w1) c1 cacheKey [])
                 | Data d \<Rightarrow>
                     if d = [] then (Some [], w1, cache_set (now w1) c1 cacheKey [])
                     else (case commitsOuter cfg firstPage w1 rest of
                             (None, w2) \<Rightarrow> (None, w2, c1)
                           | (Some allBranchCommits, w2) \<Rightarrow>
                               (Some allBranchCommits, w2,
                                cache_set (now w2) c1 cacheKey allBranchCommits)))))"

subsubsection \<open>Pull requests\<close>

text \<open>
  A pull request and an issue as the provider lists them. \<open>created_at\<close> is the
  creation time in milliseconds; the author (\<^verbatim>\<open>user\<close>) may be \<^verbatim>\<open>null\<close>.
\<close>

record pull_request =
  pr_user :: "string option"
  pr_created_at :: int
  merged_at :: "string option"

record issue =
  issue_user :: "string option"
  issue_created_at :: int
  is_pull_request :: bool
  issue_state :: string

text \<open>
  \<^verbatim>\<open>
  if (response.data.length === 0) { hasMorePages = false; }
  else {
    const filteredPRs = response.data.filter(pr => {
      const createdDate = new Date(pr.created_at);
      return createdDate >= new Date(since) && createdDate <= new Date(until);
    });
    allPRs = allPRs.concat(filteredPRs);
    page++;
    if (response.data.length < 100) { hasMorePages = false; }
  }
  \<close>
\<close>

definition pullsPageOk :: "int \<Rightarrow> int \<Rightarrow> pull_request list \<Rightarrow> pull_request paging \<Rightarrow> pull_request paging" where
  "pullsPageOk since until d st =
     (if d = [] then st\<lparr>hasMore := False\<rparr>
      else st\<lparr>collected :=
                collected st @ filter (\<lambda>pr. pr_created_at pr \<ge> since \<and> pr_created_at pr \<le> until) d,
              page := Suc (page st),
              hasMore := (if length d < 100 then False else hasMore st)\<rparr>)"

text \<open>
  \<^verbatim>\<open>
  catch (apiError) {
    if (apiError.status === 403 && apiError.message.includes('rate limit')) { hasMorePages = false; }
    else if (apiError.status === 404) { hasMorePages = false; }
    else if (apiError.status === 401) { hasMorePages = false; }
    else { hasMorePages = false; }
  }
  \<close>
\<close>

definition pullsPageFailed :: "api_error \<Rightarrow> 'a paging \<Rightarrow> 'a paging" where
  "pullsPageFailed apiError st =
     (if status apiError = Some 403 \<and> js_includes (message apiError) ''rate limit''
      then st\<lparr>hasMore := False\<rparr>
      else if status apiError = Some 404 then st\<lparr>hasMore := False\<rparr>
      else if status apiError = Some 401 then st\<lparr>hasMore := False\<rparr>
      else st\<lparr>hasMore := False\<rparr>)"

text \<open>The loop \<^verbatim>\<open>while (hasMorePages) { try { ... } catch (apiError) { ... } }\<close>.\<close>

fun pullsLoop ::
  "int \<Rightarrow> int \<Rightarrow> pull_request paging \<Rightarrow> world \<Rightarrow> (nat \<times> pull_request reply) list
     \<Rightarrow> pull_request list option \<times> world" where
  "pullsLoop since until st w [] =
     (if hasMore st then (None, w) else (Some (collected st), w))"
| "pullsLoop since until st w ((latency, reply) # rest) =
     (if hasMore st
      then (case reply of
              Data d \<Rightarrow> pullsLoop since until (pullsPageOk since until d st) (request latency w) rest
            | Failure apiError \<Rightarrow> pullsLoop since until (pullsPageFailed apiError st) (request latency w) rest)
      else (Some (collected st), w))"

definition getPullRequests ::
  "int \<Rightarrow> int \<Rightarrow> world \<Rightarrow> (nat \<times> pull_request reply) list \<Rightarrow> pull_request list option \<times> world" where
  "getPullRequests since until w script = pullsLoop since until firstPage w script"

subsubsection \<open>Issues\<close>

definition maxAttempts :: nat where
  "maxAttempts = 3"

text \<open>
  \<^verbatim>\<open>
  if (response.data.length === 0) { hasMorePages = false; }
  else {
    const filteredIssues = response.data.filter(issue => new Date(issue.created_at) <= untilDate);
    allIssues = allIssues.concat(filteredIssues);
    page++;
    if (response.data.length < 100) { hasMorePages = false; }
  }
  success = true;
  \<close>
\<close>

definition issuesPageOk :: "int \<Rightarrow> issue list \<Rightarrow> issue paging \<Rightarrow> issue paging" where
  "issuesPageOk until d st =
     (if d = [] then st\<lparr>hasMore := False, success := True\<rparr>
      else st\<lparr>collected := collected st @ filter (\<lambda>i. issue_created_at i \<le> until) d,
              page := Suc (page st),
              hasMore := (if length d < 100 then False else hasMore st),
              success := True\<rparr>)"

text \<open>
  The \<^verbatim>\<open>catch\<close> of the inner \<^verbatim>\<open>try\<close>; \<^verbatim>\<open>attempts\<close> was incremented at the start of
  the \<^verbatim>\<open>try\<close>, before the request.
  \<^verbatim>\<open>
  if (apiError.message.includes('socket hang up') || apiError.message.includes('ECONNRESET')) {
    const waitTime = Math.pow(2, attempts) * 1000;
    await new Promise(resolve => setTimeout(resolve, waitTime));
    continue;
  }
  if (apiError.status === 403 && apiError.message.includes('rate limit')) {
    const resetTime = apiError.response?.headers?.['x-ratelimit-reset'];
    if (resetTime) {
      const waitTime = Math.max((resetTime * 1000) - Date.now(), 0) + 1000;
      await new Promise(resolve => setTimeout(resolve, waitTime));
      // Don't increment attempts for rate limit errors
      attempts--;
      continue;
    }
  }
  if (attempts < maxAttempts) {
    const waitTime = Math.pow(2, attempts) * 1000;
    await new Promise(resolve => setTimeout(resolve, waitTime));
  } else {
    hasMorePages = false;
  }
  \<close>
\<close>

definition issuesPageFailed :: "api_error \<Rightarrow> 'a paging \<Rightarrow> world \<Rightarrow> 'a paging \<times> world" where
  "issuesPageFailed apiError st w =
     (if js_includes (message apiError) ''socket hang up'' \<or> js_includes (message apiError) ''ECONNRESET''
      then (st, sleep (backoff (tries st)) w)
      else if status apiError = Some 403 \<and> js_includes (message apiError) ''rate limit''
              \<and> ratelimit_reset apiError \<noteq> None
      then (st\<lparr>tries := tries st - 1\<rparr>, sleep (rateLimitWait (ratelimit_reset apiError) (now w)) w)
      else if tries st < maxAttempts
      then (st, sleep (backoff (tries st)) w)
      else (st\<lparr>hasMore := False\<rparr>, w))"

text \<open>
  The two nested loops of \<^verbatim>\<open>getIssues\<close>:
  \<^verbatim>\<open>
  while (hasMorePages) {
    let attempts = 0;
    let success = false;
    while (!success && attempts < maxAttempts) {
      try { attempts++; const response = await octokit.issues.listForRepo({...}); ... }
      catch (apiError) { ... }
    }
  }
  \<close>
\<close>

function issuesOuter ::
    "int \<Rightarrow> issue paging \<Rightarrow> world \<Rightarrow> (nat \<times> issue reply) list \<Rightarrow> issue list option \<times> world"
  and issuesInner ::
    "int \<Rightarrow> issue paging \<Rightarrow> world \<Rightarrow> (nat \<times> issue reply) list \<Rightarrow> issue list option \<times> world"
  where
  "issuesOuter until st w script =
     (if hasMore st
      then issuesInner until (st\<lparr>tries := 0, success := False\<rparr>) w script
      else (Some (collected st), w))"
| "issuesInner until st w script =
     (if \<not> success st \<and> tries st < maxAttempts
      then (case script of
              [] \<Rightarrow> (None, w)
            | (latency, reply) # rest \<Rightarrow>
               (case reply of
                  Data d \<Rightarrow>
                    issuesInner until (issuesPageOk until d (st\<lparr>tries := Suc (tries st)\<rparr>))
                      (request latency w) rest
                | Failure apiError \<Rightarrow>
                    issuesInner until
                      (fst (issuesPageFailed apiError (st\<lparr>tries := Suc (tries st)\<rparr>) (request latency w)))
                      (snd (issuesPageFailed apiError (st\<lparr>tries := Suc (tries st)\<rparr>) (request latency w)))
                      rest))
      else issuesOuter until st w script)"
  by pat_completeness auto
termination
  by (relation "measures
        [\<lambda>x. case x of Inl (until, st, w, script) \<Rightarrow> length script
                      | Inr (until, st, w, script) \<Rightarrow> length script,
         \<lambda>x. case x of Inl (until, st, w, script) \<Rightarrow> 1
                      | Inr (until, st, w, script) \<Rightarrow>
                          if \<not> success st \<and> tries st < maxAttempts then 0 else 2]")
    (auto simp: maxAttempts_def)

declare issuesOuter.simps [simp del] issuesInner.simps [simp del]

definition getIssues ::
  "int \<Rightarrow> world \<Rightarrow> (nat \<times> issue reply) list \<Rightarrow> issue list option \<times> world" where
  "getIssues until w script = issuesOuter until firstPage w script"

text \<open>Sample errors and items for concrete runs.\<close>

definition rateLimited :: "nat \<Rightarrow> api_error" where
  "rateLimited resetTime =
     \<lparr>status = Some 403, message = ''API rate limit exceeded'',
      ratelimit_remaining = Some ''0'', ratelimit_reset = Some resetTime\<rparr>"

definition quotaExhausted :: "nat \<Rightarrow> api_error" where
  "quotaExhausted resetTime =
     \<lparr>status = Some 403, message = ''Forbidden'',
      ratelimit_remaining = Some ''0'', ratelimit_reset = Some resetTime\<rparr>"

definition serverError :: api_error where
  "serverError =
     \<lparr>status = Some 500, message = ''Internal Server Error'',
      ratelimit_remaining = None, ratelimit_reset = None\<rparr>"

definition notFound :: api_error where
  "notFound =
     \<lparr>status = Some 404, message = ''Not Found'',
      ratelimit_remaining = None, ratelimit_reset = None\<rparr>"

definition badCredentials :: api_error where
  "badCredentials =
     \<lparr>status = Some 401, message = ''Bad credentials'',
      ratelimit_remaining = None, ratelimit_reset = None\<rparr>"

definition startWorld :: world where
  "startWorld = \<lparr>now = 0, issued = []\<rparr>"

definition defaultConfig :: branch_config where
  "defaultConfig = \<lparr>pageSize = 250, maxPages = Some 10, maxRetries = 3\<rparr>"


definition samplePull :: pull_request where
  "samplePull = \<lparr>pr_user = Some ''alice'', pr_created_at = 0, merged_at = None\<rparr>"

text \<open>
  A run that starts in the world \<open>w\<close> and ends with \<open>r\<close> only appends to the log, and
  every request it appends is issued at or after the time of \<open>w\<close>.
\<close>

definition issuedAfter :: "world \<Rightarrow> 'r \<times> world \<Rightarrow> bool" where
  "issuedAfter w r =
     (\<exists>ts. issued (snd r) = issued w @ ts \<and> list_all (\<lambda>t. now w \<le> t) ts)"

text \<open>The requests a run has added to a log that held \<open>n\<close> entries.\<close>

definition laterRequests :: "nat \<Rightarrow> 'r \<times> world \<Rightarrow> int list" where
  "laterRequests n r = drop n (issued (snd r))"

text \<open>
  What each function takes for a rate-limit signal with reset time \<open>t\<close> (in seconds):
  \<^verbatim>\<open>fetchCommitsForBranch\<close> reads the status and the remaining-quota header,
  \<^verbatim>\<open>getIssues\<close> reads the status and the message (and handles socket errors first).
\<close>

definition commitsRateLimitSignal :: "api_error \<Rightarrow> nat \<Rightarrow> bool" where
  "commitsRateLimitSignal e t =
     (status e = Some 403 \<and> ratelimit_remaining e = Some ''0'' \<and> ratelimit_reset e = Some t)"

definition socketError :: "api_error \<Rightarrow> bool" where
  "socketError e = (js_includes (message e) ''socket hang up'' \<or> js_includes (message e) ''ECONNRESET'')"

definition issuesRateLimitSignal :: "api_error \<Rightarrow> nat \<Rightarrow> bool" where
  "issuesRateLimitSignal e t =
     (status e = Some 403 \<and> js_includes (message e) ''rate limit'' \<and> ratelimit_reset e = Some t
      \<and> \<not> socketError e)"

text \<open>A "resource not found" or "authentication failed" error.\<close>

definition permanentError :: "api_error \<Rightarrow> bool" where
  "permanentError e = ((status e = Some 404 \<or> status e = Some 401) \<and> \<not> socketError e)"

text \<open>A script of failed requests: each error with the time its request takes.\<close>

definition failures :: "(nat \<times> api_error) list \<Rightarrow> (nat \<times> 'a reply) list" where
  "failures es = map (\<lambda>(latency, e). (latency, Failure e)) es"

subsection \<open>The contribution data\<close>

text \<open>
  The object built by \<^verbatim>\<open>generateContributionReport\<close>. Objects used as dictionaries
  (\<^verbatim>\<open>users\<close>, \<^verbatim>\<open>repositories\<close>, a user's \<^verbatim>\<open>repositories\<close>) are association lists in
  the order in which the runtime enumerates the keys, with each key once: assigning to
  a key that is there replaces its value in place, assigning to a new key adds it, and
  changing the value under a key is \<open>AList.map_entry\<close>. A repository key
  \<^verbatim>\<open>`${owner}/${repo}`\<close> is added at the end (\<open>AList.update\<close>); a user name is added
  by \<open>js_add\<close> below. The per-repository fields \<^verbatim>\<open>commits\<close>,
  \<^verbatim>\<open>pullRequests\<close>, \<^verbatim>\<open>issues\<close> and the line counts carry a prefix here, since field
  names are global in a theory.
\<close>

record user_repo_stats =
  userRepoCommits :: nat
  userRepoPullRequests :: nat
  userRepoIssues :: nat
  userRepoLinesAdded :: nat
  userRepoLinesDeleted :: nat
  userRepoLinesModified :: nat

record code_content =
  commitDetails :: "string list"
  prDetails :: "string list"
  issueDetails :: "string list"

record user_stats =
  totalCommits :: nat
  totalPRs :: nat
  totalIssues :: nat
  linesAdded :: nat
  linesDeleted :: nat
  linesModified :: nat
  activityScore :: nat
  codeQualityGrade :: string
  effortGrade :: string
  userRepositories :: "(string \<times> user_repo_stats) list"
  codeContent :: "code_content option"

record repo_stats =
  repoCommits :: nat
  repoPullRequests :: nat
  repoIssues :: nat
  prsMerged :: nat
  issuesClosed :: nat
  repoLinesAdded :: nat
  repoLinesDeleted :: nat
  repoLinesModified :: nat
  contributors :: "string list"

record summary_stats =
  summaryTotalCommits :: nat
  summaryTotalPRs :: nat
  summaryTotalIssues :: nat
  totalLinesAdded :: nat
  totalLinesDeleted :: nat
  totalLinesModified :: nat
  summaryPrsMerged :: nat
  summaryIssuesClosed :: nat
  summaryRepositories :: "string list"
  reportPeriod :: "string \<times> string"

record contributions =
  summary :: summary_stats
  users :: "(string \<times> user_stats) list"
  repositories :: "(string \<times> repo_stats) list"
  aiAnalysis :: "json option"

text \<open>
  Reading a property of a plain object that is used as a dictionary, as in
  \<^verbatim>\<open>usersObj[username]\<close>: the value of the object's own property when it has one;
  otherwise, for a name that every object inherits from \<^verbatim>\<open>Object.prototype\<close>, the
  inherited value, which is a function (for \<^verbatim>\<open>__proto__\<close> the prototype itself), so
  it is truthy and has none of the properties of the report; otherwise
  \<^verbatim>\<open>undefined\<close>.
\<close>

definition inheritedNames :: "string list" where
  "inheritedNames =
     [''constructor'', ''__defineGetter__'', ''__defineSetter__'', ''hasOwnProperty'',
      ''__lookupGetter__'', ''__lookupSetter__'', ''isPrototypeOf'', ''propertyIsEnumerable'',
      ''toString'', ''valueOf'', ''__proto__'', ''toLocaleString'']"

datatype 'a property = Own 'a | Inherited | Missing

definition js_get :: "(string \<times> 'a) list \<Rightarrow> string \<Rightarrow> 'a property" where
  "js_get obj name =
     (case map_of obj name of
        Some v \<Rightarrow> Own v
      | None \<Rightarrow> if name \<in> set inheritedNames then Inherited else Missing)"

text \<open>
  Adding a property that the object does not have. The runtime enumerates the keys that
  are array indices (the decimal text, without leading zeros, of a number below
  4294967295) first, in ascending order, and then the other keys in the order in
  which they were added.
\<close>

definition indexValue :: "string \<Rightarrow> int" where
  "indexValue ds = foldl (\<lambda>n c. 10 * n + (of_char c - 48)) 0 ds"

definition isArrayIndex :: "string \<Rightarrow> bool" where
  "isArrayIndex name =
     (name \<noteq> [] \<and> list_all is_digit name \<and> (name = ''0'' \<or> hd name \<noteq> CHR ''0'')
      \<and> indexValue name < 4294967295)"

definition js_add :: "(string \<times> 'a) list \<Rightarrow> string \<Rightarrow> 'a \<Rightarrow> (string \<times> 'a) list" where
  "js_add obj name v =
     (if isArrayIndex name
      then takeWhile (\<lambda>e. isArrayIndex (fst e) \<and> indexValue (fst e) < indexValue name) obj
             @ (name, v)
             # dropWhile (\<lambda>e. isArrayIndex (fst e) \<and> indexValue (fst e) < indexValue name) obj
      else obj @ [(name, v)])"

text \<open>
  \<^verbatim>\<open>
  function initializeUserStats(usersObj, username) {
    if (!usersObj[username]) {
      usersObj[username] = { totalCommits: 0, totalPRs: 0, totalIssues: 0, linesAdded: 0,
        linesDeleted: 0, linesModified: 0, activityScore: 0, codeQualityGrade: 'N/A',
        effortGrade: 'N/A', repositories: {} };
    }
    // Ensure all repositories have stats initialized for this user
    // This function is called when processing per-repo stats
    const repoKey = arguments[2]; // Optional third parameter
    if (repoKey && !usersObj[username].repositories[repoKey]) {
      usersObj[username].repositories[repoKey] = { commits: 0, pullRequests: 0, issues: 0,
        linesAdded: 0, linesDeleted: 0, linesModified: 0 };
    }
  }
  \<close>
  The third argument is \<open>None\<close> when the call passes two arguments. For a user name
  that objects inherit, \<^verbatim>\<open>usersObj[username]\<close> is truthy, no user is created, and
  with a repository key the read of \<^verbatim>\<open>usersObj[username].repositories[repoKey]\<close>
  throws, since \<^verbatim>\<open>repositories\<close> of the inherited value is \<^verbatim>\<open>undefined\<close>.
\<close>

definition newUserStats :: user_stats where
  "newUserStats =
     \<lparr>totalCommits = 0, totalPRs = 0, totalIssues = 0, linesAdded = 0, linesDeleted = 0,
      linesModified = 0, activityScore = 0, codeQualityGrade = ''N/A'', effortGrade = ''N/A'',
      userRepositories = [], codeContent = None\<rparr>"

definition newUserRepoStats :: user_repo_stats where
  "newUserRepoStats =
     \<lparr>userRepoCommits = 0, userRepoPullRequests = 0, userRepoIssues = 0,
      userRepoLinesAdded = 0, userRepoLinesDeleted = 0, userRepoLinesModified = 0\<rparr>"

text \<open>The second \<^verbatim>\<open>if\<close> of \<^verbatim>\<open>initializeUserStats\<close> for a user that exists.\<close>

definition initializeUserRepo ::
  "(string \<times> user_stats) list \<Rightarrow> string \<Rightarrow> string option \<Rightarrow> (string \<times> user_stats) list" where
  "initializeUserRepo usersObj username repoKeyArg =
     (case repoKeyArg of
        None \<Rightarrow> usersObj
      | Some repoKey \<Rightarrow>
          if repoKey \<noteq> []
          then AList.map_entry username
                 (\<lambda>u. case js_get (userRepositories u) repoKey of
                        Missing \<Rightarrow>
                          u\<lparr>userRepositories :=
                              js_add (userRepositories u) repoKey newUserRepoStats\<rparr>
                      | Own stats \<Rightarrow> u
                      | Inherited \<Rightarrow> u)
                 usersObj
          else usersObj)"

definition initializeUserStats ::
  "(string \<times> user_stats) list \<Rightarrow> string \<Rightarrow> string option
     \<Rightarrow> js_error + (string \<times> user_stats) list" where
  "initializeUserStats usersObj username repoKeyArg =
     (case js_get usersObj username of
        Missing \<Rightarrow>
          Inr (initializeUserRepo (js_add usersObj username newUserStats) username repoKeyArg)
      | Own u \<Rightarrow> Inr (initializeUserRepo usersObj username repoKeyArg)
      | Inherited \<Rightarrow>
          (case repoKeyArg of
             None \<Rightarrow> Inr usersObj
           | Some repoKey \<Rightarrow> if repoKey \<noteq> [] then Inl (TypeError repoKey) else Inr usersObj))"

text \<open>
  The two guarded calls every per-author step starts with:
  \<^verbatim>\<open>
  if (!contributions.users[author]) { initializeUserStats(contributions.users, author); }
  if (!contributions.users[author].repositories[repoKey]) {
    initializeUserStats(contributions.users, author, repoKey);
  }
  \<close>
  For an author whose name objects inherit, the first condition is false and the second
  one throws a TypeError before anything is written.
\<close>

definition ensureUser ::
  "string \<Rightarrow> string \<Rightarrow> (string \<times> user_stats) list \<Rightarrow> js_error + (string \<times> user_stats) list" where
  "ensureUser author repoKey usersObj =
     (case (case js_get usersObj author of
              Missing \<Rightarrow> initializeUserStats usersObj author None
            | Own u \<Rightarrow> Inr usersObj
            | Inherited \<Rightarrow> Inr usersObj) of
        Inl e \<Rightarrow> Inl e
      | Inr usersObj1 \<Rightarrow>
         (case js_get usersObj1 author of
            Own u \<Rightarrow>
              (case js_get (userRepositories u) repoKey of
                 Missing \<Rightarrow> initializeUserStats usersObj1 author (Some repoKey)
               | Own stats \<Rightarrow> Inr usersObj1
               | Inherited \<Rightarrow> Inr usersObj1)
          | Inherited \<Rightarrow> Inl (TypeError repoKey)
          | Missing \<Rightarrow> Inl (TypeError ''repositories'')))"

text \<open>
  \<^verbatim>\<open>
  if (!contributions.repositories[repoKey].contributors.includes(author)) {
    contributions.repositories[repoKey].contributors.push(author);
  }
  \<close>
\<close>

definition addContributor :: "string \<Rightarrow> string \<Rightarrow> (string \<times> repo_stats) list \<Rightarrow> (string \<times> repo_stats) list" where
  "addContributor repoKey author repos =
     AList.map_entry repoKey
       (\<lambda>r. if author \<in> set (contributors r) then r
            else r\<lparr>contributors := contributors r @ [author]\<rparr>)
       repos"

text \<open>
  Grouping items by author with a \<^verbatim>\<open>Map\<close>, which keeps the authors in the order of
  their first item:
  \<^verbatim>\<open>
  if (!authors.has(author)) { authors.set(author, []); }
  authors.get(author).push(item);
  \<close>
\<close>

definition groupByAuthor :: "('a \<Rightarrow> string) \<Rightarrow> 'a list \<Rightarrow> (string \<times> 'a list) list" where
  "groupByAuthor authorOf items =
     foldl (\<lambda>authors item.
              (case map_of authors (authorOf item) of
                 None \<Rightarrow> authors @ [(authorOf item, [item])]
               | Some _ \<Rightarrow> AList.map_entry (authorOf item) (\<lambda>xs. xs @ [item]) authors))
       [] items"

text \<open>\<^verbatim>\<open>commit.author?.login || commit.commit?.author?.name || 'Unknown'\<close>\<close>

definition commitAuthor :: "commit \<Rightarrow> string" where
  "commitAuthor c =
     (let name = (case commit_author_name c of
                    Some n \<Rightarrow> if n \<noteq> [] then n else ''Unknown''
                  | None \<Rightarrow> ''Unknown'')
      in case author_login c of
           Some login \<Rightarrow> if login \<noteq> [] then login else name
         | None \<Rightarrow> name)"

subsection \<open>Folding one repository into the contribution data\<close>

text \<open>
  The line counts of one analyzed commit (\<open>added\<close> and \<open>deleted\<close> are the sums of
  \<^verbatim>\<open>file.additions || 0\<close> and \<^verbatim>\<open>file.deletions || 0\<close> over its files) go to the user, to
  the user's entry for the repository, to the repository and to the summary.
\<close>

definition addCommitLines :: "string \<Rightarrow> string \<Rightarrow> nat \<Rightarrow> nat \<Rightarrow> contributions \<Rightarrow> contributions" where
  "addCommitLines repoKey author added deleted c =
     c\<lparr>users :=
         AList.map_entry author
           (\<lambda>u. u\<lparr>linesAdded := linesAdded u + added,
                  linesDeleted := linesDeleted u + deleted,
                  linesModified := linesModified u + (added + deleted),
                  userRepositories :=
                    AList.map_entry repoKey
                      (\<lambda>r. r\<lparr>userRepoLinesAdded := userRepoLinesAdded r + added,
                             userRepoLinesDeleted := userRepoLinesDeleted r + deleted,
                             userRepoLinesModified := userRepoLinesModified r + (added + deleted)\<rparr>)
                      (userRepositories u)\<rparr>)
           (users c),
       repositories :=
         AList.map_entry repoKey
           (\<lambda>r. r\<lparr>repoLinesAdded := repoLinesAdded r + added,
                  repoLinesDeleted := repoLinesDeleted r + deleted,
                  repoLinesModified := repoLinesModified r + (added + deleted)\<rparr>)
           (repositories c),
       summary :=
         (summary c)\<lparr>totalLinesAdded := totalLinesAdded (summary c) + added,
                     totalLinesDeleted := totalLinesDeleted (summary c) + deleted,
                     totalLinesModified := totalLinesModified (summary c) + (added + deleted)\<rparr>\<rparr>"

text \<open>
  The update of one analyzed commit: \<open>commitFiles\<close> gives the additions and deletions
  of each file of the commit as \<^verbatim>\<open>getCommit\<close> (or the cache of commit details)
  reports them, \<open>None\<close> when the request fails; the failure is caught and the commit is
  left out. The update is made when the response arrives.
\<close>

definition analyzeCommit ::
  "(string \<Rightarrow> string \<Rightarrow> (nat \<times> nat) list option) \<Rightarrow> string \<Rightarrow> contributions
     \<Rightarrow> string \<times> commit \<Rightarrow> contributions" where
  "analyzeCommit commitFiles repoKey c analyzed =
     (case commitFiles repoKey (sha (snd analyzed)) of
        None \<Rightarrow> c
      | Some files \<Rightarrow>
          addCommitLines repoKey (fst analyzed) (sum_list (map fst files))
            (sum_list (map snd files)) c)"

text \<open>
  The task of one repository runs its three parts (commits, pull requests, issues) and,
  inside each part, one step for each author, as promises under \<^verbatim>\<open>Promise.all\<close>. Every
  part and every step runs at once up to its first \<^verbatim>\<open>await\<close>; a step that throws
  rejects its promise without stopping the others. So the state of a task is the shared
  \<^verbatim>\<open>contributions\<close> object, whether a promise of the task has been rejected, and the
  commits whose details have been requested, each with its author. The repository key
  is \<^verbatim>\<open>`${owner}/${repo}`\<close>: it is never empty and never a name that objects inherit.
\<close>

record task =
  shared :: contributions
  rejected :: bool
  requested :: "(string \<times> commit) list"

text \<open>
  The step for one author of the commits of a repository. At most the first 20 commits
  of the author are analyzed for line counts; the step requests their details in
  batches of five and awaits them.
\<close>

definition processAuthorCommits :: "string \<Rightarrow> task \<Rightarrow> string \<times> commit list \<Rightarrow> task" where
  "processAuthorCommits repoKey t entry =
     (let author = fst entry;
          authorCommits = snd entry;
          c = shared t
      in case ensureUser author repoKey (users c) of
           Inl e \<Rightarrow> t\<lparr>rejected := True\<rparr>
         | Inr users1 \<Rightarrow>
            (let users2 =
                   AList.map_entry author
                     (\<lambda>u. u\<lparr>totalCommits := totalCommits u + length authorCommits,
                            userRepositories :=
                              AList.map_entry repoKey
                                (\<lambda>r. r\<lparr>userRepoCommits := userRepoCommits r + length authorCommits\<rparr>)
                                (userRepositories u)\<rparr>)
                     users1;
                 c1 = c\<lparr>users := users2,
                        repositories := addContributor repoKey author (repositories c)\<rparr>;
                 commitsToAnalyze =
                   (if length authorCommits > 20 then take 20 authorCommits else authorCommits)
             in t\<lparr>shared := c1,
                  requested := requested t @ map (Pair author) commitsToAnalyze\<rparr>))"

text \<open>
  \<^verbatim>\<open>
  contributions.summary.totalCommits += commits.length;
  contributions.repositories[repoKey].commits = commits.length;
  if (commits.length === 0) { return; }
  ... group by author, then the step above for each author ...
  \<close>
\<close>

definition processCommits :: "string \<Rightarrow> commit list \<Rightarrow> task \<Rightarrow> task" where
  "processCommits repoKey fetchedCommits t =
     (let c = shared t;
          c1 = c\<lparr>summary :=
                   (summary c)\<lparr>summaryTotalCommits :=
                                 summaryTotalCommits (summary c) + length fetchedCommits\<rparr>,
                 repositories :=
                   AList.map_entry repoKey (\<lambda>r. r\<lparr>repoCommits := length fetchedCommits\<rparr>)
                     (repositories c)\<rparr>
      in if fetchedCommits = [] then t\<lparr>shared := c1\<rparr>
         else foldl (processAuthorCommits repoKey) (t\<lparr>shared := c1\<rparr>)
                (groupByAuthor commitAuthor fetchedCommits))"

text \<open>
  The step for one author of pull requests or of issues:
  \<^verbatim>\<open>
  contributions.users[author].totalPRs += authorPRs.length;
  contributions.users[author].repositories[repoKey].pullRequests += authorPRs.length;
  \<close>
  after the two guarded calls, and before the contributor is added to the repository.
\<close>

definition processAuthorPRs :: "string \<Rightarrow> task \<Rightarrow> string \<times> pull_request list \<Rightarrow> task" where
  "processAuthorPRs repoKey t entry =
     (let author = fst entry;
          authorPRs = snd entry;
          c = shared t
      in case ensureUser author repoKey (users c) of
           Inl e \<Rightarrow> t\<lparr>rejected := True\<rparr>
         | Inr users1 \<Rightarrow>
            (let users2 =
                   AList.map_entry author
                     (\<lambda>u. u\<lparr>totalPRs := totalPRs u + length authorPRs,
                            userRepositories :=
                              AList.map_entry repoKey
                                (\<lambda>r. r\<lparr>userRepoPullRequests :=
                                         userRepoPullRequests r + length authorPRs\<rparr>)
                                (userRepositories u)\<rparr>)
                     users1
             in t\<lparr>shared := c\<lparr>users := users2,
                              repositories := addContributor repoKey author (repositories c)\<rparr>\<rparr>))"

definition processAuthorIssues :: "string \<Rightarrow> task \<Rightarrow> string \<times> issue list \<Rightarrow> task" where
  "processAuthorIssues repoKey t entry =
     (let author = fst entry;
          authorIssues = snd entry;
          c = shared t
      in case ensureUser author repoKey (users c) of
           Inl e \<Rightarrow> t\<lparr>rejected := True\<rparr>
         | Inr users1 \<Rightarrow>
            (let users2 =
                   AList.map_entry author
                     (\<lambda>u. u\<lparr>totalIssues := totalIssues u + length authorIssues,
                            userRepositories :=
                              AList.map_entry repoKey
                                (\<lambda>r. r\<lparr>userRepoIssues := userRepoIssues r + length authorIssues\<rparr>)
                                (userRepositories u)\<rparr>)
                     users1
             in t\<lparr>shared := c\<lparr>users := users2,
                              repositories := addContributor repoKey author (repositories c)\<rparr>\<rparr>))"

text \<open>
  \<^verbatim>\<open>
  contributions.summary.totalPRs += prs.length;
  contributions.repositories[repoKey].pullRequests = prs.length;
  const mergedPRs = prs.filter(pr => pr.merged_at !== null);
  contributions.summary.prsMerged += mergedPRs.length;
  contributions.repositories[repoKey].prsMerged = mergedPRs.length;
  if (prs.length === 0) { return; }
  for (const pr of prs) { const author = pr.user.login; ... group ... }
  ... the step above for each author ...
  \<close>
  \<^verbatim>\<open>pr.user.login\<close> throws when the author is \<^verbatim>\<open>null\<close>; the grouping loop runs before
  any author is processed, so a pull request without author leaves the users as they
  were and rejects the part.
\<close>

definition processPRs :: "string \<Rightarrow> pull_request list \<Rightarrow> task \<Rightarrow> task" where
  "processPRs repoKey prs t =
     (let c = shared t;
          mergedPRs = filter (\<lambda>pr. merged_at pr \<noteq> None) prs;
          c1 = c\<lparr>summary :=
                   (summary c)\<lparr>summaryTotalPRs := summaryTotalPRs (summary c) + length prs,
                               summaryPrsMerged := summaryPrsMerged (summary c) + length mergedPRs\<rparr>,
                 repositories :=
                   AList.map_entry repoKey
                     (\<lambda>r. r\<lparr>repoPullRequests := length prs, prsMerged := length mergedPRs\<rparr>)
                     (repositories c)\<rparr>
      in if prs = [] then t\<lparr>shared := c1\<rparr>
         else if list_ex (\<lambda>pr. pr_user pr = None) prs then t\<lparr>shared := c1, rejected := True\<rparr>
         else foldl (processAuthorPRs repoKey) (t\<lparr>shared := c1\<rparr>)
                (groupByAuthor (\<lambda>pr. case pr_user pr of Some login \<Rightarrow> login | None \<Rightarrow> []) prs))"

text \<open>
  \<^verbatim>\<open>
  if (issues.length === 0) { return; }
  const actualIssues = issues.filter(issue => !issue.pull_request);
  contributions.summary.totalIssues += actualIssues.length;
  contributions.repositories[repoKey].issues = actualIssues.length;
  const closedIssues = actualIssues.filter(issue => issue.state === 'closed');
  contributions.summary.issuesClosed += closedIssues.length;
  contributions.repositories[repoKey].issuesClosed = closedIssues.length;
  for (const issue of actualIssues) { const author = issue.user.login; ... group ... }
  ... the step above for each author ...
  \<close>
\<close>

definition processIssues :: "string \<Rightarrow> issue list \<Rightarrow> task \<Rightarrow> task" where
  "processIssues repoKey fetchedIssues t =
     (if fetchedIssues = [] then t
      else
        (let c = shared t;
             actualIssues = filter (\<lambda>i. \<not> is_pull_request i) fetchedIssues;
             closedIssues = filter (\<lambda>i. issue_state i = ''closed'') actualIssues;
             c1 = c\<lparr>summary :=
                      (summary c)\<lparr>summaryTotalIssues :=
                                    summaryTotalIssues (summary c) + length actualIssues,
                                  summaryIssuesClosed :=
                                    summaryIssuesClosed (summary c) + length closedIssues\<rparr>,
                    repositories :=
                      AList.map_entry repoKey
                        (\<lambda>r. r\<lparr>repoIssues := length actualIssues,
                               issuesClosed := length closedIssues\<rparr>)
                        (repositories c)\<rparr>
         in if list_ex (\<lambda>i. issue_user i = None) actualIssues
            then t\<lparr>shared := c1, rejected := True\<rparr>
            else foldl (processAuthorIssues repoKey) (t\<lparr>shared := c1\<rparr>)
                   (groupByAuthor (\<lambda>i. case issue_user i of Some login \<Rightarrow> login | None \<Rightarrow> [])
                      actualIssues)))"

text \<open>
  A configured repository \<^verbatim>\<open>{owner, repo}\<close> and its key \<^verbatim>\<open>`${owner}/${repo}`\<close>.
\<close>

record repo_ref =
  repo_owner :: string
  repo_name :: string

definition repoKeyOf :: "repo_ref \<Rightarrow> string" where
  "repoKeyOf r = repo_owner r @ ''/'' @ repo_name r"

text \<open>
  What the three fetches of one repository resolve to (\<^verbatim>\<open>fetchCommitsForRepo\<close>,
  \<^verbatim>\<open>getPullRequests\<close>, \<^verbatim>\<open>getIssues\<close>; none of them throws).
\<close>

record fetched =
  fetchedCommits :: "commit list"
  fetchedPRs :: "pull_request list"
  fetchedIssues :: "issue list"

definition newRepoStats :: repo_stats where
  "newRepoStats =
     \<lparr>repoCommits = 0, repoPullRequests = 0, repoIssues = 0, prsMerged = 0, issuesClosed = 0,
      repoLinesAdded = 0, repoLinesDeleted = 0, repoLinesModified = 0, contributors = []\<rparr>"

text \<open>
  The task of one repository begins, before its first \<^verbatim>\<open>await\<close>, with
  \<^verbatim>\<open>contributions.repositories[repoKey] = { commits: 0, ... contributors: [] }\<close>.
\<close>

definition initRepository :: "contributions \<Rightarrow> repo_ref \<Rightarrow> contributions" where
  "initRepository c r =
     c\<lparr>repositories := AList.update (repoKeyOf r) newRepoStats (repositories c)\<rparr>"

text \<open>
  After the fetches,
  \<^verbatim>\<open>
  await Promise.all([ (async () => { ...commits... })(), (async () => { ...pull requests... })(),
                      (async () => { ...issues... })() ]);
  \<close>
  starts the three parts one after another, each up to its first \<^verbatim>\<open>await\<close>: the
  counts and the steps of the authors of all three parts are done when the task waits.
  What is then outstanding are the requested commit details. When no promise has been
  rejected the task awaits them all. When one has, \<^verbatim>\<open>Promise.all\<close> rejects, the
  \<^verbatim>\<open>catch\<close> around the repository logs the error and the task ends, while the
  requests stay in flight and their updates are made whenever the responses arrive.
  \<open>landing\<close> says for the repository key and the commit when that is: before anything
  else is done to the entry of the repository, or later but before the scores are
  computed, or after the report has been returned, so that the report as returned does
  not have the update.

  The source runs the repositories of one chunk as concurrent tasks on one thread;
  every update is an addition or touches only the entry of the repository itself, and
  the model runs the tasks one after another. The second component of the state holds
  the updates still in flight: repository key, author and commit.
\<close>

datatype landing = LandsAtOnce | LandsBeforeScores | LandsAfterReturn

type_synonym in_flight = "string \<times> string \<times> commit"

definition startRepository ::
  "(repo_ref \<Rightarrow> fetched) \<Rightarrow> contributions \<Rightarrow> repo_ref \<Rightarrow> task" where
  "startRepository fetchRepo c r =
     processIssues (repoKeyOf r) (fetchedIssues (fetchRepo r))
       (processPRs (repoKeyOf r) (fetchedPRs (fetchRepo r))
          (processCommits (repoKeyOf r) (fetchedCommits (fetchRepo r))
             \<lparr>shared = c, rejected = False, requested = []\<rparr>))"

definition processRepository ::
  "(string \<Rightarrow> string \<Rightarrow> (nat \<times> nat) list option) \<Rightarrow> (string \<Rightarrow> string \<Rightarrow> landing)
     \<Rightarrow> (repo_ref \<Rightarrow> fetched) \<Rightarrow> contributions \<times> in_flight list \<Rightarrow> repo_ref
     \<Rightarrow> contributions \<times> in_flight list" where
  "processRepository commitFiles landsWhen fetchRepo progress r =
     (let repoKey = repoKeyOf r;
          t = startRepository fetchRepo (fst progress) r
      in if rejected t
         then (foldl (analyzeCommit commitFiles repoKey) (shared t)
                 (filter (\<lambda>analyzed. landsWhen repoKey (sha (snd analyzed)) = LandsAtOnce)
                    (requested t)),
               snd progress @
                 map (Pair repoKey)
                   (filter (\<lambda>analyzed. landsWhen repoKey (sha (snd analyzed)) \<noteq> LandsAtOnce)
                      (requested t)))
         else (foldl (analyzeCommit commitFiles repoKey) (shared t) (requested t), snd progress))"

text \<open>
  One chunk: every task of the chunk runs up to its first \<^verbatim>\<open>await\<close> when
  \<^verbatim>\<open>repoChunk.map\<close> starts it, so all entries of the chunk are initialized before any
  repository of the chunk is processed.
\<close>

definition processChunk ::
  "(string \<Rightarrow> string \<Rightarrow> (nat \<times> nat) list option) \<Rightarrow> (string \<Rightarrow> string \<Rightarrow> landing)
     \<Rightarrow> (repo_ref \<Rightarrow> fetched) \<Rightarrow> contributions \<times> in_flight list \<Rightarrow> repo_ref list
     \<Rightarrow> contributions \<times> in_flight list" where
  "processChunk commitFiles landsWhen fetchRepo progress repoChunk =
     foldl (processRepository commitFiles landsWhen fetchRepo)
       (foldl initRepository (fst progress) repoChunk, snd progress) repoChunk"

text \<open>
  The updates in flight that arrive after the last chunk and before the scores are
  computed.
\<close>

definition landBeforeScores ::
  "(string \<Rightarrow> string \<Rightarrow> (nat \<times> nat) list option) \<Rightarrow> (string \<Rightarrow> string \<Rightarrow> landing)
     \<Rightarrow> contributions \<times> in_flight list \<Rightarrow> contributions" where
  "landBeforeScores commitFiles landsWhen progress =
     foldl (\<lambda>c pending. analyzeCommit commitFiles (fst pending) c (snd pending)) (fst progress)
       (filter (\<lambda>pending. landsWhen (fst pending) (sha (snd (snd pending))) = LandsBeforeScores)
          (snd progress))"

subsection \<open>Detailed content\<close>

text \<open>
  \<^verbatim>\<open>fetchDetailedContent(owner, repo, contributions)\<close> writes nothing but the
  \<^verbatim>\<open>codeContent\<close> of users that exist. For a repository with contributors it takes
  all of them, or with more than ten the ten with most commits in the repository; a
  user gets an empty \<^verbatim>\<open>codeContent\<close> if there is none yet, and a user with activity in
  the repository gets the details appended that the three detail fetches bring, which
  \<open>details\<close> gives for the repository key and the user name. The function catches
  every error. The user names are those of the \<^verbatim>\<open>contributors\<close> of the repository,
  which are pushed only by a step that has found or created the user, so each of them
  is a property of \<^verbatim>\<open>users\<close> itself.
\<close>

definition emptyCodeContent :: code_content where
  "emptyCodeContent = \<lparr>commitDetails = [], prDetails = [], issueDetails = []\<rparr>"

definition detailUser :: "(string \<Rightarrow> string \<Rightarrow> code_content) \<Rightarrow> string \<Rightarrow> contributions \<Rightarrow> string \<Rightarrow> contributions" where
  "detailUser details repoKey c username =
     c\<lparr>users :=
         AList.map_entry username
           (\<lambda>user.
              (let content = (case codeContent user of None \<Rightarrow> emptyCodeContent | Some cc \<Rightarrow> cc);
                   user1 = user\<lparr>codeContent := Some content\<rparr>
               in case map_of (userRepositories user) repoKey of
                    None \<Rightarrow> user1
                  | Some repoStats \<Rightarrow>
                      if userRepoCommits repoStats \<le> 0 \<and> userRepoPullRequests repoStats \<le> 0
                         \<and> userRepoIssues repoStats \<le> 0
                      then user1
                      else user1\<lparr>codeContent := Some
                             \<lparr>commitDetails =
                                commitDetails content @
                                  (if userRepoCommits repoStats \<le> 0 then []
                                   else commitDetails (details repoKey username)),
                              prDetails =
                                prDetails content @
                                  (if userRepoPullRequests repoStats \<le> 0 then []
                                   else prDetails (details repoKey username)),
                              issueDetails =
                                issueDetails content @
                                  (if userRepoIssues repoStats \<le> 0 then []
                                   else issueDetails (details repoKey username))\<rparr>\<rparr>))
           (users c)\<rparr>"

definition userCommitsIn :: "contributions \<Rightarrow> string \<Rightarrow> string \<Rightarrow> nat" where
  "userCommitsIn c repoKey username =
     (case map_of (users c) username of
        None \<Rightarrow> 0
      | Some u \<Rightarrow>
         (case map_of (userRepositories u) repoKey of
            None \<Rightarrow> 0
          | Some repoStats \<Rightarrow> userRepoCommits repoStats))"

definition fetchDetailedContent ::
  "(string \<Rightarrow> string \<Rightarrow> code_content) \<Rightarrow> contributions \<Rightarrow> repo_ref \<Rightarrow> contributions" where
  "fetchDetailedContent details c r =
     (let repoKey = repoKeyOf r;
          repoContributors =
            (case map_of (repositories c) repoKey of None \<Rightarrow> [] | Some rs \<Rightarrow> contributors rs)
      in if repoContributors = [] then c
         else
           (let processedContributors =
                  (if length repoContributors > 10
                   then take 10 (map fst
                          (js_sort (\<lambda>a b. int (snd b) - int (snd a))
                             (map (\<lambda>username. (username, userCommitsIn c repoKey username))
                                repoContributors)))
                   else repoContributors)
            in foldl (detailUser details repoKey) c processedContributors))"

subsection \<open>Scores\<close>

text \<open>
  \<^verbatim>\<open>
  user.activityScore = (user.totalCommits * 3) + (user.totalPRs * 5) + (user.totalIssues * 1);
  user.effortGrade = calculateEffortGrade(user.linesModified, user.activityScore);
  \<close>
\<close>

definition scoreUser :: "user_stats \<Rightarrow> user_stats" where
  "scoreUser user =
     (let score = totalCommits user * 3 + totalPRs user * 5 + totalIssues user * 1
      in user\<lparr>activityScore := score,
              effortGrade := calculateEffortGrade (int (linesModified user)) (int score)\<rparr>)"

definition scoreUsers :: "contributions \<Rightarrow> contributions" where
  "scoreUsers c = c\<lparr>users := map (\<lambda>entry. (fst entry, scoreUser (snd entry))) (users c)\<rparr>"

subsection \<open>The analysis by the text-generation service\<close>

text \<open>
  What a request to the service comes back with: the request fails, the body of the
  response has not the shape \<^verbatim>\<open>response.data.content[0].text\<close>, or it has a text.
\<close>

datatype ai_reply = AiNetworkError | AiMalformedBody | AiText string

text \<open>
  \<^verbatim>\<open>content.match(/\{[\s\S]*\}/)\<close>: from the first opening brace to the last closing
  brace after it; \<open>None\<close> when there is no such pair.
\<close>

definition matchBraces :: "string \<Rightarrow> string option" where
  "matchBraces content =
     (let fromOpen = dropWhile (\<lambda>c. c \<noteq> CHR ''{'') content;
          toClose = rev (dropWhile (\<lambda>c. c \<noteq> CHR ''}'') (rev fromOpen))
      in if toClose = [] then None else Some toClose)"

text \<open>
  \<^verbatim>\<open>
  const content = response.data.content[0].text;
  const jsonMatch = content.match(/\{[\s\S]*\}/);
  if (jsonMatch) { return JSON.parse(jsonMatch[0]); } else { return null; }
  \<close>
  inside a \<^verbatim>\<open>try\<close> whose \<^verbatim>\<open>catch\<close> returns \<^verbatim>\<open>null\<close>.
\<close>

definition extractAnalysis :: "(string \<Rightarrow> json option) \<Rightarrow> ai_reply \<Rightarrow> json option" where
  "extractAnalysis JSON_parse reply =
     (case reply of
        AiNetworkError \<Rightarrow> None
      | AiMalformedBody \<Rightarrow> None
      | AiText content \<Rightarrow>
         (case matchBraces content of None \<Rightarrow> None | Some jsonMatch \<Rightarrow> JSON_parse jsonMatch))"

definition noContributionsAnalysis :: json where
  "noContributionsAnalysis =
     JObj [(''summary'',
            JStr ''No significant contributions found in the analyzed repositories during this period.''),
           (''contributors'', JObj [])]"

text \<open>
  The contributors a prompt describes: the five users with the highest activity
  score (\<^verbatim>\<open>.sort((a, b) => b.activityScore - a.activityScore).slice(0, 5)\<close>).
\<close>

definition topContributors :: "(string \<times> user_stats) list \<Rightarrow> (string \<times> user_stats) list" where
  "topContributors usersObj =
     take 5 (js_sort (\<lambda>a b. int (activityScore (snd b)) - int (activityScore (snd a))) usersObj)"

definition apiKeyMissing :: "environ \<Rightarrow> bool" where
  "apiKeyMissing env = (case env ''ANTHROPIC_API_KEY'' of None \<Rightarrow> True | Some k \<Rightarrow> k = [])"

text \<open>
  \<^verbatim>\<open>generateDetailedAIAnalysis(contributionData)\<close> and \<^verbatim>\<open>generateAIAnalysis(contributionData)\<close>
  differ in the prompt they build. Each returns its result (\<open>None\<close> is \<^verbatim>\<open>null\<close>) and
  the number of requests it has sent to the service; \<open>reply\<close> is what its request
  comes back with, if it sends one.
  \<^verbatim>\<open>
  try {
    const contributors = Object.entries(contributionData.users).map(...).sort(...).slice(0, 5);
    if (contributors.length === 0) {
      return { summary: "No significant contributions found ...", contributors: {} };
    }
    const ANTHROPIC_API_KEY = process.env.ANTHROPIC_API_KEY;
    if (!ANTHROPIC_API_KEY) { return null; }
    const prompt = `...`;
    try {
      const response = await axios.post('https://api.anthropic.com/v1/messages',
        { model: ..., max_tokens: ..., messages: [{ role: "user", content: promp }], ... },
        { headers: { 'x-api-key': ANTHROPIC_API_KEY, ... } });
      ... extraction ...
    } catch (error) { return null; }
  } catch (error) { return null; }
  \<close>
  The argument of the request reads the name \<^verbatim>\<open>promp\<close>. The function binds the text
  to \<^verbatim>\<open>prompt\<close>, and nothing in the file binds \<^verbatim>\<open>promp\<close>: the read throws a
  ReferenceError while the arguments are evaluated, before \<^verbatim>\<open>axios.post\<close> is called,
  and the inner \<^verbatim>\<open>catch\<close> returns \<^verbatim>\<open>null\<close>. The scope below holds the bindings of
  the function body at that point; as before, a value that is never read is \<open>None\<close>.
\<close>

definition analysisScope :: "string \<Rightarrow> scope" where
  "analysisScope apiKey =
     [''contributionData'' \<mapsto> None, ''contributors'' \<mapsto> None,
      ''ANTHROPIC_API_KEY'' \<mapsto> Some apiKey, ''prompt'' \<mapsto> None]"

definition requestAnalysis ::
  "scope \<Rightarrow> (string \<Rightarrow> json option) \<Rightarrow> ai_reply \<Rightarrow> json option \<times> nat" where
  "requestAnalysis sc JSON_parse reply =
     (case read_name sc ''promp'' of
        Inl error \<Rightarrow> (None, 0)
      | Inr content \<Rightarrow> (extractAnalysis JSON_parse reply, 1))"

definition generateDetailedAIAnalysis ::
  "environ \<Rightarrow> (string \<Rightarrow> json option) \<Rightarrow> ai_reply \<Rightarrow> (string \<times> user_stats) list \<Rightarrow> json option \<times> nat" where
  "generateDetailedAIAnalysis env JSON_parse reply usersObj =
     (if topContributors usersObj = [] then (Some noContributionsAnalysis, 0)
      else (case env ''ANTHROPIC_API_KEY'' of
              None \<Rightarrow> (None, 0)
            | Some apiKey \<Rightarrow>
                if apiKey = [] then (None, 0)
                else requestAnalysis (analysisScope apiKey) JSON_parse reply))"

definition generateAIAnalysis ::
  "environ \<Rightarrow> (string \<Rightarrow> json option) \<Rightarrow> ai_reply \<Rightarrow> (string \<times> user_stats) list \<Rightarrow> json option \<times> nat" where
  "generateAIAnalysis env JSON_parse reply usersObj =
     (if topContributors usersObj = [] then (Some noContributionsAnalysis, 0)
      else (case env ''ANTHROPIC_API_KEY'' of
              None \<Rightarrow> (None, 0)
            | Some apiKey \<Rightarrow>
                if apiKey = [] then (None, 0)
                else requestAnalysis (analysisScope apiKey) JSON_parse reply))"

text \<open>
  The decimal text of an index, and the members a \<^verbatim>\<open>for (const key in v)\<close> loop walks
  through: the members of an object, the indices of an array or of a string, nothing
  for any other value.
\<close>

function string_of_nat :: "nat \<Rightarrow> string" where
  "string_of_nat n =
     (if n < 10 then [char_of (48 + n)]
      else string_of_nat (n div 10) @ [char_of (48 + n mod 10)])"
  by pat_completeness auto
termination
  by (relation "measure id") auto

declare string_of_nat.simps [simp del]

definition forInEntries :: "json \<Rightarrow> (string \<times> json) list" where
  "forInEntries v =
     (case v of
        JObj kvs \<Rightarrow> kvs
      | JArr xs \<Rightarrow> zip (map string_of_nat [0..<length xs]) xs
      | JStr s \<Rightarrow> zip (map string_of_nat [0..<length s]) (map (\<lambda>c. JStr [c]) s)
      | _ \<Rightarrow> [])"

text \<open>
  The number a value is compared as in \<^verbatim>\<open>score >= 9.5\<close>. For a string, an array or an
  object the runtime converts through text; that conversion is the parameter
  \<open>toNumber\<close>. \<open>None\<close> is \<^verbatim>\<open>NaN\<close>.
\<close>

definition js_number :: "(json \<Rightarrow> rat option) \<Rightarrow> json \<Rightarrow> rat option" where
  "js_number toNumber v =
     (case v of
        JNum n \<Rightarrow> Some n
      | JBool b \<Rightarrow> Some (if b then 1 else 0)
      | JNull \<Rightarrow> Some 0
      | _ \<Rightarrow> toNumber v)"

text \<open>
  \<^verbatim>\<open>
  for (const username in aiAnalysis.contributors) {
    if (contributions.users[username] && aiAnalysis.contributors[username].codeQualityScore) {
      const codeQualityScore = aiAnalysis.contributors[username].codeQualityScore;
      contributions.users[username].codeQualityGrade = convertScoreToGrade(codeQualityScore);
    }
  }
  \<close>
  Reading \<^verbatim>\<open>codeQualityScore\<close> of an entry that is \<^verbatim>\<open>null\<close> throws, and nothing in
  \<^verbatim>\<open>generateContributionReport\<close> catches it. For a member whose name objects
  inherit, \<^verbatim>\<open>contributions.users[username]\<close> is the inherited value, and the grade is
  written to that value, not to the report.
\<close>

fun assignQualityGrades ::
  "(json \<Rightarrow> rat option) \<Rightarrow> (string \<times> json) list \<Rightarrow> (string \<times> user_stats) list
     \<Rightarrow> js_error + (string \<times> user_stats) list" where
  "assignQualityGrades toNumber [] usersObj = Inr usersObj"
| "assignQualityGrades toNumber ((username, entry) # rest) usersObj =
     (case js_get usersObj username of
        Missing \<Rightarrow> assignQualityGrades toNumber rest usersObj
      | Inherited \<Rightarrow>
         (case get_member entry ''codeQualityScore'' of
            Inl e \<Rightarrow> Inl e
          | Inr codeQualityScore \<Rightarrow> assignQualityGrades toNumber rest usersObj)
      | Own u \<Rightarrow>
         (case get_member entry ''codeQualityScore'' of
            Inl e \<Rightarrow> Inl e
          | Inr codeQualityScore \<Rightarrow>
              if truthy codeQualityScore
              then assignQualityGrades toNumber rest
                     (AList.map_entry username
                        (\<lambda>u. u\<lparr>codeQualityGrade :=
                                 convertScoreToGrade
                                   (case codeQualityScore of
                                      None \<Rightarrow> None
                                    | Some v \<Rightarrow> js_number toNumber v)\<rparr>)
                        usersObj)
              else assignQualityGrades toNumber rest usersObj))"

subsection \<open>The report\<close>

text \<open>How a call ends: with a result, with an error thrown, or not at all.\<close>

datatype 'a outcome = Returns 'a | Throws js_error | Diverges

text \<open>
  Everything a run of \<^verbatim>\<open>generateContributionReport\<close> reads from outside: the process
  environment, the configured repositories \<^verbatim>\<open>REPOS\<close>, the start and end of the window
  as text, what the fetches of each repository resolve to, the files of each analyzed
  commit, when the update of a commit lands that is in flight after the task of its
  repository has ended, the details of each user in each repository, the runtime's
  \<^verbatim>\<open>JSON.parse\<close> and number conversion, and what the request of the detailed analysis
  and the request of the basic analysis come back with, if they are sent.
\<close>

record pipeline =
  processEnv :: environ
  REPOS :: "repo_ref list"
  window :: "string \<times> string"
  fetchedFor :: "repo_ref \<Rightarrow> fetched"
  commitFilesOf :: "string \<Rightarrow> string \<Rightarrow> (nat \<times> nat) list option"
  landsWhenOf :: "string \<Rightarrow> string \<Rightarrow> landing"
  detailsFor :: "string \<Rightarrow> string \<Rightarrow> code_content"
  jsonParse :: "string \<Rightarrow> json option"
  toNumber :: "json \<Rightarrow> rat option"
  detailedReply :: ai_reply
  basicReply :: ai_reply

definition initialContributions :: "pipeline \<Rightarrow> contributions" where
  "initialContributions p =
     \<lparr>summary =
        \<lparr>summaryTotalCommits = 0, summaryTotalPRs = 0, summaryTotalIssues = 0,
         totalLinesAdded = 0, totalLinesDeleted = 0, totalLinesModified = 0,
         summaryPrsMerged = 0, summaryIssuesClosed = 0,
         summaryRepositories = map repoKeyOf (REPOS p),
         reportPeriod = window p\<rparr>,
      users = [], repositories = [], aiAnalysis = None\<rparr>"

text \<open>
  \<^verbatim>\<open>
  const priorityRepos = REPOS.sort((a, b) => {
    const primaryRepos = ['arch-network'];
    const aIndex = primaryRepos.indexOf(a.repo);
    const bIndex = primaryRepos.indexOf(b.repo);
    if (aIndex !== -1 && bIndex !== -1) return aIndex - bIndex;
    if (aIndex !== -1) return -1;
    if (bIndex !== -1) return 1;
    return 0;
  });
  \<close>
\<close>

definition compareRepos :: "repo_ref \<Rightarrow> repo_ref \<Rightarrow> int" where
  "compareRepos a b =
     (case (findIndex (\<lambda>name. name = repo_name a) [''arch-network''],
            findIndex (\<lambda>name. name = repo_name b) [''arch-network'']) of
        (Some aIndex, Some bIndex) \<Rightarrow> int aIndex - int bIndex
      | (Some aIndex, None) \<Rightarrow> - 1
      | (None, Some bIndex) \<Rightarrow> 1
      | (None, None) \<Rightarrow> 0)"

definition priorityRepos :: "pipeline \<Rightarrow> repo_ref list" where
  "priorityRepos p = js_sort compareRepos (REPOS p)"

text \<open>
  \<^verbatim>\<open>
  let reposToProcess = priorityRepos;
  if (isMemoryOptimized) {
    const maxRepos = parseInt(process.env.MAX_REPOS || '3', 10);
    reposToProcess = priorityRepos.slice(0, maxRepos);
  }
  const concurrencyLimit = isMemoryOptimized ? 2 : 5;
  \<close>
\<close>

definition reposToProcess :: "pipeline \<Rightarrow> repo_ref list" where
  "reposToProcess p =
     (if isMemoryOptimized (processEnv p)
      then slice_to (priorityRepos p)
             (parseInt10 (case processEnv p ''MAX_REPOS'' of
                            None \<Rightarrow> ''3''
                          | Some text \<Rightarrow> if text = [] then ''3'' else text))
      else priorityRepos p)"

definition repoConcurrencyLimit :: "pipeline \<Rightarrow> nat" where
  "repoConcurrencyLimit p = (if isMemoryOptimized (processEnv p) then 2 else 5)"

text \<open>
  The loop over the chunks of repositories; \<open>None\<close> when the chunking does not return.
  The result is the contribution data after the last chunk, with the updates that are
  in flight then.
\<close>

definition collectRepositories :: "pipeline \<Rightarrow> (contributions \<times> in_flight list) option" where
  "collectRepositories p =
     (case chunkArray (reposToProcess p) (repoConcurrencyLimit p) of
        None \<Rightarrow> None
      | Some repoChunks \<Rightarrow>
          Some (foldl (processChunk (commitFilesOf p) (landsWhenOf p) (fetchedFor p))
                  (initialContributions p, []) repoChunks))"

text \<open>
  \<^verbatim>\<open>
  if (process.env.SKIP_DETAILED_CONTENT !== 'true') {
    await Promise.all(REPOS.map(async ({ owner, repo }) => {
      await fetchDetailedContent(owner, repo, contributions);
    }));
  }
  \<close>
  \<^verbatim>\<open>REPOS\<close> is in priority order by now: \<^verbatim>\<open>sort\<close> has sorted it in place.
\<close>

definition detailedStage :: "pipeline \<Rightarrow> contributions \<Rightarrow> contributions" where
  "detailedStage p c =
     (if processEnv p ''SKIP_DETAILED_CONTENT'' \<noteq> Some ''true''
      then foldl (fetchDetailedContent (detailsFor p)) c (priorityRepos p)
      else c)"

text \<open>
  The contribution data when the analysis stage is reached. Between the scores and the
  \<^verbatim>\<open>return\<close> the function waits for nothing but the two analysis functions, which
  never get to send a request, so no update in flight lands there.
\<close>

definition beforeAnalysis :: "pipeline \<Rightarrow> contributions option" where
  "beforeAnalysis p =
     (case collectRepositories p of
        None \<Rightarrow> None
      | Some progress \<Rightarrow>
          Some (scoreUsers
                  (detailedStage p (landBeforeScores (commitFilesOf p) (landsWhenOf p) progress))))"

text \<open>
  \<^verbatim>\<open>
  if (process.env.SKIP_AI_ANALYSIS !== 'true') {
    const aiAnalysis = await generateDetailedAIAnalysis(contributions);
    if (aiAnalysis) {
      contributions.aiAnalysis = aiAnalysis;
      if (aiAnalysis.contributors) { ... the loop over its members ... }
    } else {
      const basicAnalysis = await generateAIAnalysis(contributions);
      if (basicAnalysis) { contributions.aiAnalysis = basicAnalysis; }
    }
  }
  return contributions;
  \<close>
\<close>

definition basicFallback :: "pipeline \<Rightarrow> contributions \<Rightarrow> contributions outcome" where
  "basicFallback p c =
     (let basicAnalysis =
            fst (generateAIAnalysis (processEnv p) (jsonParse p) (basicReply p) (users c))
      in if truthy basicAnalysis then Returns (c\<lparr>aiAnalysis := basicAnalysis\<rparr>) else Returns c)"

definition analysisStage :: "pipeline \<Rightarrow> contributions \<Rightarrow> contributions outcome" where
  "analysisStage p c =
     (if processEnv p ''SKIP_AI_ANALYSIS'' \<noteq> Some ''true''
      then (case fst (generateDetailedAIAnalysis (processEnv p) (jsonParse p) (detailedReply p)
                        (users c)) of
              None \<Rightarrow> basicFallback p c
            | Some analysis \<Rightarrow>
                if truthy (Some analysis)
                then (case get_member analysis ''contributors'' of
                        Inl e \<Rightarrow> Throws e
                      | Inr analysed \<Rightarrow>
                          (case analysed of
                             None \<Rightarrow> Returns (c\<lparr>aiAnalysis := Some analysis\<rparr>)
                           | Some members \<Rightarrow>
                               if truthy analysed
                               then (case assignQualityGrades (toNumber p) (forInEntries members)
                                            (users c) of
                                       Inl e \<Rightarrow> Throws e
                                     | Inr graded \<Rightarrow>
                                         Returns (c\<lparr>aiAnalysis := Some analysis, users := graded\<rparr>))
                               else Returns (c\<lparr>aiAnalysis := Some analysis\<rparr>)))
                else basicFallback p c)
      else Returns c)"

definition generateContributionReport :: "pipeline \<Rightarrow> contributions outcome" where
  "generateContributionReport p =
     (case beforeAnalysis p of
        None \<Rightarrow> Diverges
      | Some c \<Rightarrow> analysisStage p c)"

text \<open>
  Sample runs: two configured repositories \<^verbatim>\<open>o/a\<close> and \<^verbatim>\<open>o/b\<close>; alice has one commit
  and one pull request in \<^verbatim>\<open>o/a\<close>, and \<^verbatim>\<open>o/b\<close> has no activity. Both optional stages
  are skipped. In the second run the configuration lists \<^verbatim>\<open>o/a\<close> twice.
\<close>

definition repoA :: repo_ref where
  "repoA = \<lparr>repo_owner = ''o'', repo_name = ''a''\<rparr>"

definition repoB :: repo_ref where
  "repoB = \<lparr>repo_owner = ''o'', repo_name = ''b''\<rparr>"

definition sampleFetched :: "repo_ref \<Rightarrow> fetched" where
  "sampleFetched r =
     (if repo_name r = ''a''
      then \<lparr>fetchedCommits = [sampleCommit ''s1''], fetchedPRs = [samplePull], fetchedIssues = []\<rparr>
      else \<lparr>fetchedCommits = [], fetchedPRs = [], fetchedIssues = []\<rparr>)"

definition samplePipeline :: "repo_ref list \<Rightarrow> pipeline" where
  "samplePipeline configured =
     \<lparr>processEnv = [''SKIP_DETAILED_CONTENT'' \<mapsto> ''true'', ''SKIP_AI_ANALYSIS'' \<mapsto> ''true''],
      REPOS = configured,
      window = (''2024-01-01T00:00:00.000Z'', ''2024-01-08T00:00:00.000Z''),
      fetchedFor = sampleFetched,
      commitFilesOf = (\<lambda>repoKey commitSha. Some [(3, 1)]),
      landsWhenOf = (\<lambda>repoKey commitSha. LandsAtOnce),
      detailsFor = (\<lambda>repoKey username. emptyCodeContent),
      jsonParse = sampleParse,
      toNumber = (\<lambda>v. None),
      detailedReply = AiNetworkError,
      basicReply = AiNetworkError\<rparr>"

text \<open>
  A run on the repository \<^verbatim>\<open>o/a\<close> alone in which the first commit is by an author
  named \<^verbatim>\<open>constructor\<close> and the second by alice; \<open>lands\<close> says when the update of a
  commit in flight lands.
\<close>

definition rejectingFetched :: "repo_ref \<Rightarrow> fetched" where
  "rejectingFetched r =
     \<lparr>fetchedCommits =
        [\<lparr>sha = ''s0'', author_login = Some ''constructor'', commit_author_name = None\<rparr>,
         sampleCommit ''s1''],
      fetchedPRs = [samplePull], fetchedIssues = []\<rparr>"

definition rejectingPipeline :: "landing \<Rightarrow> pipeline" where
  "rejectingPipeline lands =
     (samplePipeline [repoA])
       \<lparr>fetchedFor := rejectingFetched, landsWhenOf := (\<lambda>repoKey commitSha. lands)\<rparr>"

subsection \<open>What the summary and the repository entries count\<close>

text \<open>
  The sum over all keys of \<^verbatim>\<open>repositories\<close> of one count of the entry.
\<close>

definition totalOver :: "(repo_stats \<Rightarrow> nat) \<Rightarrow> contributions \<Rightarrow> nat" where
  "totalOver count c = sum_list (map (\<lambda>entry. count (snd entry)) (repositories c))"

text \<open>
  The commit count and the pull request count of every repository entry, and the two
  totals of the summary: the part of the contribution data that the completeness
  invariant speaks about.
\<close>

definition repoCounts :: "contributions \<Rightarrow> (string \<times> nat \<times> nat) list" where
  "repoCounts c =
     map (\<lambda>entry. (fst entry, repoCommits (snd entry), repoPullRequests (snd entry)))
       (repositories c)"

definition summaryCounts :: "contributions \<Rightarrow> nat \<times> nat" where
  "summaryCounts c = (summaryTotalCommits (summary c), summaryTotalPRs (summary c))"

text \<open>
  The invariant while repositories are folded in: keys are unique, the two totals of
  the summary are the sums over the entries, and a repository that is still to be
  processed has no entry yet or an entry with both counts zero.
\<close>

definition countsAgree :: "(nat \<times> nat) \<Rightarrow> (string \<times> nat \<times> nat) list \<Rightarrow> bool" where
  "countsAgree totals counts =
     (distinct (map fst counts)
      \<and> fst totals = sum_list (map (\<lambda>e. fst (snd e)) counts)
      \<and> snd totals = sum_list (map (\<lambda>e. snd (snd e)) counts))"

definition pendingZero :: "string list \<Rightarrow> (string \<times> nat \<times> nat) list \<Rightarrow> bool" where
  "pendingZero pending counts =
     list_all (\<lambda>k. map_of counts k = None \<or> map_of counts k = Some (0, 0)) pending"

text \<open>The report of the first sample run.\<close>

definition sampleReport :: contributions where
  "sampleReport =
     \<lparr>summary =
        \<lparr>summaryTotalCommits = 1, summaryTotalPRs = 1, summaryTotalIssues = 0,
         totalLinesAdded = 3, totalLinesDeleted = 1, totalLinesModified = 4,
         summaryPrsMerged = 0, summaryIssuesClosed = 0,
         summaryRepositories = [''o/a'', ''o/b''],
         reportPeriod = (''2024-01-01T00:00:00.000Z'', ''2024-01-08T00:00:00.000Z'')\<rparr>,
      users =
        [(''alice'',
          \<lparr>totalCommits = 1, totalPRs = 1, totalIssues = 0, linesAdded = 3, linesDeleted = 1,
           linesModified = 4, activityScore = 8, codeQualityGrade = ''N/A'', effortGrade = ''C+'',
           userRepositories =
             [(''o/a'',
               \<lparr>userRepoCommits = 1, userRepoPullRequests = 1, userRepoIssues = 0,
                userRepoLinesAdded = 3, userRepoLinesDeleted = 1, userRepoLinesModified = 4\<rparr>)],
           codeContent = None\<rparr>)],
      repositories =
        [(''o/a'',
          \<lparr>repoCommits = 1, repoPullRequests = 1, repoIssues = 0, prsMerged = 0,
           issuesClosed = 0, repoLinesAdded = 3, repoLinesDeleted = 1, repoLinesModified = 4,
           contributors = [''alice'']\<rparr>),
         (''o/b'',
          \<lparr>repoCommits = 0, repoPullRequests = 0, repoIssues = 0, prsMerged = 0,
           issuesClosed = 0, repoLinesAdded = 0, repoLinesDeleted = 0, repoLinesModified = 0,
           contributors = []\<rparr>)],
      aiAnalysis = None\<rparr>"

text \<open>
  The analysis stage fails on the contribution data \<open>c\<close>: \<^verbatim>\<open>generateDetailedAIAnalysis\<close>
  returns \<^verbatim>\<open>null\<close>, as it does when the API key is missing and on every error that it
  catches.
\<close>

definition analysisFails :: "pipeline \<Rightarrow> contributions \<Rightarrow> bool" where
  "analysisFails p c =
     (fst (generateDetailedAIAnalysis (processEnv p) (jsonParse p) (detailedReply p) (users c))
        = None)"




text \<open>
  A run in which no repository is configured, so that no user is recorded; neither the
  API key nor a flag is set.
\<close>

definition emptyPipeline :: pipeline where
  "emptyPipeline = (samplePipeline [])\<lparr>processEnv := Map.empty\<rparr>"


subsection \<open>Properties of the scoring engine\<close>


lemma calculateEffortGrade_bands: "calculateEffortGrade l a = firstBand effortBands l a"
  by (simp add: calculateEffortGrade_def effortBands_def)

lemma calculateEffortGrade_nth: "calculateEffortGrade l a = effortGrades ! effortBandIndex l a"
  by (simp add: calculateEffortGrade_def effortGrades_def effortBandIndex_def)

lemma effortBandIndex_le: "effortBandIndex l a \<le> 9"
  by (simp add: effortBandIndex_def)

lemma effortRank_nth: "i \<le> 9 \<Longrightarrow> effortRank (effortGrades ! i) = i"
proof -
  assume "i \<le> 9"
  then have "i \<in> {0, 1, 2, 3, 4, 5, 6, 7, 8, 9}" by auto
  then show ?thesis
    by (auto simp: effortRank_def effortGrades_def)
qed

lemma effortRank_grade: "effortRank (calculateEffortGrade l a) = effortBandIndex l a"
  by (simp add: calculateEffortGrade_nth effortRank_nth effortBandIndex_le)

lemma effortBandIndex_mono:
  "l \<le> l' \<Longrightarrow> a \<le> a' \<Longrightarrow> effortBandIndex l' a' \<le> effortBandIndex l a"
  unfolding effortBandIndex_def by (simp split: if_splits)

lemma nth_effortGrades: "i \<le> 9 \<Longrightarrow> effortGrades ! i \<in> set effortGrades"
  by (rule nth_mem) (simp add: effortGrades_def)

lemma effortGradeRange_eq: "effortGradeRange = set effortGrades"
proof
  show "effortGradeRange \<subseteq> set effortGrades"
    unfolding effortGradeRange_def calculateEffortGrade_nth
    using effortBandIndex_le nth_effortGrades by blast
next
  have "calculateEffortGrade 1001 0 = ''A+''" "calculateEffortGrade 751 0 = ''A''"
    "calculateEffortGrade 501 0 = ''A-''" "calculateEffortGrade 301 0 = ''B+''"
    "calculateEffortGrade 201 0 = ''B''" "calculateEffortGrade 101 0 = ''B-''"
    "calculateEffortGrade 51 0 = ''C+''" "calculateEffortGrade 26 0 = ''C''"
    "calculateEffortGrade 11 0 = ''C-''" "calculateEffortGrade 0 0 = ''D''"
    by (simp_all add: calculateEffortGrade_def)
  then have "''A+'' \<in> effortGradeRange" "''A'' \<in> effortGradeRange" "''A-'' \<in> effortGradeRange"
    "''B+'' \<in> effortGradeRange" "''B'' \<in> effortGradeRange" "''B-'' \<in> effortGradeRange"
    "''C+'' \<in> effortGradeRange" "''C'' \<in> effortGradeRange" "''C-'' \<in> effortGradeRange"
    "''D'' \<in> effortGradeRange"
    unfolding effortGradeRange_def by blast+
  then show "set effortGrades \<subseteq> effortGradeRange"
    by (simp add: effortGrades_def)
qed

lemma effortGrades_card: "card (set effortGrades) = 10"
proof -
  have "distinct effortGrades" by (simp add: effortGrades_def)
  then have "card (set effortGrades) = length effortGrades" by (rule distinct_card)
  then show ?thesis by (simp add: effortGrades_def)
qed

text \<open>
  Claim C6, as the code has it. \<^verbatim>\<open>calculateEffortGrade\<close> is a monotonic step function:
  it is the first band, from the highest down, whose lines-modified threshold or
  activity-score threshold is exceeded; raising either argument never lowers the grade;
  its results are exactly the ten grades A+, A, A-, B+, B, B-, C+, C, C-, D (there is no
  D+ band, so ten grades and not eleven); and \<^verbatim>\<open>calculateEffortGrade(1001, 0)\<close> is A+,
  \<^verbatim>\<open>calculateEffortGrade(0, 0)\<close> is D.
\<close>

theorem calculateEffortGrade_step_function:
  "calculateEffortGrade l a = firstBand effortBands l a
   \<and> (l \<le> l' \<and> a \<le> a' \<longrightarrow>
        effortRank (calculateEffortGrade l' a') \<le> effortRank (calculateEffortGrade l a))
   \<and> effortGradeRange = set effortGrades
   \<and> card effortGradeRange = 10
   \<and> calculateEffortGrade 1001 0 = ''A+''
   \<and> calculateEffortGrade 0 0 = ''D''"
proof -
  have 1: "calculateEffortGrade l a = firstBand effortBands l a"
    by (rule calculateEffortGrade_bands)
  have 2: "l \<le> l' \<and> a \<le> a' \<longrightarrow>
        effortRank (calculateEffortGrade l' a') \<le> effortRank (calculateEffortGrade l a)"
    using effortBandIndex_mono [of l l' a a'] by (simp add: effortRank_grade)
  have 3: "card effortGradeRange = 10"
    by (simp add: effortGradeRange_eq effortGrades_card)
  have 4: "calculateEffortGrade 1001 0 = ''A+''" "calculateEffortGrade 0 0 = ''D''"
    by (simp_all add: calculateEffortGrade_def)
  from 1 2 3 4 effortGradeRange_eq show ?thesis by blast
qed

theorem calculateEffortGrade_step_function_witness:
  "effortRank (calculateEffortGrade 1001 0) \<le> effortRank (calculateEffortGrade 0 0)
   \<and> calculateEffortGrade 0 0 = firstBand effortBands 0 0
   \<and> card effortGradeRange = 10"
proof -
  have "(0::int) \<le> 1001 \<and> (0::int) \<le> 0" by simp
  with calculateEffortGrade_step_function [of 0 0 1001 0] show ?thesis by blast
qed

text \<open>
  Claim C6 as stated speaks of exactly 11 letter grades; the function has ten results.
\<close>

theorem calculateEffortGrade_not_eleven_grades: "card effortGradeRange \<noteq> 11"
  by (simp add: effortGradeRange_eq effortGrades_card)

subsection \<open>Properties of the configuration and of the chat command\<close>

lemma js_every_True:
  "js_every p xs = Inr True \<longleftrightarrow> (\<forall>x\<in>set xs. p x = Inr True)"
  by (induction xs) (auto split: sum.splits)

lemma js_every_list_ex:
  "js_every p xs \<noteq> Inr True \<longleftrightarrow> list_ex (\<lambda>x. p x \<noteq> Inr True) xs"
  by (simp add: js_every_True list_ex_iff)

lemma defaultRepositories_valid: "\<forall>x\<in>set defaultRepositories. hasOwnerAndRepo x = Inr True"
  by (simp add: defaultRepositories_def hasOwnerAndRepo_def)

lemma parseRepositories_cases:
  "parseRepositories JSON_parse env =
     Inr (case env ''GITHUB_REPOS'' of
            None \<Rightarrow> defaultRepositories
          | Some reposEnv \<Rightarrow>
              (case JSON_parse reposEnv of
                 Some (JArr rs) \<Rightarrow>
                   if reposEnv \<noteq> [] \<and> js_every hasOwnerAndRepo rs = Inr True then rs
                   else defaultRepositories
               | _ \<Rightarrow> defaultRepositories))"
  by (auto simp: parseRepositories_def parseAndValidate_def try_catch_def
           split: option.splits json.splits sum.splits)

text \<open>
  Claim C9, as the code has it. \<^verbatim>\<open>parseRepositories\<close> never throws; every element of
  the array it returns has a truthy owner and a truthy repo; on an invalid or absent
  input the result is exactly the four default repositories; and the result is empty
  only when the variable holds a text that parses to the empty array, which is
  accepted and returned as it is.
\<close>

theorem parseRepositories_total:
  "\<exists>repos. parseRepositories JSON_parse env = Inr repos
     \<and> (\<forall>r\<in>set repos. hasOwnerAndRepo r = Inr True)
     \<and> (invalidReposInput JSON_parse env \<longrightarrow> repos = defaultRepositories)
     \<and> (repos = [] \<longrightarrow>
          (\<exists>reposEnv. env ''GITHUB_REPOS'' = Some reposEnv \<and> JSON_parse reposEnv = Some (JArr [])))"
proof -
  let ?repos = "case env ''GITHUB_REPOS'' of
            None \<Rightarrow> defaultRepositories
          | Some reposEnv \<Rightarrow>
              (case JSON_parse reposEnv of
                 Some (JArr rs) \<Rightarrow>
                   if reposEnv \<noteq> [] \<and> js_every hasOwnerAndRepo rs = Inr True then rs
                   else defaultRepositories
               | _ \<Rightarrow> defaultRepositories)"
  have 1: "parseRepositories JSON_parse env = Inr ?repos"
    by (rule parseRepositories_cases)
  have 2: "\<forall>r\<in>set ?repos. hasOwnerAndRepo r = Inr True"
    using defaultRepositories_valid
    by (auto simp: js_every_True split: option.splits json.splits)
  have 3: "invalidReposInput JSON_parse env \<longrightarrow> ?repos = defaultRepositories"
    by (auto simp: invalidReposInput_def js_every_True list_ex_iff split: option.splits json.splits)
  have 4: "?repos = [] \<longrightarrow>
          (\<exists>reposEnv. env ''GITHUB_REPOS'' = Some reposEnv \<and> JSON_parse reposEnv = Some (JArr []))"
    by (auto simp: defaultRepositories_def split: option.splits json.splits if_splits)
  from 1 2 3 4 show ?thesis by blast
qed

theorem parseRepositories_total_witness:
  "parseRepositories sampleParse Map.empty = Inr defaultRepositories
   \<and> parseRepositories sampleParse [''GITHUB_REPOS'' \<mapsto> ''{not json''] = Inr defaultRepositories
   \<and> parseRepositories sampleParse [''GITHUB_REPOS'' \<mapsto> ''[{\"owner\":\"o\",\"repo\":\"r\"}]'']
       = Inr [JObj [(''owner'', JStr ''o''), (''repo'', JStr ''r'')]]"
proof -
  have a: "invalidReposInput sampleParse Map.empty"
    by (simp add: invalidReposInput_def)
  have b: "invalidReposInput sampleParse [''GITHUB_REPOS'' \<mapsto> ''{not json'']"
    by (simp add: invalidReposInput_def sampleParse_def)
  have c: "parseRepositories sampleParse [''GITHUB_REPOS'' \<mapsto> ''[{\"owner\":\"o\",\"repo\":\"r\"}]'']
       = Inr [JObj [(''owner'', JStr ''o''), (''repo'', JStr ''r'')]]"
    by (simp add: parseRepositories_def parseAndValidate_def try_catch_def sampleParse_def
        hasOwnerAndRepo_def)
  from a b c parseRepositories_total [of sampleParse Map.empty]
    parseRepositories_total [of sampleParse "[''GITHUB_REPOS'' \<mapsto> ''{not json'']"]
  show ?thesis by auto
qed

text \<open>
  Claim C9 as stated promises a non-empty array for every value of the variable; for
  the text \<^verbatim>\<open>[]\<close> the function returns the empty array.
\<close>

theorem parseRepositories_empty_array:
  "parseRepositories sampleParse [''GITHUB_REPOS'' \<mapsto> ''[]''] = Inr []"
  by (simp add: parseRepositories_def parseAndValidate_def try_catch_def sampleParse_def)

lemma read_name_functionScope_original:
  "read_name functionScope ''originalSkipDetailedContent''
     = Inl (ReferenceError ''originalSkipDetailedContent'')"
  by (simp add: read_name_def functionScope_def)

lemma restoreFlags_functionScope:
  "restoreFlags functionScope env = (Inl (ReferenceError ''originalSkipDetailedContent''), env)"
  by (simp add: restoreFlags_def restoreFlag_def read_name_functionScope_original)

text \<open>
  Had the \<^verbatim>\<open>finally\<close> block been able to read the two constants, it would have put
  back every prior value that is unset or a non-empty string.
\<close>

lemma restoreFlags_tryBlockScope:
  assumes "env ''SKIP_DETAILED_CONTENT'' \<noteq> Some []" "env ''SKIP_AI_ANALYSIS'' \<noteq> Some []"
  shows "restoreFlags (tryBlockScope env)
           (env(''SKIP_DETAILED_CONTENT'' \<mapsto> ''true'', ''SKIP_AI_ANALYSIS'' \<mapsto> ''true''))
         = (Inr (), env)"
proof -
  have "(env(''SKIP_DETAILED_CONTENT'' \<mapsto> ''true'', ''SKIP_AI_ANALYSIS'' \<mapsto> ''true'',
             ''SKIP_DETAILED_CONTENT'' := env ''SKIP_DETAILED_CONTENT'',
             ''SKIP_AI_ANALYSIS'' := env ''SKIP_AI_ANALYSIS'')) = env"
    by (rule ext) simp
  with assms show ?thesis
    by (auto simp: restoreFlags_def restoreFlag_def read_name_def tryBlockScope_def
        split: option.splits)
qed

text \<open>
  Claim C8 on the code: for every prior environment and every outcome of the report
  generation, \<^verbatim>\<open>generateAndPostReport\<close> ends by throwing a ReferenceError out of its
  \<^verbatim>\<open>finally\<close> block, and both flags are left at \<^verbatim>\<open>'true'\<close>, whatever they held
  before. The claim says the prior values are restored and nothing is thrown.
\<close>

theorem generateAndPostReport_leaves_flags_set:
  "outcome (generateAndPostReport generate env)
     = Inl (ReferenceError ''originalSkipDetailedContent'')
   \<and> env_after (generateAndPostReport generate env) ''SKIP_DETAILED_CONTENT'' = Some ''true''
   \<and> env_after (generateAndPostReport generate env) ''SKIP_AI_ANALYSIS'' = Some ''true''
   \<and> env_after (generateAndPostReport generate Map.empty) \<noteq> Map.empty"
proof -
  have "env_after (generateAndPostReport generate Map.empty) ''SKIP_AI_ANALYSIS'' = Some ''true''"
    by (simp add: generateAndPostReport_def restoreFlags_functionScope Let_def)
  then have "env_after (generateAndPostReport generate Map.empty) \<noteq> Map.empty"
    by (metis option.distinct(1))
  then show ?thesis
    by (simp add: generateAndPostReport_def restoreFlags_functionScope Let_def)
qed

subsection \<open>Properties of the commit collector\<close>

lemma concat_chunksFrom: "0 < n \<Longrightarrow> concat (chunksFrom xs n i) = drop i xs"
proof (induction xs n i rule: chunksFrom.induct)
  case (1 array chunkSize i)
  show ?case
  proof (cases "i < length array")
    case True
    with 1 have "concat (chunksFrom array chunkSize (i + chunkSize)) = drop (i + chunkSize) array"
      by simp
    then show ?thesis
      using True 1(2) append_take_drop_id [of chunkSize "drop i array"]
      by (subst chunksFrom.simps) (simp add: add.commute)
  next
    case False
    then show ?thesis by (subst chunksFrom.simps) simp
  qed
qed

lemma chunkArray_concat: "0 < n \<Longrightarrow> \<exists>chunks. chunkArray xs n = Some chunks \<and> concat chunks = xs"
  by (simp add: chunkArray_def concat_chunksFrom)

lemma foldl_mergeBranch_chunks:
  "foldl (\<lambda>allCommits branchChunk. foldl mergeBranch allCommits (map f branchChunk)) acc chunks
     = foldl mergeBranch acc (map f (concat chunks))"
  by (induction chunks arbitrary: acc) simp_all

lemma mergeChunks_concat: "mergeChunks f chunks = foldl mergeBranch [] (map f (concat chunks))"
  by (simp add: mergeChunks_def foldl_mergeBranch_chunks)

lemma collectBranches_any_limit:
  "0 < n \<Longrightarrow> collectBranches n f branches = Some (foldl mergeBranch [] (map f branches))"
  using chunkArray_concat [of n branches]
  by (auto simp: collectBranches_def mergeChunks_concat)

lemma image_Int_unseen: "f ` A \<inter> f ` {x \<in> B. f x \<notin> f ` A} = {}"
proof -
  have "\<And>y. y \<in> f ` A \<Longrightarrow> y \<in> f ` {x \<in> B. f x \<notin> f ` A} \<Longrightarrow> False"
  proof -
    fix y assume a: "y \<in> f ` A" and b: "y \<in> f ` {x \<in> B. f x \<notin> f ` A}"
    from b obtain x where "y = f x" "f x \<notin> f ` A" by (elim imageE) simp
    with a show False by simp
  qed
  then show ?thesis by (intro equals0I) (elim IntE)
qed

lemma mergeBranch_distinct:
  "distinct (map sha acc) \<Longrightarrow> distinct (map sha bc) \<Longrightarrow> distinct (map sha (mergeBranch acc bc))"
proof -
  assume d: "distinct (map sha acc)" "distinct (map sha bc)"
  have "sha ` set acc \<inter> sha ` {x \<in> set bc. sha x \<notin> sha ` set acc} = {}"
    by (rule image_Int_unseen)
  with d show ?thesis
    by (simp add: mergeBranch_def distinct_map_filter)
qed

lemma mergeBranch_shas:
  "sha ` set (mergeBranch acc bc) = sha ` set acc \<union> sha ` set bc"
  by (auto simp: mergeBranch_def)

lemma foldl_mergeBranch_distinct:
  "distinct (map sha acc) \<Longrightarrow> \<forall>bc\<in>set bcs. distinct (map sha bc)
     \<Longrightarrow> distinct (map sha (foldl mergeBranch acc bcs))"
  by (induction bcs arbitrary: acc) (simp_all add: mergeBranch_distinct)

lemma foldl_mergeBranch_shas:
  "sha ` set (foldl mergeBranch acc bcs) = sha ` set acc \<union> (\<Union>bc\<in>set bcs. sha ` set bc)"
  by (induction bcs arbitrary: acc) (simp_all add: mergeBranch_shas Un_assoc)

lemma set_insert_by: "set (insert_by cmp x xs) = insert x (set xs)"
  by (induction xs) auto

lemma set_js_sort: "set (js_sort cmp xs) = set xs"
  by (induction xs) (simp_all add: js_sort_def set_insert_by)

lemma shaCount_distinct:
  "distinct (map sha cs) \<Longrightarrow> shaCount s cs = (if s \<in> set (map sha cs) then 1 else 0)"
proof -
  assume d: "distinct (map sha cs)"
  have "shaCount s cs = length (filter (\<lambda>y. s = y) (map sha cs))"
    by (simp add: shaCount_def filter_map comp_def eq_commute)
  with d show ?thesis by (simp only: distinct_length_filter) auto
qed

text \<open>
  Claim C1. Let every branch list each sha at most once, and let the cached result, when
  there is one, be free of duplicates (it is an earlier result of this function). Then
  \<^verbatim>\<open>fetchCommitsForRepo\<close> returns, and no sha occurs twice in what it returns. When the
  branches are fetched, a sha listed by any of them, in particular by two or more,
  occurs exactly once in the merged result, and the merged result is the same for
  every positive size of the concurrent batches.
\<close>

theorem fetchCommitsForRepo_dedup:
  assumes "\<forall>b\<in>set (visitedBranches cachedBranches listBranches). distinct (map sha (fetchBranch b))"
    and "\<forall>cached. cachedCommits = Some cached \<longrightarrow> distinct (map sha cached)"
    and "0 < concurrencyLimit"
  shows "\<exists>commits. fetchCommitsForRepo cachedCommits cachedBranches listBranches fetchBranch
                     = Some commits
          \<and> distinct (map sha commits)
          \<and> (\<forall>s. shaCount s commits \<le> 1)
          \<and> (cachedCommits = None \<longrightarrow>
               collectBranches concurrencyLimit fetchBranch
                   (visitedBranches cachedBranches listBranches) = Some commits
               \<and> (\<forall>s. (\<exists>b\<in>set (visitedBranches cachedBranches listBranches).
                          s \<in> set (map sha (fetchBranch b)))
                       \<longrightarrow> shaCount s commits = 1))"
proof (cases cachedCommits)
  case (Some cached)
  with assms(2) have "distinct (map sha cached)" by simp
  with Some show ?thesis
    by (simp add: fetchCommitsForRepo_def shaCount_distinct)
next
  case None
  let ?bs = "visitedBranches cachedBranches listBranches"
  let ?r = "foldl mergeBranch [] (map fetchBranch ?bs)"
  have r: "fetchCommitsForRepo cachedCommits cachedBranches listBranches fetchBranch = Some ?r"
    using None by (simp add: fetchCommitsForRepo_def collectBranches_any_limit)
  have c: "collectBranches concurrencyLimit fetchBranch ?bs = Some ?r"
    using assms(3) by (rule collectBranches_any_limit)
  have d: "distinct (map sha ?r)"
    using assms(1) by (intro foldl_mergeBranch_distinct) auto
  have s: "set (map sha ?r) = (\<Union>b\<in>set ?bs. set (map sha (fetchBranch b)))"
    by (simp add: foldl_mergeBranch_shas)
  have one: "\<forall>s. (\<exists>b\<in>set ?bs. s \<in> set (map sha (fetchBranch b))) \<longrightarrow> shaCount s ?r = 1"
    using s by (auto simp: shaCount_distinct [OF d])
  have le: "\<forall>s. shaCount s ?r \<le> 1"
    by (simp add: shaCount_distinct [OF d])
  from r c d one le show ?thesis by blast
qed

theorem fetchCommitsForRepo_dedup_witness:
  "fetchCommitsForRepo None None (Inr [''main'', ''dev'']) sampleFetchBranch
     = Some [sampleCommit ''s1'', sampleCommit ''s2'', sampleCommit ''s3'']
   \<and> collectBranches 1 sampleFetchBranch [''main'', ''dev'']
     = Some [sampleCommit ''s1'', sampleCommit ''s2'', sampleCommit ''s3'']
   \<and> shaCount ''s2'' [sampleCommit ''s1'', sampleCommit ''s2'', sampleCommit ''s3''] = 1"
proof -
  have vb: "visitedBranches None (Inr [''main'', ''dev'']) = [''main'', ''dev'']"
    by (simp add: visitedBranches_def)
  have h1: "\<forall>b\<in>set (visitedBranches None (Inr [''main'', ''dev''])).
              distinct (map sha (sampleFetchBranch b))"
    by (simp add: vb sampleFetchBranch_def sampleCommit_def)
  have h2: "\<forall>cached. (None :: commit list option) = Some cached \<longrightarrow> distinct (map sha cached)"
    by simp
  have h3: "0 < (1::nat)" by simp
  have r: "fetchCommitsForRepo None None (Inr [''main'', ''dev'']) sampleFetchBranch
     = Some [sampleCommit ''s1'', sampleCommit ''s2'', sampleCommit ''s3'']"
    by (simp add: fetchCommitsForRepo_def vb collectBranches_def chunkArray_def
        chunksFrom.simps mergeChunks_def mergeBranch_def sampleFetchBranch_def sampleCommit_def)
  have s: "''s2'' \<in> set (map sha (sampleFetchBranch ''main''))"
    by (simp add: sampleFetchBranch_def sampleCommit_def)
  from fetchCommitsForRepo_dedup [OF h1 h2 h3] r vb s show ?thesis
    by auto
qed

subsection \<open>Properties of the fetch layer\<close>

lemma issued_request [simp]: "issued (request latency w) = issued w @ [now w]"
  by (simp add: request_def)

lemma now_request [simp]: "now (request latency w) = now w + int latency"
  by (simp add: request_def)

lemma issued_sleep [simp]: "issued (sleep d w) = issued w"
  by (simp add: sleep_def)

lemma timerDelay_positive: "0 < timerDelay d"
  by (simp add: timerDelay_def TIMEOUT_MAX_def split: option.splits)

lemma now_sleep: "now w \<le> now (sleep d w)"
  using timerDelay_positive [of d] by (simp add: sleep_def)

lemma timerDelay_fits: "fitsTimer (Some d) \<Longrightarrow> timerDelay (Some d) = d"
  by (simp add: fitsTimer_def timerDelay_def)

lemma now_sleep_rateLimitWait_reset:
  assumes "fitsTimer (rateLimitWait (Some t) (now w))"
  shows "int t * 1000 + 1000 \<le> now (sleep (rateLimitWait (Some t) (now w)) w)"
proof -
  let ?d = "max (int t * 1000 - now w) 0 + 1000"
  from assms have "timerDelay (Some ?d) = ?d"
    by (intro timerDelay_fits) (simp add: rateLimitWait_def)
  then show ?thesis by (simp add: sleep_def rateLimitWait_def)
qed

lemma issuedAfter_refl: "issuedAfter w (r, w)"
  by (simp add: issuedAfter_def)

lemma issuedAfter_step:
  assumes "issued w1 = issued w @ pre" "list_all (\<lambda>t. now w \<le> t) pre" "now w \<le> now w1"
    and "issuedAfter w1 r"
  shows "issuedAfter w r"
proof -
  from assms(4) obtain ts where ts: "issued (snd r) = issued w1 @ ts" "list_all (\<lambda>t. now w1 \<le> t) ts"
    by (auto simp: issuedAfter_def)
  from ts(2) assms(3) have "list_all (\<lambda>t. now w \<le> t) ts"
    by (induction ts) auto
  with ts(1) assms(1,2) show ?thesis
    by (auto simp: issuedAfter_def)
qed

lemma issuedAfter_request:
  assumes "issuedAfter w2 r" "issued w2 = issued (request latency w)" "now (request latency w) \<le> now w2"
  shows "issuedAfter w r"
proof (rule issuedAfter_step [OF _ _ _ assms(1)])
  show "issued w2 = issued w @ [now w]" using assms(2) by simp
  show "list_all (\<lambda>t. now w \<le> t) [now w]" by simp
  show "now w \<le> now w2" using assms(3) by simp
qed

lemma issuesPageFailed_world:
  "issued (snd (issuesPageFailed e st w)) = issued w \<and> now w \<le> now (snd (issuesPageFailed e st w))"
  by (simp add: issuesPageFailed_def now_sleep)

lemma commitsPageFailed_world:
  "issued (snd (commitsPageFailed cfg e st w)) = issued w
   \<and> now w \<le> now (snd (commitsPageFailed cfg e st w))"
  by (simp add: commitsPageFailed_def Let_def now_sleep)

lemma issues_issuedAfter:
  "issuedAfter w (issuesOuter until st w script)"
  "issuedAfter w (issuesInner until st w script)"
proof (induction until st w script and until st w script rule: issuesOuter_issuesInner.induct)
  case (1 until st w script)
  then show ?case
    by (subst issuesOuter.simps) (simp add: issuedAfter_refl)
next
  case (2 until st w script)
  show ?case
  proof (cases "\<not> success st \<and> tries st < maxAttempts")
    case False
    from 2(3) [OF False] False show ?thesis by (subst issuesInner.simps) auto
  next
    case True
    show ?thesis
    proof (cases script)
      case Nil
      with True show ?thesis by (subst issuesInner.simps) (simp add: issuedAfter_refl)
    next
      case (Cons x rest)
      obtain latency reply where x: "x = (latency, reply)" by (cases x)
      show ?thesis
      proof (cases reply)
        case (Data d)
        from 2(1) [OF True Cons x [symmetric] Data]
        have "issuedAfter w (issuesInner until (issuesPageOk until d (st\<lparr>tries := Suc (tries st)\<rparr>))
                (request latency w) rest)"
          by (rule issuedAfter_request [where latency = latency and w = w]) simp_all
        with True Cons x Data show ?thesis by (subst issuesInner.simps) simp
      next
        case (Failure e)
        from 2(2) [OF True Cons x [symmetric] Failure]
        have "issuedAfter w (issuesInner until
                (fst (issuesPageFailed e (st\<lparr>tries := Suc (tries st)\<rparr>) (request latency w)))
                (snd (issuesPageFailed e (st\<lparr>tries := Suc (tries st)\<rparr>) (request latency w))) rest)"
          by (rule issuedAfter_request [where latency = latency and w = w])
            (use issuesPageFailed_world [of e "st\<lparr>tries := Suc (tries st)\<rparr>" "request latency w"]
              in simp_all)
        with True Cons x Failure show ?thesis by (subst issuesInner.simps) simp
      qed
    qed
  qed
qed

lemma commits_issuedAfter:
  "issuedAfter w (commitsOuter cfg st w script)"
  "issuedAfter w (commitsInner cfg st w script)"
proof (induction cfg st w script and cfg st w script rule: commitsOuter_commitsInner.induct)
  case (1 cfg st w script)
  then show ?case
    by (subst commitsOuter.simps) (simp add: issuedAfter_refl)
next
  case (2 cfg st w script)
  show ?case
  proof (cases "\<not> success st \<and> tries st < maxRetries cfg")
    case False
    from 2(3) [OF False] False show ?thesis by (subst commitsInner.simps) auto
  next
    case True
    show ?thesis
    proof (cases script)
      case Nil
      with True show ?thesis by (subst commitsInner.simps) (simp add: issuedAfter_refl)
    next
      case (Cons x rest)
      obtain latency reply where x: "x = (latency, reply)" by (cases x)
      show ?thesis
      proof (cases reply)
        case (Data d)
        from 2(1) [OF True Cons x [symmetric] Data]
        have "issuedAfter w (commitsInner cfg (commitsPageOk (pageSize cfg) d st)
                (request latency w) rest)"
          by (rule issuedAfter_request [where latency = latency and w = w]) simp_all
        with True Cons x Data show ?thesis by (subst commitsInner.simps) simp
      next
        case (Failure e)
        from 2(2) [OF True Cons x [symmetric] Failure]
        have "issuedAfter w (commitsInner cfg
                (fst (commitsPageFailed cfg e st (request latency w)))
                (snd (commitsPageFailed cfg e st (request latency w))) rest)"
          by (rule issuedAfter_request [where latency = latency and w = w])
            (use commitsPageFailed_world [of cfg e st "request latency w"] in simp_all)
        with True Cons x Failure show ?thesis by (subst commitsInner.simps) simp
      qed
    qed
  qed
qed

lemma issues_rate_limit_step:
  assumes "\<not> success st" "tries st < maxAttempts" "issuesRateLimitSignal e t"
  shows "issuesInner until st w ((latency, Failure e) # rest)
         = issuesInner until st
             (sleep (rateLimitWait (Some t) (now w + int latency)) (request latency w)) rest"
  using assms
  by (subst issuesInner.simps)
     (simp add: issuesPageFailed_def issuesRateLimitSignal_def socketError_def)

lemma issues_rate_limit_steps:
  assumes "\<not> success st" "tries st < maxAttempts"
    and "list_all (\<lambda>(latency, e). \<exists>t. issuesRateLimitSignal e t) signals"
  shows "\<exists>w'. issuesInner until st w (failures signals @ rest) = issuesInner until st w' rest"
  using assms(3)
proof (induction signals arbitrary: w)
  case Nil
  show ?case by (auto simp: failures_def)
next
  case (Cons x signals)
  obtain latency e where x: "x = (latency, e)" by (cases x)
  with Cons.prems obtain t where t: "issuesRateLimitSignal e t" by auto
  from Cons.prems have "list_all (\<lambda>(latency, e). \<exists>t. issuesRateLimitSignal e t) signals" by simp
  from Cons.IH [OF this]
  obtain w' where "issuesInner until st
             (sleep (rateLimitWait (Some t) (now w + int latency)) (request latency w))
             (failures signals @ rest) = issuesInner until st w' rest"
    by blast
  with issues_rate_limit_step [OF assms(1,2) t, of until w latency "failures signals @ rest"] x
  show ?case by (auto simp: failures_def)
qed

lemma later_requests_after_wait:
  assumes "issuedAfter w2 r" "issued w2 = issued w @ [now w]" "bound \<le> now w2"
  shows "list_all (\<lambda>x. bound \<le> x) (laterRequests (Suc (length (issued w))) r)"
proof -
  from assms(1) obtain ts where ts: "issued (snd r) = issued w2 @ ts" "list_all (\<lambda>t. now w2 \<le> t) ts"
    by (auto simp: issuedAfter_def)
  from ts(2) assms(3) have "list_all (\<lambda>x. bound \<le> x) ts"
    by (induction ts) auto
  with ts(1) assms(2) show ?thesis
    by (simp add: laterRequests_def)
qed

lemma issues_wait_until_reset:
  assumes "\<not> success st" "tries st < maxAttempts" "issuesRateLimitSignal e t"
    and fits: "fitsTimer (rateLimitWait (Some t) (now w + int latency))"
  shows "list_all (\<lambda>x. int t * 1000 + 1000 \<le> x)
           (laterRequests (Suc (length (issued w)))
              (issuesInner until st w ((latency, Failure e) # rest)))"
proof -
  let ?w2 = "sleep (rateLimitWait (Some t) (now w + int latency)) (request latency w)"
  have "int t * 1000 + 1000 \<le> now ?w2"
    using now_sleep_rateLimitWait_reset [of t "request latency w"] fits by simp
  moreover have "issued ?w2 = issued w @ [now w]" by simp
  moreover have "issuedAfter ?w2 (issuesInner until st ?w2 rest)"
    by (rule issues_issuedAfter)
  ultimately show ?thesis
    unfolding issues_rate_limit_step [OF assms(1,2,3)]
    by (intro later_requests_after_wait [where ?w2.0 = ?w2]) auto
qed

lemma commits_rate_limit_step:
  assumes "\<not> success st" "tries st < maxRetries cfg" "commitsRateLimitSignal e t"
  shows "commitsInner cfg st w ((latency, Failure e) # rest)
         = commitsInner cfg (st\<lparr>tries := Suc (tries st)\<rparr>)
             (sleep (rateLimitWait (Some t) (now w + int latency)) (request latency w)) rest"
  using assms
  by (subst commitsInner.simps)
     (simp add: commitsPageFailed_def commitsRateLimitSignal_def Let_def)

lemma commits_wait_until_reset:
  assumes "\<not> success st" "tries st < maxRetries cfg" "commitsRateLimitSignal e t"
    and fits: "fitsTimer (rateLimitWait (Some t) (now w + int latency))"
  shows "list_all (\<lambda>x. int t * 1000 + 1000 \<le> x)
           (laterRequests (Suc (length (issued w)))
              (commitsInner cfg st w ((latency, Failure e) # rest)))"
proof -
  let ?w2 = "sleep (rateLimitWait (Some t) (now w + int latency)) (request latency w)"
  have "int t * 1000 + 1000 \<le> now ?w2"
    using now_sleep_rateLimitWait_reset [of t "request latency w"] fits by simp
  moreover have "issued ?w2 = issued w @ [now w]" by simp
  moreover have "issuedAfter ?w2 (commitsInner cfg (st\<lparr>tries := Suc (tries st)\<rparr>) ?w2 rest)"
    by (rule commits_issuedAfter)
  ultimately show ?thesis
    unfolding commits_rate_limit_step [OF assms(1,2,3)]
    by (intro later_requests_after_wait [where ?w2.0 = ?w2]) auto
qed

text \<open>
  Claim C3, as the code has it. In \<^verbatim>\<open>getIssues\<close>, a rate-limit signal (status 403, a
  message that mentions \<^verbatim>\<open>rate limit\<close>, reset time \<open>t\<close>) whose wait the timer takes as
  it is makes the fetch wait: every later request of the fetch is issued at \<open>t\<close> seconds
  plus a buffer of one second, or later; and such signals, however many in a row and
  whatever their reset times, leave the loop in the state it had, attempt counter
  included, so the whole retry budget remains. In the pagination loop of
  \<^verbatim>\<open>fetchCommitsForBranch\<close>, a rate-limit signal (status 403, remaining quota
  \<^verbatim>\<open>'0'\<close>, reset time \<open>t'\<close>) whose wait the timer takes as it is delays every later
  request of the fetch in the same way.
\<close>

theorem rate_limit_wait:
  assumes "\<not> success ist" "tries ist < maxAttempts"
    and "issuesRateLimitSignal e t"
    and "fitsTimer (rateLimitWait (Some t) (now w + int latency))"
    and "list_all (\<lambda>(latency, e). \<exists>t. issuesRateLimitSignal e t) signals"
    and "\<not> success cst" "tries cst < maxRetries cfg"
    and "commitsRateLimitSignal e' t'"
    and "fitsTimer (rateLimitWait (Some t') (now w + int latency))"
  shows "list_all (\<lambda>x. int t * 1000 + 1000 \<le> x)
           (laterRequests (Suc (length (issued w)))
              (issuesInner until ist w ((latency, Failure e) # rest)))
       \<and> (\<exists>w'. issuesInner until ist w (failures signals @ rest) = issuesInner until ist w' rest)
       \<and> list_all (\<lambda>x. int t' * 1000 + 1000 \<le> x)
           (laterRequests (Suc (length (issued w)))
              (commitsInner cfg cst w ((latency, Failure e') # rest')))"
  using issues_wait_until_reset [OF assms(1,2,3,4)] issues_rate_limit_steps [OF assms(1,2,5)]
    commits_wait_until_reset [OF assms(6,7,8,9)]
  by blast

lemma sample_signals:
  "issuesRateLimitSignal (rateLimited 5) 5" "issuesRateLimitSignal (rateLimited 7) 7"
  "commitsRateLimitSignal (rateLimited 5) 5"
  "permanentError notFound" "permanentError badCredentials"
  by (simp_all add: issuesRateLimitSignal_def commitsRateLimitSignal_def permanentError_def
      socketError_def rateLimited_def notFound_def badCredentials_def)

theorem rate_limit_wait_witness:
  "list_all (\<lambda>x. 6000 \<le> x)
     (laterRequests 1 (issuesInner 0 firstPage startWorld
        [(10, Failure (rateLimited 5)), (10, Data [])]))
   \<and> laterRequests 1 (issuesInner 0 firstPage startWorld
        [(10, Failure (rateLimited 5)), (10, Data [])]) = [6000]
   \<and> list_all (\<lambda>x. 6000 \<le> x)
     (laterRequests 1 (commitsInner defaultConfig (firstPage :: commit paging) startWorld
        [(10, Failure (rateLimited 5)), (10, Data [])]))
   \<and> laterRequests 1 (commitsInner defaultConfig (firstPage :: commit paging) startWorld
        [(10, Failure (rateLimited 5)), (10, Data [])]) = [6000]"
proof -
  have h1: "\<not> success (firstPage :: issue paging)" "tries (firstPage :: issue paging) < maxAttempts"
    by (simp_all add: firstPage_def maxAttempts_def)
  have h2: "list_all (\<lambda>(latency, e). \<exists>t. issuesRateLimitSignal e t)
              [(10 :: nat, rateLimited 5), (10, rateLimited 7)]"
    using sample_signals by auto
  have h3: "\<not> success (firstPage :: commit paging)"
    "tries (firstPage :: commit paging) < maxRetries defaultConfig"
    by (simp_all add: firstPage_def defaultConfig_def)
  have h4: "fitsTimer (rateLimitWait (Some 5) (now startWorld + int 10))"
    by (simp add: fitsTimer_def rateLimitWait_def startWorld_def TIMEOUT_MAX_def)
  have a: "laterRequests 1 (issuesInner 0 firstPage startWorld
        [(10, Failure (rateLimited 5)), (10, Data [])]) = [6000]"
    by (simp add: issuesInner.simps issuesOuter.simps issuesPageFailed_def issuesPageOk_def
        firstPage_def startWorld_def maxAttempts_def rateLimited_def laterRequests_def
        request_def sleep_def timerDelay_def TIMEOUT_MAX_def rateLimitWait_def)
  have b: "laterRequests 1 (commitsInner defaultConfig (firstPage :: commit paging) startWorld
        [(10, Failure (rateLimited 5)), (10, Data [])]) = [6000]"
    by (simp add: commitsInner.simps commitsOuter.simps commitsPageFailed_def commitsPageOk_def
        firstPage_def startWorld_def defaultConfig_def rateLimited_def laterRequests_def
        request_def sleep_def timerDelay_def TIMEOUT_MAX_def rateLimitWait_def pageAllowed_def
        Let_def)
  from rate_limit_wait [where w = startWorld and until = 0 and latency = 10
      and rest = "[(10, Data [])]" and rest' = "[(10, Data [])]",
      OF h1 sample_signals(1) h4 h2 h3 sample_signals(3) h4] a b
  show ?thesis by (simp add: startWorld_def)
qed

text \<open>
  Claim C3 as stated fails in four ways. In \<^verbatim>\<open>fetchCommitsForBranch\<close> the wait is
  counted: \<^verbatim>\<open>retries++\<close> comes before the kind of the error is looked at, so after one
  rate-limit wait the page is given up at the second transient failure, while without
  the rate limit the same two failures are survived. \<^verbatim>\<open>getPullRequests\<close> does not
  wait at all: on a rate-limit signal it stops and returns, here at time 10 ms although
  the reset is at 5 s. \<^verbatim>\<open>getIssues\<close> does not look at the remaining quota: a 403 with
  remaining quota \<^verbatim>\<open>'0'\<close> and reset at 5 s whose message does not mention
  \<^verbatim>\<open>rate limit\<close> is backed off like any error, and the next request is issued at
  2010 ms. And a reset so far ahead that the wait exceeds 2147483647 ms is not waited
  for: the timer fires after 1 ms, and with the reset at 3000000 s the next request of
  \<^verbatim>\<open>getIssues\<close> is issued at 11 ms.
\<close>

theorem rate_limit_wait_fails:
  "fst (fetchCommitsForBranch defaultConfig ''k'' startWorld Map.empty
          [(10, Data [sampleCommit ''s0'']), (10, Failure (rateLimited 5)),
           (10, Failure serverError), (10, Failure serverError),
           (10, Data [sampleCommit ''s1''])]) = Some []
   \<and> fst (fetchCommitsForBranch defaultConfig ''k'' startWorld Map.empty
          [(10, Data [sampleCommit ''s0'']),
           (10, Failure serverError), (10, Failure serverError),
           (10, Data [sampleCommit ''s1''])]) = Some [sampleCommit ''s1'']
   \<and> getPullRequests 0 0 startWorld [(10, Failure (rateLimited 5)), (10, Data [samplePull])]
       = (Some [], \<lparr>now = 10, issued = [0]\<rparr>)
   \<and> getIssues 0 startWorld [(10, Failure (quotaExhausted 5)), (10, Data [])]
       = (Some [], \<lparr>now = 2020, issued = [0, 2010]\<rparr>)
   \<and> getIssues 0 startWorld [(10, Failure (rateLimited 3000000)), (10, Data [])]
       = (Some [], \<lparr>now = 21, issued = [0, 11]\<rparr>)"
  by (simp add: fetchCommitsForBranch_def cache_get_def commitsInner.simps commitsOuter.simps
      commitsPageFailed_def commitsPageOk_def firstPage_def startWorld_def defaultConfig_def
      rateLimited_def quotaExhausted_def serverError_def request_def sleep_def timerDelay_def
      TIMEOUT_MAX_def rateLimitWait_def backoff_def pageAllowed_def Let_def getPullRequests_def
      pullsPageFailed_def getIssues_def issuesInner.simps issuesOuter.simps issuesPageFailed_def
      issuesPageOk_def maxAttempts_def)













subsection \<open>Properties of the aggregator\<close>

lemma map_entry_keys [simp]: "map fst (AList.map_entry k f al) = map fst al"
  by (induction al) auto

lemma map_update_project:
  "map (\<lambda>e. (fst e, h (snd e))) (AList.update k v al)
     = AList.update k (h v) (map (\<lambda>e. (fst e, h (snd e))) al)"
  by (induction al) auto

lemma map_map_entry_project:
  "map (\<lambda>e. (fst e, h (snd e))) (AList.map_entry k g al)
     = AList.map_entry k g' (map (\<lambda>e. (fst e, h (snd e))) al)"
  if "\<And>v. h (g v) = g' (h v)"
  using that by (induction al) auto

lemma map_entry_frame:
  "map (\<lambda>e. (fst e, h (snd e))) (AList.map_entry k g al) = map (\<lambda>e. (fst e, h (snd e))) al"
  if "\<And>v. h (g v) = h v"
  using that by (induction al) auto

lemma foldl_frame:
  assumes "\<And>c x. P (f c x) = P c"
  shows "P (foldl f c xs) = P c"
  using assms by (induction xs arbitrary: c) simp_all

lemma repoCounts_addContributor:
  "map (\<lambda>entry. (fst entry, repoCommits (snd entry), repoPullRequests (snd entry)))
     (addContributor k a repos)
   = map (\<lambda>entry. (fst entry, repoCommits (snd entry), repoPullRequests (snd entry))) repos"
  unfolding addContributor_def by (rule map_entry_frame) simp

lemma frame_addCommitLines:
  "repoCounts (addCommitLines k a x y c) = repoCounts c"
  "summaryCounts (addCommitLines k a x y c) = summaryCounts c"
proof -
  have "map (\<lambda>entry. (fst entry, repoCommits (snd entry), repoPullRequests (snd entry)))
          (AList.map_entry k
             (\<lambda>r. r\<lparr>repoLinesAdded := repoLinesAdded r + x,
                    repoLinesDeleted := repoLinesDeleted r + y,
                    repoLinesModified := repoLinesModified r + (x + y)\<rparr>)
             (repositories c))
        = map (\<lambda>entry. (fst entry, repoCommits (snd entry), repoPullRequests (snd entry)))
            (repositories c)"
    by (rule map_entry_frame) simp
  then show "repoCounts (addCommitLines k a x y c) = repoCounts c"
    by (simp add: repoCounts_def addCommitLines_def)
  show "summaryCounts (addCommitLines k a x y c) = summaryCounts c"
    by (simp add: summaryCounts_def addCommitLines_def)
qed

lemma frame_analyzeCommit:
  "repoCounts (analyzeCommit cf k c x) = repoCounts c"
  "summaryCounts (analyzeCommit cf k c x) = summaryCounts c"
  by (simp_all add: analyzeCommit_def frame_addCommitLines split: option.splits)

lemma frame_processAuthorCommits:
  "repoCounts (shared (processAuthorCommits k t x)) = repoCounts (shared t)"
  "summaryCounts (shared (processAuthorCommits k t x)) = summaryCounts (shared t)"
  by (simp_all add: processAuthorCommits_def Let_def repoCounts_def summaryCounts_def
      repoCounts_addContributor split: sum.splits)

lemma frame_processAuthorPRs:
  "repoCounts (shared (processAuthorPRs k t x)) = repoCounts (shared t)"
  "summaryCounts (shared (processAuthorPRs k t x)) = summaryCounts (shared t)"
  by (simp_all add: processAuthorPRs_def Let_def repoCounts_def summaryCounts_def
      repoCounts_addContributor split: sum.splits)

lemma frame_processAuthorIssues:
  "repoCounts (shared (processAuthorIssues k t x)) = repoCounts (shared t)"
  "summaryCounts (shared (processAuthorIssues k t x)) = summaryCounts (shared t)"
  by (simp_all add: processAuthorIssues_def Let_def repoCounts_def summaryCounts_def
      repoCounts_addContributor split: sum.splits)

lemma map_entry_twice: "AList.map_entry k g (AList.map_entry k f al) = AList.map_entry k (\<lambda>v. g (f v)) al"
  by (induction al) auto

lemma counts_processCommits:
  "repoCounts (shared (processCommits k cs t))
     = AList.map_entry k (\<lambda>v. (length cs, snd v)) (repoCounts (shared t))"
  "summaryCounts (shared (processCommits k cs t))
     = (fst (summaryCounts (shared t)) + length cs, snd (summaryCounts (shared t)))"
proof -
  let ?c = "shared t"
  let ?c1 = "?c\<lparr>summary :=
                   (summary ?c)\<lparr>summaryTotalCommits := summaryTotalCommits (summary ?c) + length cs\<rparr>,
                 repositories :=
                   AList.map_entry k (\<lambda>r. r\<lparr>repoCommits := length cs\<rparr>) (repositories ?c)\<rparr>"
  let ?t1 = "t\<lparr>shared := ?c1\<rparr>"
  have "map (\<lambda>entry. (fst entry, repoCommits (snd entry), repoPullRequests (snd entry)))
          (AList.map_entry k (\<lambda>r. r\<lparr>repoCommits := length cs\<rparr>) (repositories ?c))
        = AList.map_entry k (\<lambda>v. (length cs, snd v))
            (map (\<lambda>entry. (fst entry, repoCommits (snd entry), repoPullRequests (snd entry)))
               (repositories ?c))"
    by (rule map_map_entry_project) simp
  then have a: "repoCounts (shared ?t1) = AList.map_entry k (\<lambda>v. (length cs, snd v)) (repoCounts ?c)"
    by (simp add: repoCounts_def)
  have b: "summaryCounts (shared ?t1) = (fst (summaryCounts ?c) + length cs, snd (summaryCounts ?c))"
    by (simp add: summaryCounts_def)
  have "repoCounts (shared (foldl (processAuthorCommits k) ?t1 xs)) = repoCounts (shared ?t1)" for xs
    by (rule foldl_frame [where P = "\<lambda>t. repoCounts (shared t)"]) (rule frame_processAuthorCommits)
  moreover have "summaryCounts (shared (foldl (processAuthorCommits k) ?t1 xs))
      = summaryCounts (shared ?t1)" for xs
    by (rule foldl_frame [where P = "\<lambda>t. summaryCounts (shared t)"])
      (rule frame_processAuthorCommits)
  moreover have "processCommits k cs t = ?t1
      \<or> processCommits k cs t = foldl (processAuthorCommits k) ?t1 (groupByAuthor commitAuthor cs)"
    by (simp add: processCommits_def Let_def)
  ultimately have "repoCounts (shared (processCommits k cs t)) = repoCounts (shared ?t1)"
    "summaryCounts (shared (processCommits k cs t)) = summaryCounts (shared ?t1)"
    by metis+
  then show
    "repoCounts (shared (processCommits k cs t))
       = AList.map_entry k (\<lambda>v. (length cs, snd v)) (repoCounts (shared t))"
    "summaryCounts (shared (processCommits k cs t))
       = (fst (summaryCounts (shared t)) + length cs, snd (summaryCounts (shared t)))"
    unfolding a b by simp_all
qed

lemma counts_processPRs:
  "repoCounts (shared (processPRs k prs t))
     = AList.map_entry k (\<lambda>v. (fst v, length prs)) (repoCounts (shared t))"
  "summaryCounts (shared (processPRs k prs t))
     = (fst (summaryCounts (shared t)), snd (summaryCounts (shared t)) + length prs)"
proof -
  let ?c = "shared t"
  let ?m = "length (filter (\<lambda>pr. merged_at pr \<noteq> None) prs)"
  let ?c1 = "?c\<lparr>summary :=
                   (summary ?c)\<lparr>summaryTotalPRs := summaryTotalPRs (summary ?c) + length prs,
                               summaryPrsMerged := summaryPrsMerged (summary ?c) + ?m\<rparr>,
                 repositories :=
                   AList.map_entry k
                     (\<lambda>r. r\<lparr>repoPullRequests := length prs, prsMerged := ?m\<rparr>)
                     (repositories ?c)\<rparr>"
  let ?t1 = "t\<lparr>shared := ?c1\<rparr>"
  have "map (\<lambda>entry. (fst entry, repoCommits (snd entry), repoPullRequests (snd entry)))
          (AList.map_entry k (\<lambda>r. r\<lparr>repoPullRequests := length prs, prsMerged := ?m\<rparr>)
             (repositories ?c))
        = AList.map_entry k (\<lambda>v. (fst v, length prs))
            (map (\<lambda>entry. (fst entry, repoCommits (snd entry), repoPullRequests (snd entry)))
               (repositories ?c))"
    by (rule map_map_entry_project) simp
  then have a: "repoCounts (shared ?t1) = AList.map_entry k (\<lambda>v. (fst v, length prs)) (repoCounts ?c)"
    by (simp add: repoCounts_def)
  have b: "summaryCounts (shared ?t1) = (fst (summaryCounts ?c), snd (summaryCounts ?c) + length prs)"
    by (simp add: summaryCounts_def)
  have "repoCounts (shared (foldl (processAuthorPRs k) ?t1 xs)) = repoCounts (shared ?t1)" for xs
    by (rule foldl_frame [where P = "\<lambda>t. repoCounts (shared t)"]) (rule frame_processAuthorPRs)
  moreover have "summaryCounts (shared (foldl (processAuthorPRs k) ?t1 xs))
      = summaryCounts (shared ?t1)" for xs
    by (rule foldl_frame [where P = "\<lambda>t. summaryCounts (shared t)"])
      (rule frame_processAuthorPRs)
  moreover have "processPRs k prs t = ?t1 \<or> processPRs k prs t = ?t1\<lparr>rejected := True\<rparr>
      \<or> processPRs k prs t
          = foldl (processAuthorPRs k) ?t1
              (groupByAuthor (\<lambda>pr. case pr_user pr of Some login \<Rightarrow> login | None \<Rightarrow> []) prs)"
    by (simp add: processPRs_def Let_def)
  moreover have "shared (?t1\<lparr>rejected := True\<rparr>) = shared ?t1" by simp
  ultimately have "repoCounts (shared (processPRs k prs t)) = repoCounts (shared ?t1)"
    "summaryCounts (shared (processPRs k prs t)) = summaryCounts (shared ?t1)"
    by metis+
  then show
    "repoCounts (shared (processPRs k prs t))
       = AList.map_entry k (\<lambda>v. (fst v, length prs)) (repoCounts (shared t))"
    "summaryCounts (shared (processPRs k prs t))
       = (fst (summaryCounts (shared t)), snd (summaryCounts (shared t)) + length prs)"
    unfolding a b by simp_all
qed

lemma counts_processIssues:
  "repoCounts (shared (processIssues k is t)) = repoCounts (shared t)"
  "summaryCounts (shared (processIssues k is t)) = summaryCounts (shared t)"
proof -
  let ?c = "shared t"
  let ?actual = "filter (\<lambda>i. \<not> is_pull_request i) is"
  let ?closed = "filter (\<lambda>i. issue_state i = ''closed'') ?actual"
  let ?c1 = "?c\<lparr>summary :=
                      (summary ?c)\<lparr>summaryTotalIssues := summaryTotalIssues (summary ?c) + length ?actual,
                                  summaryIssuesClosed := summaryIssuesClosed (summary ?c) + length ?closed\<rparr>,
                    repositories :=
                      AList.map_entry k
                        (\<lambda>r. r\<lparr>repoIssues := length ?actual, issuesClosed := length ?closed\<rparr>)
                        (repositories ?c)\<rparr>"
  let ?t1 = "t\<lparr>shared := ?c1\<rparr>"
  have "map (\<lambda>entry. (fst entry, repoCommits (snd entry), repoPullRequests (snd entry)))
          (AList.map_entry k (\<lambda>r. r\<lparr>repoIssues := length ?actual, issuesClosed := length ?closed\<rparr>)
             (repositories ?c))
        = map (\<lambda>entry. (fst entry, repoCommits (snd entry), repoPullRequests (snd entry)))
               (repositories ?c)"
    by (rule map_entry_frame) simp
  then have a: "repoCounts (shared ?t1) = repoCounts ?c"
    by (simp add: repoCounts_def)
  have b: "summaryCounts (shared ?t1) = summaryCounts ?c"
    by (simp add: summaryCounts_def)
  have "repoCounts (shared (foldl (processAuthorIssues k) ?t1 xs)) = repoCounts (shared ?t1)" for xs
    by (rule foldl_frame [where P = "\<lambda>t. repoCounts (shared t)"]) (rule frame_processAuthorIssues)
  moreover have "summaryCounts (shared (foldl (processAuthorIssues k) ?t1 xs))
      = summaryCounts (shared ?t1)" for xs
    by (rule foldl_frame [where P = "\<lambda>t. summaryCounts (shared t)"])
      (rule frame_processAuthorIssues)
  moreover have "processIssues k is t = t \<or> processIssues k is t = ?t1\<lparr>rejected := True\<rparr>
      \<or> processIssues k is t
          = foldl (processAuthorIssues k) ?t1
              (groupByAuthor (\<lambda>i. case issue_user i of Some login \<Rightarrow> login | None \<Rightarrow> []) ?actual)"
    by (simp add: processIssues_def Let_def)
  moreover have "shared (?t1\<lparr>rejected := True\<rparr>) = shared ?t1" by simp
  ultimately have "repoCounts (shared (processIssues k is t)) = repoCounts ?c \<or>
      repoCounts (shared (processIssues k is t)) = repoCounts (shared ?t1)"
    "summaryCounts (shared (processIssues k is t)) = summaryCounts ?c \<or>
      summaryCounts (shared (processIssues k is t)) = summaryCounts (shared ?t1)"
    by metis+
  then show "repoCounts (shared (processIssues k is t)) = repoCounts (shared t)"
    "summaryCounts (shared (processIssues k is t)) = summaryCounts (shared t)"
    unfolding a b by simp_all
qed

lemma counts_initRepository:
  "repoCounts (initRepository c r) = AList.update (repoKeyOf r) (0, 0) (repoCounts c)"
  "summaryCounts (initRepository c r) = summaryCounts c"
proof -
  have "map (\<lambda>entry. (fst entry, repoCommits (snd entry), repoPullRequests (snd entry)))
          (AList.update (repoKeyOf r) newRepoStats (repositories c))
        = AList.update (repoKeyOf r) (repoCommits newRepoStats, repoPullRequests newRepoStats)
            (map (\<lambda>entry. (fst entry, repoCommits (snd entry), repoPullRequests (snd entry)))
               (repositories c))"
    by (rule map_update_project [where h = "\<lambda>v. (repoCommits v, repoPullRequests v)"])
  then show "repoCounts (initRepository c r) = AList.update (repoKeyOf r) (0, 0) (repoCounts c)"
    by (simp add: repoCounts_def initRepository_def newRepoStats_def)
  show "summaryCounts (initRepository c r) = summaryCounts c"
    by (simp add: summaryCounts_def initRepository_def)
qed

lemma counts_startRepository:
  "repoCounts (shared (startRepository ff c r))
     = AList.map_entry (repoKeyOf r)
         (\<lambda>v. (length (fetchedCommits (ff r)), length (fetchedPRs (ff r)))) (repoCounts c)"
  "summaryCounts (shared (startRepository ff c r))
     = (fst (summaryCounts c) + length (fetchedCommits (ff r)),
        snd (summaryCounts c) + length (fetchedPRs (ff r)))"
  by (simp_all add: startRepository_def counts_processIssues counts_processPRs
      counts_processCommits map_entry_twice)

lemma frame_landing:
  "repoCounts (foldl (analyzeCommit cf k) c xs) = repoCounts c"
  "summaryCounts (foldl (analyzeCommit cf k) c xs) = summaryCounts c"
  by (rule foldl_frame, rule frame_analyzeCommit)+

lemma counts_processRepository:
  "repoCounts (fst (processRepository cf lw ff progress r))
     = AList.map_entry (repoKeyOf r)
         (\<lambda>v. (length (fetchedCommits (ff r)), length (fetchedPRs (ff r))))
         (repoCounts (fst progress))"
  "summaryCounts (fst (processRepository cf lw ff progress r))
     = (fst (summaryCounts (fst progress)) + length (fetchedCommits (ff r)),
        snd (summaryCounts (fst progress)) + length (fetchedPRs (ff r)))"
  by (simp_all add: processRepository_def Let_def frame_landing counts_startRepository)

lemma update_fresh: "k \<notin> fst ` set al \<Longrightarrow> AList.update k v al = al @ [(k, v)]"
  by (induction al) auto

lemma countsAgree_update_zero:
  assumes "countsAgree t counts" "map_of counts k = None \<or> map_of counts k = Some (0, 0)"
  shows "countsAgree t (AList.update k (0, 0) counts)"
proof (cases "map_of counts k")
  case None
  then have "k \<notin> fst ` set counts" by (simp add: map_of_eq_None_iff)
  then have "AList.update k (0, 0) counts = counts @ [(k, (0, 0))]" "k \<notin> set (map fst counts)"
    by (simp_all add: update_fresh)
  with assms(1) show ?thesis by (simp add: countsAgree_def)
next
  case (Some v)
  with assms(2) have "map_of counts k = Some (0, 0)" by simp
  then have "AList.update k (0, 0) counts = counts" by (rule update_triv)
  with assms(1) show ?thesis by simp
qed

lemma sum_map_entry:
  "distinct (map fst al) \<Longrightarrow> map_of al k = Some v
     \<Longrightarrow> sum_list (map h (AList.map_entry k g al)) + h (k, v)
         = sum_list (map h al) + (h (k, g v) :: nat)"
proof (induction al)
  case Nil
  then show ?case by simp
next
  case (Cons e al)
  obtain k' v' where e: "e = (k', v')" by (cases e)
  show ?case
  proof (cases "k' = k")
    case True
    with Cons.prems e show ?thesis by simp
  next
    case False
    with Cons.prems e have "map_of al k = Some v" "distinct (map fst al)" by simp_all
    from Cons.IH [OF this(2,1)] False e show ?thesis by simp
  qed
qed

lemma countsAgree_map_entry:
  assumes "countsAgree (a, b) counts" "map_of counts k = Some (0, 0)"
  shows "countsAgree (a + n, b + m) (AList.map_entry k (\<lambda>v. (n, m)) counts)"
proof -
  from assms(1) have d: "distinct (map fst counts)" by (simp add: countsAgree_def)
  from sum_map_entry [OF d assms(2), of "\<lambda>e. fst (snd e)" "\<lambda>v. (n, m)"]
    sum_map_entry [OF d assms(2), of "\<lambda>e. snd (snd e)" "\<lambda>v. (n, m)"] assms(1) d
  show ?thesis by (simp add: countsAgree_def)
qed

lemma map_of_update_zero:
  "map_of (AList.update k (0, 0) counts) k' = (if k' = k then Some (0, 0) else map_of counts k')"
  by (simp add: update_conv')

lemma map_of_map_entry_other:
  "k' \<noteq> k \<Longrightarrow> map_of (AList.map_entry k g counts) k' = map_of counts k'"
  by (simp add: map_of_map_entry)

lemma init_fold:
  assumes "countsAgree (summaryCounts c) (repoCounts c)"
    and "pendingZero pending (repoCounts c)"
    and "set (map repoKeyOf rs) \<subseteq> set pending"
    and "\<forall>k\<in>Z. map_of (repoCounts c) k = Some (0, 0)"
  shows "countsAgree (summaryCounts (foldl initRepository c rs))
           (repoCounts (foldl initRepository c rs))
       \<and> pendingZero pending (repoCounts (foldl initRepository c rs))
       \<and> (\<forall>k\<in>Z \<union> set (map repoKeyOf rs).
            map_of (repoCounts (foldl initRepository c rs)) k = Some (0, 0))"
  using assms
proof (induction rs arbitrary: c Z)
  case Nil
  then show ?case by simp
next
  case (Cons r rs)
  let ?c1 = "initRepository c r"
  from Cons.prems(2,3) have z: "map_of (repoCounts c) (repoKeyOf r) = None
      \<or> map_of (repoCounts c) (repoKeyOf r) = Some (0, 0)"
    by (auto simp: pendingZero_def list_all_iff)
  have 1: "countsAgree (summaryCounts ?c1) (repoCounts ?c1)"
    using Cons.prems(1) z by (simp add: counts_initRepository countsAgree_update_zero)
  have 2: "pendingZero pending (repoCounts ?c1)"
    using Cons.prems(2)
    by (auto simp: pendingZero_def list_all_iff counts_initRepository map_of_update_zero)
  have 3: "set (map repoKeyOf rs) \<subseteq> set pending" using Cons.prems(3) by simp
  have 4: "\<forall>k\<in>insert (repoKeyOf r) Z. map_of (repoCounts ?c1) k = Some (0, 0)"
    using Cons.prems(4) by (simp add: counts_initRepository map_of_update_zero)
  from Cons.IH [OF 1 2 3 4] show ?case by simp
qed

lemma process_fold:
  assumes "distinct (map repoKeyOf rs)"
    and "countsAgree (summaryCounts (fst pr)) (repoCounts (fst pr))"
    and "\<forall>r\<in>set rs. map_of (repoCounts (fst pr)) (repoKeyOf r) = Some (0, 0)"
    and "pendingZero later (repoCounts (fst pr))"
    and "set (map repoKeyOf rs) \<inter> set later = {}"
  shows "countsAgree (summaryCounts (fst (foldl (processRepository cf lw ff) pr rs)))
           (repoCounts (fst (foldl (processRepository cf lw ff) pr rs)))
       \<and> pendingZero later (repoCounts (fst (foldl (processRepository cf lw ff) pr rs)))"
  using assms
proof (induction rs arbitrary: pr)
  case Nil
  then show ?case by simp
next
  case (Cons r rs)
  let ?p1 = "processRepository cf lw ff pr r"
  let ?c = "fst pr" and ?c1 = "fst ?p1"
  let ?n = "length (fetchedCommits (ff r))" and ?m = "length (fetchedPRs (ff r))"
  from Cons.prems(3) have z: "map_of (repoCounts ?c) (repoKeyOf r) = Some (0, 0)" by simp
  have "countsAgree (fst (summaryCounts ?c) + ?n, snd (summaryCounts ?c) + ?m)
          (AList.map_entry (repoKeyOf r) (\<lambda>v. (?n, ?m)) (repoCounts ?c))"
    using Cons.prems(2) z by (intro countsAgree_map_entry) simp_all
  then have 1: "countsAgree (summaryCounts ?c1) (repoCounts ?c1)"
    by (simp add: counts_processRepository)
  have 2: "\<forall>r'\<in>set rs. map_of (repoCounts ?c1) (repoKeyOf r') = Some (0, 0)"
  proof
    fix r' assume r': "r' \<in> set rs"
    with Cons.prems(1) have "repoKeyOf r' \<noteq> repoKeyOf r" by (metis distinct.simps(2) imageI list.simps(9) set_map)
    with Cons.prems(3) r' show "map_of (repoCounts ?c1) (repoKeyOf r') = Some (0, 0)"
      by (simp add: counts_processRepository map_of_map_entry_other)
  qed
  have 3: "pendingZero later (repoCounts ?c1)"
    unfolding pendingZero_def list_all_iff
  proof
    fix k assume k: "k \<in> set later"
    with Cons.prems(5) have "k \<noteq> repoKeyOf r" by auto
    with Cons.prems(4) k
    show "map_of (repoCounts ?c1) k = None \<or> map_of (repoCounts ?c1) k = Some (0, 0)"
      by (simp add: counts_processRepository map_of_map_entry_other pendingZero_def list_all_iff)
  qed
  have 4: "distinct (map repoKeyOf rs)" "set (map repoKeyOf rs) \<inter> set later = {}"
    using Cons.prems(1,5) by auto
  from Cons.IH [OF 4(1) 1 2 3 4(2)] show ?case by simp
qed

lemma pendingZero_suffix:
  "pendingZero (xs @ ys) counts \<Longrightarrow> pendingZero ys counts"
  by (simp add: pendingZero_def)

lemma chunks_fold:
  assumes "distinct (map repoKeyOf (concat chunks))"
    and "countsAgree (summaryCounts (fst pr)) (repoCounts (fst pr))"
    and "pendingZero (map repoKeyOf (concat chunks)) (repoCounts (fst pr))"
  shows "countsAgree (summaryCounts (fst (foldl (processChunk cf lw ff) pr chunks)))
           (repoCounts (fst (foldl (processChunk cf lw ff) pr chunks)))"
  using assms
proof (induction chunks arbitrary: pr)
  case Nil
  then show ?case by simp
next
  case (Cons chunk chunks)
  let ?pending = "map repoKeyOf (concat (chunk # chunks))"
  let ?later = "map repoKeyOf (concat chunks)"
  let ?c1 = "foldl initRepository (fst pr) chunk"
  let ?p1 = "(?c1, snd pr)"
  have "set (map repoKeyOf chunk) \<subseteq> set ?pending" by auto
  from init_fold [OF Cons.prems(2) Cons.prems(3) this, of "{}"]
  have i: "countsAgree (summaryCounts ?c1) (repoCounts ?c1)"
    "pendingZero ?pending (repoCounts ?c1)"
    "\<forall>r\<in>set chunk. map_of (repoCounts ?c1) (repoKeyOf r) = Some (0, 0)"
    by auto
  from i(2) have l: "pendingZero ?later (repoCounts ?c1)"
    by (simp add: pendingZero_def)
  from Cons.prems(1) have d: "distinct (map repoKeyOf chunk)" "distinct ?later"
    "set (map repoKeyOf chunk) \<inter> set ?later = {}"
    by auto
  from process_fold [where pr = ?p1 and later = ?later and cf = cf and lw = lw and ff = ff,
      OF d(1) _ _ _ d(3)] i(1) i(3) l
  have "countsAgree (summaryCounts (fst (processChunk cf lw ff pr chunk)))
          (repoCounts (fst (processChunk cf lw ff pr chunk)))"
    "pendingZero ?later (repoCounts (fst (processChunk cf lw ff pr chunk)))"
    by (simp_all add: processChunk_def)
  from Cons.IH [OF d(2) this] show ?case by simp
qed

lemma distinct_map_insert_by:
  "distinct (map f (insert_by cmp x xs)) \<longleftrightarrow> f x \<notin> f ` set xs \<and> distinct (map f xs)"
  by (induction xs) (auto simp: set_insert_by)

lemma distinct_map_js_sort: "distinct (map f (js_sort cmp xs)) = distinct (map f xs)"
proof (induction xs)
  case Nil
  then show ?case by (simp add: js_sort_def)
next
  case (Cons x xs)
  have "js_sort cmp (x # xs) = insert_by cmp x (js_sort cmp xs)"
    by (simp add: js_sort_def)
  with Cons show ?case
    by (simp add: distinct_map_insert_by set_js_sort)
qed

lemma distinct_map_slice_to: "distinct (map f xs) \<Longrightarrow> distinct (map f (slice_to xs e))"
  by (auto simp: slice_to_def take_map [symmetric] split: option.splits)

lemma distinct_reposToProcess:
  "distinct (map repoKeyOf (REPOS p)) \<Longrightarrow> distinct (map repoKeyOf (reposToProcess p))"
  by (simp add: reposToProcess_def priorityRepos_def distinct_map_slice_to distinct_map_js_sort)

lemma collectRepositories_returns: "\<exists>c. collectRepositories p = Some c"
  using chunkArray_concat [of "repoConcurrencyLimit p" "reposToProcess p"]
  by (auto simp: collectRepositories_def repoConcurrencyLimit_def)

lemma collectRepositories_countsAgree:
  assumes "distinct (map repoKeyOf (reposToProcess p))" "collectRepositories p = Some pr"
  shows "countsAgree (summaryCounts (fst pr)) (repoCounts (fst pr))"
proof -
  have "0 < repoConcurrencyLimit p" by (simp add: repoConcurrencyLimit_def)
  from chunkArray_concat [OF this, of "reposToProcess p"]
  obtain chunks where ch: "chunkArray (reposToProcess p) (repoConcurrencyLimit p) = Some chunks"
    "concat chunks = reposToProcess p"
    by blast
  with assms(2) have c: "pr = foldl (processChunk (commitFilesOf p) (landsWhenOf p) (fetchedFor p))
                             (initialContributions p, []) chunks"
    by (simp add: collectRepositories_def)
  have d: "distinct (map repoKeyOf (concat chunks))"
    using assms(1) ch(2) by simp
  have i: "countsAgree (summaryCounts (initialContributions p)) (repoCounts (initialContributions p))"
    "pendingZero (map repoKeyOf (concat chunks)) (repoCounts (initialContributions p))"
    by (simp_all add: countsAgree_def pendingZero_def summaryCounts_def repoCounts_def
        initialContributions_def list_all_iff)
  from chunks_fold [where pr = "(initialContributions p, [])", OF d] i c show ?thesis by simp
qed

lemma frame_landBeforeScores:
  "repoCounts (landBeforeScores cf lw pr) = repoCounts (fst pr)"
  "summaryCounts (landBeforeScores cf lw pr) = summaryCounts (fst pr)"
  unfolding landBeforeScores_def
  by (rule foldl_frame, rule frame_analyzeCommit)+

lemma frame_detailUser:
  "summary (detailUser ds k c u) = summary c" "repositories (detailUser ds k c u) = repositories c"
  by (simp_all add: detailUser_def)

lemma frame_fetchDetailedContent:
  "summary (fetchDetailedContent ds c r) = summary c"
  "repositories (fetchDetailedContent ds c r) = repositories c"
proof -
  have "summary (foldl (detailUser ds k) c us) = summary c" for k us
    by (rule foldl_frame) (rule frame_detailUser)
  moreover have "repositories (foldl (detailUser ds k) c us) = repositories c" for k us
    by (rule foldl_frame) (rule frame_detailUser)
  ultimately show "summary (fetchDetailedContent ds c r) = summary c"
    "repositories (fetchDetailedContent ds c r) = repositories c"
    by (simp_all add: fetchDetailedContent_def Let_def)
qed

lemma frame_detailedStage:
  "summary (detailedStage p c) = summary c" "repositories (detailedStage p c) = repositories c"
proof -
  have "summary (foldl (fetchDetailedContent ds) c rs) = summary c" for ds rs
    by (rule foldl_frame) (rule frame_fetchDetailedContent)
  moreover have "repositories (foldl (fetchDetailedContent ds) c rs) = repositories c" for ds rs
    by (rule foldl_frame) (rule frame_fetchDetailedContent)
  ultimately show "summary (detailedStage p c) = summary c"
    "repositories (detailedStage p c) = repositories c"
    by (simp_all add: detailedStage_def)
qed

lemma frame_scoreUsers:
  "summary (scoreUsers c) = summary c" "repositories (scoreUsers c) = repositories c"
  by (simp_all add: scoreUsers_def)

lemma frame_analysisStage:
  assumes "analysisStage p c = Returns r"
  shows "summary r = summary c" "repositories r = repositories c"
  using assms
  by (auto simp: analysisStage_def basicFallback_def Let_def
      split: if_splits option.splits sum.splits)

lemma beforeAnalysis_returns: "\<exists>c. beforeAnalysis p = Some c"
  using collectRepositories_returns [of p] by (auto simp: beforeAnalysis_def)

lemma generateContributionReport_not_Diverges: "generateContributionReport p \<noteq> Diverges"
  using beforeAnalysis_returns [of p]
  by (auto simp: generateContributionReport_def analysisStage_def basicFallback_def Let_def
      split: option.splits sum.splits)

lemma totalOver_repoCounts:
  "totalOver repoCommits c = sum_list (map (\<lambda>e. fst (snd e)) (repoCounts c))"
  "totalOver repoPullRequests c = sum_list (map (\<lambda>e. snd (snd e)) (repoCounts c))"
  by (simp_all add: totalOver_def repoCounts_def comp_def)

text \<open>
  An author whose name objects inherit is not made a user: the step throws before it
  writes anything and the task of the repository is rejected. The counts of the
  repository and of the summary are written all the same; the lines of alice's commit
  are in the report when its update has landed in time, and missing when it lands after
  the report has been returned.
\<close>

lemma inherited_author_rejects_task:
  "initializeUserStats [] ''constructor'' None = Inr []
   \<and> initializeUserStats [] ''constructor'' (Some ''o/a'') = Inl (TypeError ''o/a'')
   \<and> ensureUser ''constructor'' ''o/a'' [] = Inl (TypeError ''o/a'')
   \<and> rejected (startRepository rejectingFetched (initRepository (initialContributions
         (rejectingPipeline LandsAtOnce)) repoA) repoA)
   \<and> (case generateContributionReport (rejectingPipeline LandsAtOnce) of
         Returns r \<Rightarrow> map fst (users r) = [''alice''] \<and> summaryTotalCommits (summary r) = 2
                     \<and> totalOver repoCommits r = 2 \<and> totalLinesModified (summary r) = 4
                     \<and> map effortGrade (map snd (users r)) = [''C+'']
       | Throws e \<Rightarrow> False
       | Diverges \<Rightarrow> False)
   \<and> (case generateContributionReport (rejectingPipeline LandsBeforeScores) of
         Returns r \<Rightarrow> map fst (users r) = [''alice''] \<and> summaryTotalCommits (summary r) = 2
                     \<and> totalOver repoCommits r = 2 \<and> totalLinesModified (summary r) = 4
       | Throws e \<Rightarrow> False
       | Diverges \<Rightarrow> False)
   \<and> (case generateContributionReport (rejectingPipeline LandsAfterReturn) of
         Returns r \<Rightarrow> map fst (users r) = [''alice''] \<and> summaryTotalCommits (summary r) = 2
                     \<and> totalOver repoCommits r = 2 \<and> totalLinesModified (summary r) = 0
       | Throws e \<Rightarrow> False
       | Diverges \<Rightarrow> False)"
  by code_simp

text \<open>
  Claim C2, as the code has it. When the keys \<^verbatim>\<open>owner/repo\<close> of the repositories that
  are processed (all configured repositories, or in memory-optimized mode the first
  \<^verbatim>\<open>MAX_REPOS\<close> of them) are pairwise distinct, every report that
  \<^verbatim>\<open>generateContributionReport\<close> returns has \<^verbatim>\<open>summary.totalCommits\<close> equal to the sum
  of \<^verbatim>\<open>repositories[r].commits\<close> over all keys, and \<^verbatim>\<open>summary.totalPRs\<close> equal to the
  sum of \<^verbatim>\<open>repositories[r].pullRequests\<close>, whatever the environment says. This is so
  in particular when the keys of all configured repositories are pairwise distinct
  (lemma \<open>distinct_reposToProcess\<close>).
\<close>

theorem summary_totals_agree:
  assumes "distinct (map repoKeyOf (reposToProcess p))"
    and "generateContributionReport p = Returns report"
  shows "summaryTotalCommits (summary report) = totalOver repoCommits report
       \<and> summaryTotalPRs (summary report) = totalOver repoPullRequests report"
proof -
  from assms(2) obtain pr c where pr: "collectRepositories p = Some pr"
    and c: "c = scoreUsers (detailedStage p (landBeforeScores (commitFilesOf p) (landsWhenOf p) pr))"
    and r: "analysisStage p c = Returns report"
    by (auto simp: generateContributionReport_def beforeAnalysis_def split: option.splits)
  let ?c0 = "landBeforeScores (commitFilesOf p) (landsWhenOf p) pr"
  have "summary report = summary ?c0" "repositories report = repositories ?c0"
    using frame_analysisStage [OF r] c by (simp_all add: frame_scoreUsers frame_detailedStage)
  then have "summaryCounts report = summaryCounts ?c0" "repoCounts report = repoCounts ?c0"
    by (simp_all add: summaryCounts_def repoCounts_def)
  with collectRepositories_countsAgree [OF assms(1) pr]
  have "countsAgree (summaryCounts report) (repoCounts report)"
    by (simp add: frame_landBeforeScores)
  then show ?thesis
    by (simp add: countsAgree_def totalOver_repoCounts summaryCounts_def)
qed

theorem summary_totals_agree_witness:
  "distinct (map repoKeyOf (reposToProcess (samplePipeline [repoA, repoB])))
   \<and> generateContributionReport (samplePipeline [repoA, repoB]) = Returns sampleReport
   \<and> summaryTotalCommits (summary sampleReport) = 1
   \<and> totalOver repoCommits sampleReport = 1
   \<and> summaryTotalPRs (summary sampleReport) = 1
   \<and> totalOver repoPullRequests sampleReport = 1
   \<and> generateContributionReport
       ((samplePipeline [repoA, repoB])\<lparr>processEnv := [''MEMORY_OPTIMIZED'' \<mapsto> ''true'',
          ''MAX_REPOS'' \<mapsto> ''1'', ''SKIP_AI_ANALYSIS'' \<mapsto> ''true'']\<rparr>) \<noteq> Diverges"
proof -
  have d: "distinct (map repoKeyOf (reposToProcess (samplePipeline [repoA, repoB])))"
    by code_simp
  have ev: "generateContributionReport (samplePipeline [repoA, repoB]) = Returns sampleReport"
    by code_simp
  have one: "summaryTotalCommits (summary sampleReport) = 1"
    "summaryTotalPRs (summary sampleReport) = 1"
    by (simp_all add: sampleReport_def)
  from summary_totals_agree [OF d ev] d ev one generateContributionReport_not_Diverges
  show ?thesis by simp
qed

text \<open>
  Claim C2 as stated speaks of every report. A configuration that lists a repository
  twice passes the validation of \<^verbatim>\<open>parseRepositories\<close>; in this run both listings are
  processed, the summary counts the commits and the pull requests of the repository
  twice and the one entry of \<^verbatim>\<open>repositories\<close> holds them once.
\<close>

theorem summary_counts_duplicate_twice:
  "(case generateContributionReport (samplePipeline [repoA, repoA]) of
      Returns r \<Rightarrow> summaryTotalCommits (summary r) = 2 \<and> totalOver repoCommits r = 1
                  \<and> summaryTotalPRs (summary r) = 2 \<and> totalOver repoPullRequests r = 1
    | Throws e \<Rightarrow> False
    | Diverges \<Rightarrow> False)"
  by code_simp

subsection \<open>Properties of the analysis stage\<close>

lemma length_insert_by: "length (insert_by cmp x xs) = Suc (length xs)"
  by (induction xs) auto

lemma length_js_sort: "length (js_sort cmp xs) = length xs"
  by (induction xs) (simp_all add: js_sort_def length_insert_by)

lemma topContributors_empty: "topContributors us = [] \<longleftrightarrow> us = []"
proof -
  have "js_sort cmp us = [] \<longleftrightarrow> us = []" for cmp :: "(string \<times> user_stats) \<Rightarrow> _"
    using length_js_sort [of cmp us] by (metis length_0_conv)
  then show ?thesis by (simp add: topContributors_def)
qed

text \<open>
  The request of an analysis is never sent: building it throws, whatever the key is.
\<close>

lemma requestAnalysis_throws: "requestAnalysis (analysisScope apiKey) JSON_parse reply = (None, 0)"
  by (simp add: requestAnalysis_def read_name_def analysisScope_def)

lemma analyses_fail:
  assumes "us \<noteq> []"
  shows "generateDetailedAIAnalysis env JSON_parse reply us = (None, 0)"
    and "generateAIAnalysis env JSON_parse reply us = (None, 0)"
  using assms
  by (simp_all add: generateDetailedAIAnalysis_def generateAIAnalysis_def topContributors_empty
      requestAnalysis_throws split: option.splits)

lemma analysisFails_users: "analysisFails p c \<longleftrightarrow> users c \<noteq> []"
proof (cases "users c = []")
  case True
  then show ?thesis
    by (simp add: analysisFails_def generateDetailedAIAnalysis_def topContributors_empty)
next
  case False
  then show ?thesis by (simp add: analysisFails_def analyses_fail)
qed

lemma analysisStage_fails: "analysisFails p c \<Longrightarrow> analysisStage p c = Returns c"
  by (simp add: analysisStage_def basicFallback_def analyses_fail analysisFails_users)












lemma analysisStage_empty:
  assumes "users c = []" "processEnv p ''SKIP_AI_ANALYSIS'' \<noteq> Some ''true''"
  shows "analysisStage p c = Returns (c\<lparr>aiAnalysis := Some noContributionsAnalysis\<rparr>)"
proof -
  have 1: "generateDetailedAIAnalysis env' parse r [] = (Some noContributionsAnalysis, 0)"
    for env' parse r
    by (simp add: generateDetailedAIAnalysis_def topContributors_empty)
  have 2: "get_member noContributionsAnalysis ''contributors'' = Inr (Some (JObj []))"
    by (simp add: noContributionsAnalysis_def)
  have 3: "assignQualityGrades f (forInEntries (JObj [])) us = Inr us" for f us
    by (simp add: forInEntries_def)
  from assms show ?thesis
    by (simp add: analysisStage_def 1 2 3 noContributionsAnalysis_def)
qed

text \<open>
  The analysis stage never throws: it is skipped, or there is no user and it records the
  fixed analysis, or there are users and both analyses return \<^verbatim>\<open>null\<close>.
\<close>

lemma generateContributionReport_returns: "\<exists>report. generateContributionReport p = Returns report"
proof -
  obtain c where c: "beforeAnalysis p = Some c"
    using beforeAnalysis_returns by blast
  have "\<exists>report. analysisStage p c = Returns report"
  proof (cases "processEnv p ''SKIP_AI_ANALYSIS'' = Some ''true''")
    case True
    then show ?thesis by (simp add: analysisStage_def)
  next
    case False
    show ?thesis
    proof (cases "users c = []")
      case True
      with False show ?thesis by (simp add: analysisStage_empty)
    next
      case False
      then show ?thesis by (simp add: analysisStage_fails analysisFails_users)
    qed
  qed
  with c show ?thesis by (simp add: generateContributionReport_def)
qed



text \<open>
  Claim C10. When the users map is empty, \<^verbatim>\<open>generateDetailedAIAnalysis\<close> returns the
  fixed object with the summary "No significant contributions found ..." and an empty
  contributors map, and sends no request to the service, whatever the environment holds
  (so also without an API key); and when the analysis stage runs on contribution data
  \<open>c\<close> without users, the report is \<open>c\<close> with that object as its \<^verbatim>\<open>aiAnalysis\<close> field.
\<close>

theorem empty_period_analysis:
  "generateDetailedAIAnalysis env JSON_parse reply [] = (Some noContributionsAnalysis, 0)
   \<and> get_member noContributionsAnalysis ''summary''
       = Inr (Some (JStr ''No significant contributions found in the analyzed repositories during this period.''))
   \<and> get_member noContributionsAnalysis ''contributors'' = Inr (Some (JObj []))
   \<and> (beforeAnalysis p = Some c \<and> users c = [] \<and> processEnv p ''SKIP_AI_ANALYSIS'' \<noteq> Some ''true''
        \<longrightarrow> generateContributionReport p = Returns (c\<lparr>aiAnalysis := Some noContributionsAnalysis\<rparr>))"
proof -
  have "generateDetailedAIAnalysis env JSON_parse reply [] = (Some noContributionsAnalysis, 0)"
    by (simp add: generateDetailedAIAnalysis_def topContributors_empty)
  then show ?thesis
    by (simp add: generateContributionReport_def analysisStage_empty noContributionsAnalysis_def)
qed

theorem empty_period_analysis_witness:
  "generateDetailedAIAnalysis Map.empty sampleParse AiNetworkError [] = (Some noContributionsAnalysis, 0)
   \<and> apiKeyMissing (processEnv emptyPipeline)
   \<and> beforeAnalysis emptyPipeline = Some (initialContributions emptyPipeline)
   \<and> users (initialContributions emptyPipeline) = []
   \<and> processEnv emptyPipeline ''SKIP_AI_ANALYSIS'' \<noteq> Some ''true''
   \<and> generateContributionReport emptyPipeline
       = Returns ((initialContributions emptyPipeline)\<lparr>aiAnalysis := Some noContributionsAnalysis\<rparr>)"
proof -
  have b: "beforeAnalysis emptyPipeline = Some (initialContributions emptyPipeline)" by code_simp
  have u: "users (initialContributions emptyPipeline) = []" by code_simp
  have s: "processEnv emptyPipeline ''SKIP_AI_ANALYSIS'' \<noteq> Some ''true''"
    by (simp add: emptyPipeline_def)
  have k: "apiKeyMissing (processEnv emptyPipeline)"
    by (simp add: emptyPipeline_def apiKeyMissing_def)
  from empty_period_analysis [of Map.empty sampleParse AiNetworkError emptyPipeline
      "initialContributions emptyPipeline"] b u s k
  show ?thesis by simp
qed

text \<open>
  Claim C4. Two repositories \<^verbatim>\<open>o/a\<close> and \<^verbatim>\<open>o/b\<close> are configured, and alice has one
  commit and one pull request in \<^verbatim>\<open>o/a\<close> and no activity in \<^verbatim>\<open>o/b\<close>. The report has
  an entry for both repositories, and alice's per-user \<^verbatim>\<open>repositories\<close> map has the one
  key \<^verbatim>\<open>o/a\<close>: it has no entry for \<^verbatim>\<open>o/b\<close>. \<^verbatim>\<open>initializeUserStats\<close> creates the entry of
  the repository it is called for and no other.
\<close>

theorem user_repositories_not_zero_filled:
  "generateContributionReport (samplePipeline [repoA, repoB]) = Returns sampleReport
   \<and> map fst (repositories sampleReport) = [''o/a'', ''o/b'']
   \<and> map fst (users sampleReport) = [''alice'']
   \<and> map fst (userRepositories (snd (hd (users sampleReport)))) = [''o/a'']
   \<and> map_of (userRepositories (snd (hd (users sampleReport)))) ''o/b'' = None
   \<and> initializeUserStats [] ''alice'' (Some ''o/a'')
       = Inr [(''alice'', newUserStats\<lparr>userRepositories := [(''o/a'', newUserRepoStats)]\<rparr>)]"
  by code_simp
end
